(* ===== verification/Fb_Prelude.thy ===== *)
theory Fb_Prelude
  imports Main "HOL-Library.State_Monad" "HOL-Library.AList"
begin

text \<open>
  Shared vocabulary of the development.

  \<^item> Effectful Go code is a computation of the library's state monad. \<open>onErr m h k\<close> is the
    idiom \<^verbatim>\<open>x, err := m; if err != nil { return h(err) }; k\<close>, \<open>onFail\<close> the same with a
    clean-up call before the return, \<open>ignore\<close> is \<^verbatim>\<open>_ = m\<close>.
  \<^item> \<open>wp\<close> is the weakest precondition of such a computation; \<open>keeps\<close> says that a
    computation keeps an invariant of its state whatever it returns.
  \<^item> A Go map is an association list with distinct keys (\<open>gomap\<close>). Iteration
    follows the order of the list; the theorems hold for every order.
\<close>

section \<open>Effects and early returns\<close>

abbreviation ret :: "'a \<Rightarrow> ('s, 'a) state" where
  "ret \<equiv> State_Monad.return"

definition gets :: "('s \<Rightarrow> 'a) \<Rightarrow> ('s, 'a) state" where
  "gets f = State (\<lambda>s. (f s, s))"

definition modify :: "('s \<Rightarrow> 's) \<Rightarrow> ('s, unit) state" where
  "modify f = State (\<lambda>s. ((), f s))"

definition onErr :: "('s, 'e + 'a) state \<Rightarrow> ('e \<Rightarrow> 'f) \<Rightarrow> ('a \<Rightarrow> ('s, 'f + 'b) state) \<Rightarrow> ('s, 'f + 'b) state" where
  "onErr m h k = State_Monad.bind m (\<lambda>r. case r of Inl e \<Rightarrow> ret (Inl (h e)) | Inr x \<Rightarrow> k x)"

definition onFail :: "('s, 'e + 'a) state \<Rightarrow> ('s, unit) state \<Rightarrow> ('e \<Rightarrow> 'f) \<Rightarrow> ('a \<Rightarrow> ('s, 'f + 'b) state) \<Rightarrow> ('s, 'f + 'b) state" where
  "onFail m c h k = State_Monad.bind m
     (\<lambda>r. case r of Inl e \<Rightarrow> State_Monad.bind c (\<lambda>_. ret (Inl (h e))) | Inr x \<Rightarrow> k x)"

definition ignore :: "('s, 'a) state \<Rightarrow> ('s, unit) state" where
  "ignore m = State_Monad.bind m (\<lambda>_. ret ())"

fun forEach :: "'a list \<Rightarrow> ('a \<Rightarrow> ('s, unit) state) \<Rightarrow> ('s, unit) state" where
  "forEach [] f = ret ()"
| "forEach (x # xs) f = State_Monad.bind (f x) (\<lambda>_. forEach xs f)"

fun forEachE :: "'a list \<Rightarrow> ('a \<Rightarrow> ('s, 'e + unit) state) \<Rightarrow> ('s, 'e + unit) state" where
  "forEachE [] f = ret (Inr ())"
| "forEachE (x # xs) f = onErr (f x) id (\<lambda>_. forEachE xs f)"

section \<open>Weakest preconditions and invariants\<close>

named_theorems wps \<open>weakest-precondition equations of the model's operations\<close>
named_theorems kept \<open>introduction rules: what an operation keeps of its state\<close>
named_theorems logged \<open>introduction rules: which commands an operation runs\<close>
named_theorems asked \<open>introduction rules: which API requests an operation sends\<close>
named_theorems golib \<open>evaluation of the Go library's string functions\<close>

definition wp :: "('s, 'a) state \<Rightarrow> ('a \<Rightarrow> 's \<Rightarrow> bool) \<Rightarrow> 's \<Rightarrow> bool" where
  "wp m Q s = (case run_state m s of (r, s') \<Rightarrow> Q r s')"

definition keeps :: "('s \<Rightarrow> bool) \<Rightarrow> ('s, 'a) state \<Rightarrow> bool" where
  "keeps I m = (\<forall>s. I s \<longrightarrow> I (snd (run_state m s)))"

lemma run_gets [simp]: "run_state (gets f) s = (f s, s)"
  by (simp add: gets_def)

lemma run_modify [simp]: "run_state (modify f) s = ((), f s)"
  by (simp add: modify_def)

lemma run_onErr:
  "run_state (onErr m h k) s =
     (case run_state m s of (r, s') \<Rightarrow>
        (case r of Inl e \<Rightarrow> (Inl (h e), s') | Inr x \<Rightarrow> run_state (k x) s'))"
  by (auto simp: onErr_def split: prod.splits sum.splits)

lemma run_onFail:
  "run_state (onFail m c h k) s =
     (case run_state m s of (r, s') \<Rightarrow>
        (case r of Inl e \<Rightarrow> (Inl (h e), snd (run_state c s')) | Inr x \<Rightarrow> run_state (k x) s'))"
  by (auto simp: onFail_def split: prod.splits sum.splits)

lemma run_ignore: "run_state (ignore m) s = ((), snd (run_state m s))"
  by (simp add: ignore_def split: prod.splits)

lemma wp_ret [wps]: "wp (ret x) Q s = Q x s"
  by (simp add: wp_def)

lemma wp_bind [wps]: "wp (State_Monad.bind m f) Q s = wp m (\<lambda>r. wp (f r) Q) s"
  by (simp add: wp_def split: prod.splits)

lemma wp_gets [wps]: "wp (gets f) Q s = Q (f s) s"
  by (simp add: wp_def)

lemma wp_modify [wps]: "wp (modify f) Q s = Q () (f s)"
  by (simp add: wp_def)

lemma wp_onErr [wps]:
  "wp (onErr m h k) Q s = wp m (\<lambda>r s'. case r of Inl e \<Rightarrow> Q (Inl (h e)) s' | Inr x \<Rightarrow> wp (k x) Q s') s"
  by (simp add: wp_def run_onErr split: prod.splits sum.splits)

lemma wp_onFail [wps]:
  "wp (onFail m c h k) Q s =
     wp m (\<lambda>r s'. case r of Inl e \<Rightarrow> wp c (\<lambda>_. Q (Inl (h e))) s' | Inr x \<Rightarrow> wp (k x) Q s') s"
  by (simp add: wp_def run_onFail split: prod.splits sum.splits)

lemma wp_ignore [wps]: "wp (ignore m) Q s = wp m (\<lambda>_. Q ()) s"
  by (simp add: wp_def run_ignore split: prod.splits)

lemma wp_if [wps]: "wp (if b then m else m') Q s = (if b then wp m Q s else wp m' Q s)"
  by simp

lemma wp_mono: "wp m P s \<Longrightarrow> (\<And>r s'. P r s' \<Longrightarrow> Q r s') \<Longrightarrow> wp m Q s"
  by (auto simp: wp_def split: prod.splits)

lemma wp_conj: "wp m (\<lambda>r s'. P r s' \<and> Q r s') s \<longleftrightarrow> wp m P s \<and> wp m Q s"
  by (auto simp: wp_def split: prod.splits)

lemma wp_run: "wp m Q s \<Longrightarrow> run_state m s = (r, s') \<Longrightarrow> Q r s'"
  by (simp add: wp_def)

lemma wpI: "(\<And>r s'. run_state m s = (r, s') \<Longrightarrow> Q r s') \<Longrightarrow> wp m Q s"
  by (simp add: wp_def split: prod.splits)

lemma keeps_wp: "keeps I m \<Longrightarrow> I s \<Longrightarrow> wp m (\<lambda>_. I) s"
  by (auto simp: keeps_def wp_def split: prod.splits)

lemma keepsI: "(\<And>s. I s \<Longrightarrow> wp m (\<lambda>_. I) s) \<Longrightarrow> keeps I m"
  by (simp add: keeps_def wp_def case_prod_beta)

lemma keeps_run: "keeps I m \<Longrightarrow> I s \<Longrightarrow> run_state m s = (r, s') \<Longrightarrow> I s'"
  by (auto simp: keeps_def dest: spec [of _ s])

lemma keeps_snd: "keeps I m \<Longrightarrow> I s \<Longrightarrow> I (snd (run_state m s))"
  by (simp add: keeps_def)

lemma keeps_ret [kept]: "keeps I (ret x)"
  by (simp add: keeps_def)

lemma keeps_gets [kept]: "keeps I (gets f)"
  by (simp add: keeps_def)

lemma keeps_gets_bind: "(\<And>s. I s \<Longrightarrow> keeps I (k (f s))) \<Longrightarrow> keeps I (State_Monad.bind (gets f) k)"
  by (simp add: keeps_def)

lemma keeps_bind [kept]: "keeps I m \<Longrightarrow> (\<And>x. keeps I (f x)) \<Longrightarrow> keeps I (State_Monad.bind m f)"
  by (fastforce simp: keeps_def split: prod.splits)

lemma keeps_onErr [kept]: "keeps I m \<Longrightarrow> (\<And>x. keeps I (k x)) \<Longrightarrow> keeps I (onErr m h k)"
  unfolding onErr_def by (intro keeps_bind) (auto intro: keeps_ret split: sum.splits)

lemma keeps_onFail [kept]:
  "keeps I m \<Longrightarrow> keeps I c \<Longrightarrow> (\<And>x. keeps I (k x)) \<Longrightarrow> keeps I (onFail m c h k)"
  unfolding onFail_def
  by (intro keeps_bind) (auto intro: keeps_ret keeps_bind split: sum.splits)

lemma keeps_ignore [kept]: "keeps I m \<Longrightarrow> keeps I (ignore m)"
  unfolding ignore_def by (intro keeps_bind keeps_ret)

lemma keeps_if [kept]: "keeps I m \<Longrightarrow> keeps I m' \<Longrightarrow> keeps I (if b then m else m')"
  by simp

lemma keeps_case_sum [kept]:
  "(\<And>e. keeps I (f e)) \<Longrightarrow> (\<And>x. keeps I (g x)) \<Longrightarrow> keeps I (case r of Inl e \<Rightarrow> f e | Inr x \<Rightarrow> g x)"
  by (cases r) auto

lemma keeps_case_option [kept]:
  "keeps I m \<Longrightarrow> (\<And>x. keeps I (f x)) \<Longrightarrow> keeps I (case r of None \<Rightarrow> m | Some x \<Rightarrow> f x)"
  by (cases r) auto

lemma keeps_case_prod [kept]:
  "(\<And>x y. keeps I (f x y)) \<Longrightarrow> keeps I (case r of (x, y) \<Rightarrow> f x y)"
  by (cases r) auto

lemma keeps_case_list [kept]:
  "keeps I m \<Longrightarrow> (\<And>x xs. keeps I (f x xs)) \<Longrightarrow> keeps I (case r of [] \<Rightarrow> m | x # xs \<Rightarrow> f x xs)"
  by (cases r) auto

lemma keeps_Let [kept]: "(\<And>x. keeps I (f x)) \<Longrightarrow> keeps I (let x = e in f x)"
  by simp

lemma keeps_forEach [kept]: "(\<And>x. x \<in> set xs \<Longrightarrow> keeps I (f x)) \<Longrightarrow> keeps I (forEach xs f)"
  by (induction xs) (auto intro: keeps_ret keeps_bind)

lemma keeps_forEachE [kept]: "(\<And>x. x \<in> set xs \<Longrightarrow> keeps I (f x)) \<Longrightarrow> keeps I (forEachE xs f)"
  by (induction xs) (auto intro: keeps_ret keeps_onErr)

section \<open>Go maps\<close>

type_synonym ('k, 'v) gomap = "('k \<times> 'v) list"
type_synonym smap = "(string, string) gomap"

abbreviation gm_get :: "('k, 'v) gomap \<Rightarrow> 'k \<Rightarrow> 'v option" where
  "gm_get \<equiv> map_of"

abbreviation gm_put :: "'k \<Rightarrow> 'v \<Rightarrow> ('k, 'v) gomap \<Rightarrow> ('k, 'v) gomap" where
  "gm_put \<equiv> AList.update"

abbreviation gm_del :: "'k \<Rightarrow> ('k, 'v) gomap \<Rightarrow> ('k, 'v) gomap" where
  "gm_del \<equiv> AList.delete"

definition gm_wf :: "('k, 'v) gomap \<Rightarrow> bool" where
  "gm_wf m = distinct (map fst m)"

text \<open>Reading a missing key of a string map gives the empty string.\<close>

definition sget :: "smap \<Rightarrow> string \<Rightarrow> string" where
  "sget m k = (case gm_get m k of None \<Rightarrow> [] | Some v \<Rightarrow> v)"

lemma gm_wf_Nil [simp]: "gm_wf []"
  by (simp add: gm_wf_def)

lemma gm_wf_put [simp]: "gm_wf m \<Longrightarrow> gm_wf (gm_put k v m)"
  by (simp add: gm_wf_def AList.distinct_update)

lemma gm_wf_del [simp]: "gm_wf m \<Longrightarrow> gm_wf (gm_del k m)"
  by (simp add: gm_wf_def AList.distinct_delete)

lemma gm_get_put: "gm_get (gm_put k v m) k' = (if k' = k then Some v else gm_get m k')"
  by (simp add: AList.update_conv')

lemma gm_get_del: "gm_get (gm_del k m) k' = (if k' = k then None else gm_get m k')"
  by (simp add: AList.delete_conv')

lemma sget_put: "sget (gm_put k v m) k' = (if k' = k then v else sget m k')"
  by (simp add: sget_def gm_get_put)

lemma sget_Nil [simp]: "sget [] k = []"
  by (simp add: sget_def)

lemma gm_get_set: "gm_wf m \<Longrightarrow> gm_get m k = Some v \<longleftrightarrow> (k, v) \<in> set m"
  by (simp add: gm_wf_def)

lemma gm_wf_filter: "gm_wf m \<Longrightarrow> gm_wf (filter P m)"
  by (simp add: gm_wf_def distinct_map_filter)

lemma gm_get_filter:
  "gm_wf m \<Longrightarrow> gm_get (filter (\<lambda>(i, x). P i x) m) k =
     (case gm_get m k of None \<Rightarrow> None | Some v \<Rightarrow> if P k v then Some v else None)"
proof (induction m)
  case (Cons a m)
  then show ?case
    by (cases "fst a = k") (force simp: gm_wf_def split: option.splits dest: map_of_SomeD)+
qed simp

text \<open>
  A keyed store: the contract shared by the driver's in-memory tables (the loop state,
  the failure marks and hold-offs, the key cache).
\<close>

locale keyed_store =
  fixes get :: "'s \<Rightarrow> string \<Rightarrow> 'v option"
    and put :: "string \<Rightarrow> 'v \<Rightarrow> 's \<Rightarrow> 's"
    and del :: "string \<Rightarrow> 's \<Rightarrow> 's"
    and wf :: "'s \<Rightarrow> bool"
  assumes get_put: "get (put k v s) k' = (if k' = k then Some v else get s k')"
    and get_del: "get (del k s) k' = (if k' = k then None else get s k')"
    and wf_put: "wf s \<Longrightarrow> wf (put k v s)"
    and wf_del: "wf s \<Longrightarrow> wf (del k s)"
begin

definition upd :: "string \<times> 'v option \<Rightarrow> 's \<Rightarrow> 's" where
  "upd kv s = (case kv of (k, None) \<Rightarrow> del k s | (k, Some v) \<Rightarrow> put k v s)"

lemma wf_upd: "wf s \<Longrightarrow> wf (upd kv s)"
  by (auto simp: upd_def wf_put wf_del split: prod.splits option.splits)

lemma get_upd_other: "k \<noteq> fst kv \<Longrightarrow> get (upd kv s) k = get s k"
  by (auto simp: upd_def get_put get_del split: prod.splits option.splits)

lemma wf_upds: "wf s \<Longrightarrow> wf (fold upd kvs s)"
  by (induction kvs arbitrary: s) (simp_all add: wf_upd)

lemma get_upds_other: "k \<notin> fst ` set kvs \<Longrightarrow> get (fold upd kvs s) k = get s k"
  by (induction kvs arbitrary: s) (simp_all add: get_upd_other)

lemma del_put_other: "k \<noteq> k' \<Longrightarrow> get (del k (put k' v s)) = get (put k' v (del k s))"
  by (rule ext) (auto simp: get_put get_del)

lemma put_put: "get (put k v (put k v' s)) = get (put k v s)"
  by (rule ext) (auto simp: get_put)

end

interpretation gomap: keyed_store gm_get gm_put gm_del gm_wf
  by unfold_locales (simp_all add: gm_get_put gm_get_del)

section \<open>Lists\<close>

lemma last_filter_rev: "find P (rev xs) = (if \<exists>x \<in> set xs. P x then Some (last (filter P xs)) else None)"
proof (induction xs rule: rev_induct)
  case (snoc x xs)
  then show ?case by (cases "P x") auto
qed simp

end
