(* ===== verification/Go_Lib.thy ===== *)
theory Go_Lib
  imports Fb_Prelude "HOL-Library.Char_ord" "HOL-Library.List_Lexorder"
begin

text \<open>
  The parts of Go and of its standard library that the driver computes with: 64-bit
  integer arithmetic, \<^verbatim>\<open>strings\<close>, \<^verbatim>\<open>strconv\<close>, \<^verbatim>\<open>path\<close> and \<^verbatim>\<open>path/filepath\<close>. A Go string is
  a list of bytes. White space is Unicode's; letter case is that of ASCII, which is what the words the
  driver looks for are made of.
\<close>

section \<open>64-bit integers\<close>

text \<open>Addition and multiplication wrap; division truncates towards zero.\<close>

definition wrap64 :: "int \<Rightarrow> int" where
  "wrap64 x = (x + 2 ^ 63) mod 2 ^ 64 - 2 ^ 63"

definition int64 :: "int \<Rightarrow> bool" where
  "int64 x \<longleftrightarrow> - (2 ^ 63) \<le> x \<and> x < 2 ^ 63"

definition quot :: "int \<Rightarrow> int \<Rightarrow> int" where
  "quot a b = sgn a * sgn b * (\<bar>a\<bar> div \<bar>b\<bar>)"

lemma wrap64_id: "int64 x \<Longrightarrow> wrap64 x = x"
  by (simp add: wrap64_def int64_def)

lemma int64_wrap64 [simp]: "int64 (wrap64 x)"
  using pos_mod_bound [of "2 ^ 64 :: int" "x + 2 ^ 63"] pos_mod_sign [of "2 ^ 64 :: int" "x + 2 ^ 63"]
  by (simp add: wrap64_def int64_def)

lemma quot_nonneg: "0 \<le> a \<Longrightarrow> 0 < b \<Longrightarrow> quot a b = a div b"
  by (cases "a = 0") (simp_all add: quot_def sgn_if)

section \<open>strings\<close>

definition hasPrefix :: "string \<Rightarrow> string \<Rightarrow> bool" where
  "hasPrefix s p \<longleftrightarrow> take (length p) s = p"

definition hasSuffix :: "string \<Rightarrow> string \<Rightarrow> bool" where
  "hasSuffix s p \<longleftrightarrow> length p \<le> length s \<and> drop (length s - length p) s = p"

definition trimSuffix :: "string \<Rightarrow> string \<Rightarrow> string" where
  "trimSuffix s p = (if hasSuffix s p then take (length s - length p) s else s)"

definition cutPrefix :: "string \<Rightarrow> string \<Rightarrow> string option" where
  "cutPrefix s p = (if hasPrefix s p then Some (drop (length p) s) else None)"

fun index :: "string \<Rightarrow> string \<Rightarrow> nat option" where
  "index [] p = (if p = [] then Some 0 else None)"
| "index (c # s) p = (if hasPrefix (c # s) p then Some 0 else map_option Suc (index s p))"

definition contains :: "string \<Rightarrow> string \<Rightarrow> bool" where
  "contains s p \<longleftrightarrow> index s p \<noteq> None"

definition containsAny :: "string \<Rightarrow> char list \<Rightarrow> bool" where
  "containsAny s cs \<longleftrightarrow> list_ex (\<lambda>c. c \<in> set cs) s"

text \<open>\<^verbatim>\<open>strings.Split(s, string(c))\<close> for a one-byte separator, and \<^verbatim>\<open>strings.Join\<close>.\<close>

fun split :: "char \<Rightarrow> string \<Rightarrow> string list" where
  "split c [] = [[]]"
| "split c (x # xs) =
     (if x = c then [] # split c xs
      else case split c xs of [] \<Rightarrow> [[x]] | w # ws \<Rightarrow> (x # w) # ws)"

fun join :: "string \<Rightarrow> string list \<Rightarrow> string" where
  "join sep [] = []"
| "join sep [w] = w"
| "join sep (w # ws) = w @ sep @ join sep ws"

text \<open>
  White space of \<^verbatim>\<open>unicode.IsSpace\<close>: six ASCII characters, and the UTF-8 encodings of U+0085, U+00A0,
  U+1680, U+2000 to U+200A, U+2028, U+2029, U+202F, U+205F and U+3000. None of them can start
  inside the encoding of another rune, so scanning byte by byte finds them where Go's
  scan by runes does; a byte that belongs to no rune is not white space.
\<close>

definition isSpace :: "char \<Rightarrow> bool" where
  "isSpace c \<longleftrightarrow> c \<in> {CHR 0x09, CHR 0x0A, CHR 0x0B, CHR 0x0C, CHR 0x0D, CHR 0x20}"

definition wideSpaces :: "string list" where
  "wideSpaces = [
     [CHR 0xC2, CHR 0x85], [CHR 0xC2, CHR 0xA0], [CHR 0xE1, CHR 0x9A, CHR 0x80],
     [CHR 0xE2, CHR 0x80, CHR 0x80], [CHR 0xE2, CHR 0x80, CHR 0x81], [CHR 0xE2, CHR 0x80, CHR 0x82],
     [CHR 0xE2, CHR 0x80, CHR 0x83], [CHR 0xE2, CHR 0x80, CHR 0x84], [CHR 0xE2, CHR 0x80, CHR 0x85],
     [CHR 0xE2, CHR 0x80, CHR 0x86], [CHR 0xE2, CHR 0x80, CHR 0x87], [CHR 0xE2, CHR 0x80, CHR 0x88],
     [CHR 0xE2, CHR 0x80, CHR 0x89], [CHR 0xE2, CHR 0x80, CHR 0x8A], [CHR 0xE2, CHR 0x80, CHR 0xA8],
     [CHR 0xE2, CHR 0x80, CHR 0xA9], [CHR 0xE2, CHR 0x80, CHR 0xAF], [CHR 0xE2, CHR 0x81, CHR 0x9F],
     [CHR 0xE3, CHR 0x80, CHR 0x80]]"

text \<open>The length of the white space a string starts with, and of the one it ends with.\<close>

definition spaceLen :: "string \<Rightarrow> nat" where
  "spaceLen s = (case s of [] \<Rightarrow> 0
     | c # _ \<Rightarrow> if isSpace c then 1 else (case find (hasPrefix s) wideSpaces of Some u \<Rightarrow> length u | None \<Rightarrow> 0))"

definition spaceEnd :: "string \<Rightarrow> nat" where
  "spaceEnd s = (if s = [] then 0 else if isSpace (last s) then 1
     else (case find (hasSuffix s) wideSpaces of Some u \<Rightarrow> length u | None \<Rightarrow> 0))"

lemma spaceLen_pos: "0 < spaceLen s \<Longrightarrow> length s - spaceLen s < length s"
  by (cases s) (auto simp: spaceLen_def intro: diff_less)

lemma spaceEnd_pos: "0 < spaceEnd s \<Longrightarrow> length s - spaceEnd s < length s"
  by (cases s) (auto simp: spaceEnd_def intro: diff_less)

function trimLeft :: "string \<Rightarrow> string" where
  "trimLeft s = (if spaceLen s = 0 then s else trimLeft (drop (spaceLen s) s))"
  by pat_completeness auto
termination
  by (relation "measure length") (simp_all add: spaceLen_pos)

function trimRight :: "string \<Rightarrow> string" where
  "trimRight s = (if spaceEnd s = 0 then s else trimRight (take (length s - spaceEnd s) s))"
  by pat_completeness auto
termination
  by (relation "measure length") (simp_all add: spaceEnd_pos)

declare trimLeft.simps [simp del] trimRight.simps [simp del]

definition trimSpace :: "string \<Rightarrow> string" where
  "trimSpace s = trimRight (trimLeft s)"

fun fields_aux :: "string \<Rightarrow> string \<Rightarrow> string list" where
  "fields_aux w [] = (if w = [] then [] else [rev w])"
| "fields_aux w (c # s) = (case spaceLen (c # s) of
       0 \<Rightarrow> fields_aux (c # w) s
     | Suc n \<Rightarrow> (if w = [] then [] else [rev w]) @ fields_aux [] (drop n s))"

definition strFields :: "string \<Rightarrow> string list" where
  "strFields s = fields_aux [] s"

text \<open>\<^verbatim>\<open>strings.ReplaceAll\<close> for a non-empty pattern: leftmost matches that do not overlap.\<close>

function replaceAll :: "string \<Rightarrow> string \<Rightarrow> string \<Rightarrow> string" where
  "replaceAll s old new =
     (if s = [] \<or> old = [] then s
      else if hasPrefix s old then new @ replaceAll (drop (length old) s) old new
      else hd s # replaceAll (tl s) old new)"
  by pat_completeness auto
termination
  by (relation "measure (\<lambda>(s, old, new). length s)") auto

declare replaceAll.simps [simp del]

definition lowerc :: "char \<Rightarrow> char" where
  "lowerc c = (if CHR ''A'' \<le> c \<and> c \<le> CHR ''Z'' then char_of (of_char c + (32 :: nat)) else c)"

definition toLower :: "string \<Rightarrow> string" where
  "toLower s = map lowerc s"

section \<open>unicode/utf8\<close>

definition contByte :: "char \<Rightarrow> bool" where
  "contByte c \<longleftrightarrow> 128 \<le> (of_char c :: nat) \<and> of_char c < (192 :: nat)"

text \<open>
  \<^verbatim>\<open>utf8.DecodeRune\<close>: the number of bytes of the rune a string starts with, 0 where Go reports
  \<^verbatim>\<open>RuneError\<close> of width 1 (overlong forms, surrogates, values above U+10FFFF, cut sequences).
\<close>

definition runeLen :: "string \<Rightarrow> nat" where
  "runeLen s = (case s of [] \<Rightarrow> 0 | c # t \<Rightarrow> let n = of_char c :: nat in
     if n < 128 then 1
     else if 194 \<le> n \<and> n < 224 then (case t of a # _ \<Rightarrow> if contByte a then 2 else 0 | _ \<Rightarrow> 0)
     else if 224 \<le> n \<and> n < 240 then (case t of a # b # _ \<Rightarrow>
       if contByte a \<and> contByte b \<and> (n = 224 \<longrightarrow> 160 \<le> (of_char a :: nat)) \<and> (n = 237 \<longrightarrow> of_char a < (160 :: nat)) then 3 else 0 | _ \<Rightarrow> 0)
     else if 240 \<le> n \<and> n < 245 then (case t of a # b # d # _ \<Rightarrow>
       if contByte a \<and> contByte b \<and> contByte d \<and> (n = 240 \<longrightarrow> 144 \<le> (of_char a :: nat)) \<and> (n = 244 \<longrightarrow> of_char a < (144 :: nat)) then 4 else 0 | _ \<Rightarrow> 0)
     else 0)"

definition runeError :: string where
  "runeError = [CHR 0xEF, CHR 0xBF, CHR 0xBD]"

text \<open>A string with every byte that belongs to no rune replaced by U+FFFD.\<close>

fun coerceUTF8 :: "string \<Rightarrow> string" where
  "coerceUTF8 [] = []"
| "coerceUTF8 (c # s) = (case runeLen (c # s) of
       0 \<Rightarrow> runeError @ coerceUTF8 s
     | Suc n \<Rightarrow> c # take n s @ coerceUTF8 (drop n s))"

abbreviation validUTF8 :: "string \<Rightarrow> bool" where
  "validUTF8 s \<equiv> coerceUTF8 s = s"

lemma runeLen_rune:
  assumes "runeLen (c # s) = Suc n"
  shows "n \<le> length s" "runeLen (c # take n s @ r) = Suc n" "n \<noteq> 0 \<Longrightarrow> \<forall>x \<in> set (c # take n s). 128 \<le> (of_char x :: nat)"
    "n = 0 \<Longrightarrow> of_char c < (128 :: nat)"
  using assms by (auto simp: runeLen_def Let_def contByte_def split: if_splits list.splits)

lemma coerceUTF8_idem [simp]: "coerceUTF8 (coerceUTF8 s) = coerceUTF8 s"
proof (induction s rule: coerceUTF8.induct)
  case (2 c s)
  show ?case
  proof (cases "runeLen (c # s)")
    case 0
    have "runeLen (runeError @ t) = 3" for t by (simp add: runeLen_def runeError_def contByte_def)
    then show ?thesis using 0 2(1) by (simp add: runeError_def numeral_3_eq_3)
  next
    case (Suc n)
    then show ?thesis using 2(2) runeLen_rune(1,2) [OF Suc] by simp
  qed
qed simp

section \<open>strconv\<close>

definition digit :: "char \<Rightarrow> nat option" where
  "digit c = (let n = of_char c in if 48 \<le> n \<and> n < 58 then Some (n - 48) else None)"

fun digits_val :: "int \<Rightarrow> string \<Rightarrow> int option" where
  "digits_val acc [] = Some acc"
| "digits_val acc (c # s) =
     (case digit c of None \<Rightarrow> None | Some d \<Rightarrow> digits_val (10 * acc + int d) s)"

text \<open>\<^verbatim>\<open>strconv.Atoi\<close>: an optional sign, at least one decimal digit, a value that fits.\<close>

definition atoi :: "string \<Rightarrow> int option" where
  "atoi s =
     (let (neg, t) = (case s of c # r \<Rightarrow> if c = CHR ''-'' then (True, r)
                                         else if c = CHR ''+'' then (False, r) else (False, s)
                      | [] \<Rightarrow> (False, s))
      in if t = [] then None
         else case digits_val 0 t of None \<Rightarrow> None
              | Some n \<Rightarrow> let v = (if neg then - n else n) in if int64 v then Some v else None)"

fun itoa :: "nat \<Rightarrow> string" where
  "itoa n = (if n < 10 then [char_of (48 + n)] else itoa (n div 10) @ [char_of (48 + n mod 10)])"

declare itoa.simps [simp del]

section \<open>path and path/filepath\<close>

text \<open>
  \<^verbatim>\<open>path.Clean\<close>: empty and \<open>.\<close> elements go, \<open>..\<close> removes the element before it, stays at
  the front of a relative path, and goes at the front of a rooted one. The stack holds
  the elements kept so far, the last one first.
\<close>

fun clean_push :: "bool \<Rightarrow> string list \<Rightarrow> string \<Rightarrow> string list" where
  "clean_push rooted st seg =
     (if seg = [] \<or> seg = ''.'' then st
      else if seg = ''..'' then
        (case st of [] \<Rightarrow> (if rooted then [] else [seg])
         | t # ts \<Rightarrow> if t = ''..'' then seg # st else ts)
      else seg # st)"

definition clean_segs :: "bool \<Rightarrow> string list \<Rightarrow> string list" where
  "clean_segs rooted segs = rev (foldl (clean_push rooted) [] segs)"

definition isAbs :: "string \<Rightarrow> bool" where
  "isAbs p \<longleftrightarrow> hasPrefix p ''/''"

definition clean :: "string \<Rightarrow> string" where
  "clean p =
     (let rooted = isAbs p; out = join ''/'' (clean_segs rooted (split (CHR ''/'') p))
      in if rooted then CHR ''/'' # out else if out = [] then ''.'' else out)"

definition joinPath :: "string list \<Rightarrow> string" where
  "joinPath es = (let ne = filter (\<lambda>e. e \<noteq> []) es in if ne = [] then [] else clean (join ''/'' ne))"

definition stripSlashes :: "string \<Rightarrow> string" where
  "stripSlashes p = rev (dropWhile (\<lambda>c. c = CHR ''/'') (rev p))"

definition base :: "string \<Rightarrow> string" where
  "base p =
     (if p = [] then ''.''
      else let q = stripSlashes p in
        if q = [] then ''/'' else rev (takeWhile (\<lambda>c. c \<noteq> CHR ''/'') (rev q)))"

definition dir :: "string \<Rightarrow> string" where
  "dir p = clean (rev (dropWhile (\<lambda>c. c \<noteq> CHR ''/'') (rev p)))"

section \<open>Lemmas\<close>

lemmas char_eval [golib] = char_of_def bit_0

lemma hasPrefix_iff: "hasPrefix s p \<longleftrightarrow> (\<exists>r. s = p @ r)"
  unfolding hasPrefix_def by (metis append_eq_conv_conj append_take_drop_id)

lemma hasPrefix_append [simp]: "hasPrefix (p @ r) p"
  by (simp add: hasPrefix_def)

lemma hasPrefix_Nil [simp]: "hasPrefix s []"
  by (simp add: hasPrefix_def)

lemma hasPrefix_Cons [simp]: "hasPrefix (c # s) (d # p) \<longleftrightarrow> c = d \<and> hasPrefix s p"
  by (auto simp: hasPrefix_def)

lemma hasPrefix_Nil_Cons [simp]: "\<not> hasPrefix [] (d # p)"
  by (simp add: hasPrefix_def)

lemma hasSuffix_iff: "hasSuffix s p \<longleftrightarrow> (\<exists>r. s = r @ p)"
proof
  assume "hasSuffix s p"
  then have "s = take (length s - length p) s @ p"
    unfolding hasSuffix_def by (metis append_take_drop_id)
  then show "\<exists>r. s = r @ p" ..
qed (auto simp: hasSuffix_def)

lemma hasSuffix_append [simp]: "hasSuffix (r @ p) p"
  by (auto simp: hasSuffix_iff)

lemma trimSuffix_append [simp]: "trimSuffix (r @ p) p = r"
  by (simp add: trimSuffix_def)

lemma containsAny_iff: "containsAny s cs \<longleftrightarrow> set s \<inter> set cs \<noteq> {}"
  by (auto simp: containsAny_def list_ex_iff)

lemma index_None_iff: "index s p = None \<longleftrightarrow> (\<forall>u v. s \<noteq> u @ p @ v)"
proof (induction s)
  case Nil
  then show ?case by auto
next
  case (Cons c s)
  show ?case
  proof (cases "hasPrefix (c # s) p")
    case True
    then obtain r where "c # s = p @ r"
      by (auto simp: hasPrefix_iff)
    then have "c # s = [] @ p @ r"
      by simp
    then show ?thesis
      using True by (metis index.simps(2) option.distinct(1))
  next
    case False
    have "(\<forall>u v. c # s \<noteq> u @ p @ v) \<longleftrightarrow> (\<forall>u v. s \<noteq> u @ p @ v)"
    proof (intro iffI allI)
      fix u v assume "\<forall>u v. s \<noteq> u @ p @ v"
      then show "c # s \<noteq> u @ p @ v"
        using False by (cases u) (auto simp: hasPrefix_iff)
    next
      fix u v assume "\<forall>u v. c # s \<noteq> u @ p @ v"
      then have "c # s \<noteq> (c # u) @ p @ v" by blast
      then show "s \<noteq> u @ p @ v" by simp
    qed
    then show ?thesis
      using False Cons.IH by simp
  qed
qed

lemma contains_iff: "contains s p \<longleftrightarrow> (\<exists>u v. s = u @ p @ v)"
  by (auto simp: contains_def index_None_iff)

lemma split_ne [simp]: "split c s \<noteq> []"
  by (cases s) (auto split: list.splits)

lemma split_no_sep: "w \<in> set (split c s) \<Longrightarrow> c \<notin> set w"
proof (induction s arbitrary: w)
  case (Cons x s)
  then show ?case
    by (cases "split c s") (fastforce split: if_splits)+
qed simp

lemma join_Cons: "ws \<noteq> [] \<Longrightarrow> join sep (w # ws) = w @ sep @ join sep ws"
  by (cases ws) auto

lemma join_split: "join [c] (split c s) = s"
proof (induction s)
  case (Cons x s)
  obtain w ws where "split c s = w # ws"
    by (cases "split c s") auto
  then show ?case
    using Cons by (cases ws) (auto simp: join_Cons)
qed simp

lemma split_word: "c \<notin> set w \<Longrightarrow> split c w = [w]"
  by (induction w) auto

lemma split_append_sep: "c \<notin> set w \<Longrightarrow> split c (w @ c # s) = w # split c s"
  by (induction w) auto

lemma split_join: "ws \<noteq> [] \<Longrightarrow> (\<And>w. w \<in> set ws \<Longrightarrow> c \<notin> set w) \<Longrightarrow> split c (join [c] ws) = ws"
proof (induction ws)
  case (Cons w ws)
  then show ?case
    by (cases ws) (auto simp: split_word split_append_sep)
qed simp

lemma hasPrefix_join: "hasPrefix (join sep (w # ws)) w"
  by (cases ws) (auto simp: hasPrefix_def)

lemma set_trimLeft: "set (trimLeft s) \<subseteq> set s"
  by (induction s rule: trimLeft.induct) (subst trimLeft.simps, auto dest: in_set_dropD)

lemma set_trimRight: "set (trimRight s) \<subseteq> set s"
  by (induction s rule: trimRight.induct) (subst trimRight.simps, auto dest: in_set_takeD)

lemma set_trimSpace: "set (trimSpace s) \<subseteq> set s"
  unfolding trimSpace_def using set_trimLeft set_trimRight by blast

lemma trimSpace_id: "spaceLen s = 0 \<Longrightarrow> spaceEnd s = 0 \<Longrightarrow> trimSpace s = s"
  by (simp add: trimSpace_def trimLeft.simps trimRight.simps)

lemma wideSpaces_ne: "u \<in> set wideSpaces \<Longrightarrow> u \<noteq> []"
  by (auto simp: wideSpaces_def)

lemma find_wide: "find P wideSpaces = Some u \<Longrightarrow> u \<noteq> [] \<and> u \<in> set wideSpaces \<and> P u"
  using wideSpaces_ne [of u] unfolding find_Some_iff by (metis nth_mem)

lemma spaceLen_0: "spaceLen s = 0 \<longleftrightarrow> s = [] \<or> \<not> isSpace (hd s) \<and> (\<forall>u \<in> set wideSpaces. \<not> hasPrefix s u)"
  by (cases s) (auto simp: spaceLen_def find_None_iff dest: find_wide split: option.split)

lemma spaceEnd_0: "spaceEnd s = 0 \<longleftrightarrow> s = [] \<or> \<not> isSpace (last s) \<and> (\<forall>u \<in> set wideSpaces. \<not> hasSuffix s u)"
  by (auto simp: spaceEnd_def find_None_iff dest: find_wide split: option.split)

text \<open>What does not start with white space does not do so when it is cut off at its end.\<close>

lemma spaceLen_prefix: "spaceLen (s @ t) = 0 \<Longrightarrow> spaceLen s = 0"
proof -
  assume "spaceLen (s @ t) = 0"
  moreover have "hasPrefix s u \<Longrightarrow> hasPrefix (s @ t) u" for u by (auto simp: hasPrefix_iff)
  ultimately show ?thesis by (cases s) (auto simp: spaceLen_0)
qed

lemma trimRight_start: "spaceLen s = 0 \<Longrightarrow> spaceLen (trimRight s) = 0"
proof (induction s rule: trimRight.induct)
  case (1 s)
  have "spaceLen (take n s) = 0" for n
    using "1.prems" by (metis append_take_drop_id spaceLen_prefix)
  with 1 show ?case by (subst trimRight.simps) simp
qed

lemma trimRight_end: "spaceEnd (trimRight s) = 0"
  by (induction s rule: trimRight.induct) (subst trimRight.simps, simp)

lemma trimLeft_start: "spaceLen (trimLeft s) = 0"
  by (induction s rule: trimLeft.induct) (subst trimLeft.simps, simp)

lemma trimSpace_idem [simp]: "trimSpace (trimSpace s) = trimSpace s"
  by (rule trimSpace_id) (simp_all add: trimSpace_def trimRight_start trimLeft_start trimRight_end)

text \<open>On ASCII text only the six characters count.\<close>

abbreviation ascii :: "string \<Rightarrow> bool" where
  "ascii s \<equiv> list_all (\<lambda>c. of_char c < (128 :: nat)) s"

lemma wideSpaces_head: "u \<in> set wideSpaces \<Longrightarrow> \<not> of_char (hd u) < (128 :: nat) \<and> \<not> of_char (last u) < (128 :: nat)"
  unfolding wideSpaces_def by (simp only: list.set insert_iff empty_iff) (elim disjE; simp)

lemma ascii_spaceLen: "of_char c < (128 :: nat) \<Longrightarrow> spaceLen (c # s) = (if isSpace c then 1 else 0)"
proof -
  assume c: "of_char c < (128 :: nat)"
  have "\<not> hasPrefix (c # s) u" if "u \<in> set wideSpaces" for u
    using wideSpaces_head [OF that] wideSpaces_ne [OF that] c by (cases u) auto
  then show ?thesis using spaceLen_0 [of "c # s"] by (auto simp: spaceLen_def)
qed

lemma ascii_spaceEnd: "of_char c < (128 :: nat) \<Longrightarrow> spaceEnd (s @ [c]) = (if isSpace c then 1 else 0)"
proof -
  assume c: "of_char c < (128 :: nat)"
  have "\<not> hasSuffix (s @ [c]) u" if "u \<in> set wideSpaces" for u
    using wideSpaces_head [OF that] wideSpaces_ne [OF that] c by (cases u rule: rev_cases) (auto simp: hasSuffix_iff)
  then show ?thesis using spaceEnd_0 [of "s @ [c]"] by (auto simp: spaceEnd_def)
qed

lemma trimLeft_ascii: "ascii s \<Longrightarrow> trimLeft s = dropWhile isSpace s"
  by (induction s) (simp add: trimLeft.simps spaceLen_def, subst trimLeft.simps, simp add: ascii_spaceLen)

lemma trimRight_ascii: "ascii s \<Longrightarrow> trimRight s = rev (dropWhile isSpace (rev s))"
  by (induction s rule: rev_induct) (simp add: trimRight.simps spaceEnd_def, subst trimRight.simps, simp add: ascii_spaceEnd)

lemma trimSpace_ascii: "ascii s \<Longrightarrow> trimSpace s = rev (dropWhile isSpace (rev (dropWhile isSpace s)))"
  by (simp add: trimSpace_def trimLeft_ascii trimRight_ascii list_all_iff set_dropWhileD)

lemma trimSpace_Nil [simp]: "trimSpace [] = []"
  by (simp add: trimSpace_ascii)

lemma coerceUTF8_ascii [simp]: "of_char c < (128 :: nat) \<Longrightarrow> coerceUTF8 (c # s) = c # coerceUTF8 s"
  by (simp add: runeLen_def)

declare coerceUTF8.simps(2) [simp del]

lemma ascii_valid: "ascii s \<Longrightarrow> validUTF8 s"
  by (induction s) simp_all

lemma foldl_clean_plain:
  assumes "\<And>w. w \<in> set ws \<Longrightarrow> w \<noteq> ''..''"
  shows "foldl (clean_push r) st ws = rev (filter (\<lambda>w. w \<noteq> [] \<and> w \<noteq> ''.'') ws) @ st"
  using assms by (induction ws arbitrary: st) auto

text \<open>Without \<open>..\<close> elements, cleaning only drops the empty and \<open>.\<close> ones.\<close>

lemma clean_segs_plain:
  "''..'' \<notin> set ws \<Longrightarrow> clean_segs r ws = filter (\<lambda>w. w \<noteq> [] \<and> w \<noteq> ''.'') ws"
  unfolding clean_segs_def by (subst foldl_clean_plain) auto

text \<open>The path of a directory entry ends in its name, so entries have distinct paths.\<close>

definition entry_name :: "string \<Rightarrow> bool" where
  "entry_name x \<longleftrightarrow> x \<noteq> [] \<and> x \<noteq> ''.'' \<and> x \<noteq> ''..'' \<and> CHR ''/'' \<notin> set x"

lemma split_append: "split c (a @ c # b) = split c a @ split c b"
proof (induction a)
  case (Cons x a)
  then show ?case
    by (cases "split c a") auto
qed simp

lemma clean_segs_snoc: "entry_name x \<Longrightarrow> clean_segs r (ws @ [x]) = clean_segs r ws @ [x]"
  by (simp add: clean_segs_def entry_name_def)

lemma join_snoc: "join sep (ws @ [x]) = (if ws = [] then x else join sep ws @ sep @ x)"
  by (induction sep ws rule: join.induct) auto

lemma clean_entry:
  assumes "entry_name x"
  shows "clean (d @ CHR ''/'' # x) =
    (let segs = clean_segs (isAbs (d @ ''/'')) (split (CHR ''/'') d) in
     (if isAbs (d @ ''/'') then ''/'' else []) @ (if segs = [] then x else join ''/'' segs @ CHR ''/'' # x))"
proof -
  have "split (CHR ''/'') (d @ CHR ''/'' # x) = split (CHR ''/'') d @ [x]"
    using assms by (simp add: split_append split_word entry_name_def)
  moreover have "isAbs (d @ CHR ''/'' # x) = isAbs (d @ ''/'')"
    by (cases d) (simp_all add: isAbs_def)
  ultimately show ?thesis
    using assms by (auto simp: clean_def Let_def clean_segs_snoc join_snoc entry_name_def)
qed

lemma joinPath_entry:
  assumes "entry_name x"
  obtains pre where "joinPath [d, x] = pre @ x" "pre = [] \<or> last pre = CHR ''/''"
proof (cases "d = []")
  case True
  have "clean_segs False [x] = [x]" "\<not> isAbs x"
    using assms clean_segs_snoc [OF assms, of False "[]"]
    by (auto simp: clean_segs_def isAbs_def entry_name_def hasPrefix_iff)
  then have "joinPath [d, x] = [] @ x"
    using assms True by (simp add: joinPath_def clean_def entry_name_def split_word Let_def)
  then show ?thesis by (rule that) simp
next
  case False
  then have "joinPath [d, x] = clean (d @ CHR ''/'' # x)"
    using assms by (simp add: joinPath_def entry_name_def)
  also have "\<dots> = ((if isAbs (d @ ''/'') then ''/'' else []) @
      (let segs = clean_segs (isAbs (d @ ''/'')) (split (CHR ''/'') d) in
       if segs = [] then [] else join ''/'' segs @ ''/'')) @ x"
    using clean_entry [OF assms] by (simp add: Let_def)
  finally show ?thesis by (rule that) (simp add: Let_def)
qed

lemma stripSlashes_entry: "entry_name x \<Longrightarrow> stripSlashes (pre @ x) = pre @ x"
  by (cases x rule: rev_cases) (auto simp: stripSlashes_def entry_name_def)

lemma base_entry:
  assumes "entry_name x" "pre = [] \<or> last pre = CHR ''/''"
  shows "base (pre @ x) = x"
proof -
  have "takeWhile (\<lambda>c. c \<noteq> CHR ''/'') (rev x @ rev pre) = rev x"
  proof (cases pre rule: rev_cases)
    case Nil
    then show ?thesis
      using assms(1) by (simp add: entry_name_def takeWhile_eq_all_conv) metis
  next
    case (snoc ys y)
    then show ?thesis
      using assms by (auto simp: entry_name_def takeWhile_append)
  qed
  then show ?thesis
    using assms(1) stripSlashes_entry [OF assms(1), of pre]
    by (auto simp: base_def Let_def entry_name_def)
qed

lemma base_joinPath: "entry_name x \<Longrightarrow> base (joinPath [d, x]) = x"
  by (metis base_entry joinPath_entry)

lemma joinPath_inj: "entry_name x \<Longrightarrow> entry_name y \<Longrightarrow> joinPath [d, x] = joinPath [d, y] \<Longrightarrow> x = y"
  by (metis base_joinPath)

end
