(* ===== verification/Json.thy ===== *)
theory Json
  imports Go_Lib
begin

text \<open>
  \<^verbatim>\<open>encoding/json\<close>, as far as the driver uses it: the grammar \<^verbatim>\<open>json.Unmarshal\<close> accepts, the
  text \<^verbatim>\<open>json.Marshal\<close> writes (object members in the order given; the driver's maps are
  sorted by the caller), and how a struct field is found in an object (the last member
  whose name matches without regard to ASCII case). A number keeps its text.
  Strings are byte sequences, as in Go; a byte that belongs to no UTF-8 rune is written and
  read as U+FFFD.
\<close>

datatype json = JNull | JBool bool | JNum string | JStr string | JArr "json list" | JObj "(string \<times> json) list"

section \<open>Reading\<close>

definition jws :: "char \<Rightarrow> bool" where
  "jws c \<longleftrightarrow> c \<in> {CHR 0x20, CHR 0x09, CHR 0x0A, CHR 0x0D}"

definition skipws :: "string \<Rightarrow> string" where
  "skipws s = dropWhile jws s"

definition hexdigit :: "char \<Rightarrow> nat option" where
  "hexdigit c = (let n = of_char c in
     if 48 \<le> n \<and> n < 58 then Some (n - 48)
     else if 97 \<le> n \<and> n < 103 then Some (n - 87)
     else if 65 \<le> n \<and> n < 71 then Some (n - 55) else None)"

definition hex4 :: "char \<Rightarrow> char \<Rightarrow> char \<Rightarrow> char \<Rightarrow> nat option" where
  "hex4 a b c d = (case (hexdigit a, hexdigit b, hexdigit c, hexdigit d) of
     (Some w, Some x, Some y, Some z) \<Rightarrow> Some (4096 * w + 256 * x + 16 * y + z) | _ \<Rightarrow> None)"

definition utf8 :: "nat \<Rightarrow> string" where
  "utf8 n =
     (if n < 128 then [char_of n]
      else if n < 2048 then [char_of (192 + n div 64), char_of (128 + n mod 64)]
      else if n < 65536 then
        [char_of (224 + n div 4096), char_of (128 + n div 64 mod 64), char_of (128 + n mod 64)]
      else [char_of (240 + n div 262144), char_of (128 + n div 4096 mod 64),
            char_of (128 + n div 64 mod 64), char_of (128 + n mod 64)])"

definition escape :: "char \<Rightarrow> char option" where
  "escape c =
     (if c \<in> {CHR 0x22, CHR 0x5C, CHR ''/''} then Some c
      else if c = CHR ''b'' then Some (CHR 0x08) else if c = CHR ''f'' then Some (CHR 0x0C)
      else if c = CHR ''n'' then Some (CHR 0x0A) else if c = CHR ''r'' then Some (CHR 0x0D)
      else if c = CHR ''t'' then Some (CHR 0x09) else None)"

definition surrogates :: "nat \<Rightarrow> nat \<Rightarrow> nat option" where
  "surrogates hi lo =
     (if 55296 \<le> hi \<and> hi < 56320 \<and> 56320 \<le> lo \<and> lo < 57344
      then Some (65536 + (hi - 55296) * 1024 + (lo - 56320)) else None)"

abbreviation prepend :: "string \<Rightarrow> (string \<times> string) option \<Rightarrow> (string \<times> string) option" where
  "prepend p r \<equiv> map_option (\<lambda>(t, rest). (p @ t, rest)) r"

text \<open>The rest of a string literal after its opening quote.\<close>

fun jstring :: "string \<Rightarrow> (string \<times> string) option" where
  "jstring [] = None"
| "jstring (c # s) =
     (if c = CHR 0x22 then Some ([], s)
      else if c = CHR 0x5C then
        (case s of [] \<Rightarrow> None
         | e # s1 \<Rightarrow>
           if e = CHR ''u'' then
             (case s1 of h1 # h2 # h3 # h4 # s2 \<Rightarrow>
                (case hex4 h1 h2 h3 h4 of None \<Rightarrow> None
                 | Some n \<Rightarrow>
                   if 55296 \<le> n \<and> n < 57344 then
                     (case s2 of b # u # g1 # g2 # g3 # g4 # s3 \<Rightarrow>
                        (case (if b = CHR 0x5C \<and> u = CHR ''u'' then Option.bind (hex4 g1 g2 g3 g4) (surrogates n) else None) of
                           Some m \<Rightarrow> prepend (utf8 m) (jstring s3)
                         | None \<Rightarrow> prepend (utf8 65533) (jstring s2))
                      | _ \<Rightarrow> prepend (utf8 65533) (jstring s2))
                   else prepend (utf8 n) (jstring s2))
              | _ \<Rightarrow> None)
           else (case escape e of None \<Rightarrow> None | Some ch \<Rightarrow> prepend [ch] (jstring s1)))
      else if of_char c < (32 :: nat) then None
      else (case runeLen (c # s) of
              0 \<Rightarrow> prepend runeError (jstring s)
            | Suc n \<Rightarrow> prepend (c # take n s) (jstring (drop n s))))"

definition isDigit :: "char \<Rightarrow> bool" where
  "isDigit c \<longleftrightarrow> digit c \<noteq> None"

definition spanDigits :: "string \<Rightarrow> string \<times> string" where
  "spanDigits s = (takeWhile isDigit s, dropWhile isDigit s)"

definition jfrac :: "string \<Rightarrow> (string \<times> string) option" where
  "jfrac s = (case s of c # t \<Rightarrow>
       if c = CHR ''.'' then (let (d, r) = spanDigits t in if d = [] then None else Some (c # d, r))
       else Some ([], s)
     | [] \<Rightarrow> Some ([], s))"

definition jexp :: "string \<Rightarrow> (string \<times> string) option" where
  "jexp s = (case s of c # t \<Rightarrow>
       if c \<in> {CHR ''e'', CHR ''E''} then
         (let (sg, u) = (case t of x # v \<Rightarrow> if x \<in> {CHR ''+'', CHR ''-''} then ([x], v) else ([], t) | [] \<Rightarrow> ([], t));
              (d, r) = spanDigits u
          in if d = [] then None else Some (c # sg @ d, r))
       else Some ([], s)
     | [] \<Rightarrow> Some ([], s))"

definition jnumber :: "string \<Rightarrow> (string \<times> string) option" where
  "jnumber s =
     (let (sg, t) = (case s of x # v \<Rightarrow> if x = CHR ''-'' then ([x], v) else ([], s) | [] \<Rightarrow> ([], s));
          (d, r) = (case t of x # v \<Rightarrow> if x = CHR ''0'' then ([x], v) else spanDigits t | [] \<Rightarrow> ([], t))
      in if d = [] then None
         else Option.bind (jfrac r) (\<lambda>(f, r'). Option.bind (jexp r') (\<lambda>(e, r''). Some (sg @ d @ f @ e, r''))))"

text \<open>
  Values, array elements and object members. The fuel bounds the number of nested and
  successive calls; every call but the first follows at least one consumed byte, so the
  length of the text is enough.
\<close>

fun jvalue :: "nat \<Rightarrow> string \<Rightarrow> (json \<times> string) option"
  and jelems :: "nat \<Rightarrow> string \<Rightarrow> (json list \<times> string) option"
  and jmembers :: "nat \<Rightarrow> string \<Rightarrow> ((string \<times> json) list \<times> string) option" where
  "jvalue 0 s = None"
| "jvalue (Suc f) s =
     (case skipws s of [] \<Rightarrow> None
      | c # t \<Rightarrow>
        if c = CHR 0x22 then map_option (\<lambda>(x, r). (JStr x, r)) (jstring t)
        else if c = CHR ''['' then
          (case skipws t of x # r \<Rightarrow> if x = CHR '']'' then Some (JArr [], r)
                              else map_option (\<lambda>(xs, q). (JArr xs, q)) (jelems f t)
           | [] \<Rightarrow> None)
        else if c = CHR ''{'' then
          (case skipws t of x # r \<Rightarrow> if x = CHR ''}'' then Some (JObj [], r)
                              else map_option (\<lambda>(ms, q). (JObj ms, q)) (jmembers f t)
           | [] \<Rightarrow> None)
        else if hasPrefix (c # t) ''null'' then Some (JNull, drop 4 (c # t))
        else if hasPrefix (c # t) ''true'' then Some (JBool True, drop 4 (c # t))
        else if hasPrefix (c # t) ''false'' then Some (JBool False, drop 5 (c # t))
        else map_option (\<lambda>(x, r). (JNum x, r)) (jnumber (c # t)))"
| "jelems 0 s = None"
| "jelems (Suc f) s =
     (case jvalue f s of None \<Rightarrow> None
      | Some (v, r) \<Rightarrow>
        (case skipws r of [] \<Rightarrow> None
         | c # t \<Rightarrow> if c = CHR '','' then map_option (\<lambda>(vs, q). (v # vs, q)) (jelems f t)
                  else if c = CHR '']'' then Some ([v], t) else None))"
| "jmembers 0 s = None"
| "jmembers (Suc f) s =
     (case skipws s of c # t \<Rightarrow>
        if c \<noteq> CHR 0x22 then None
        else (case jstring t of None \<Rightarrow> None
              | Some (k, r) \<Rightarrow>
                (case skipws r of c2 # t2 \<Rightarrow>
                   if c2 \<noteq> CHR '':'' then None
                   else (case jvalue f t2 of None \<Rightarrow> None
                         | Some (v, r2) \<Rightarrow>
                           (case skipws r2 of c3 # t3 \<Rightarrow>
                              if c3 = CHR '','' then map_option (\<lambda>(ms, q). ((k, v) # ms, q)) (jmembers f t3)
                              else if c3 = CHR ''}'' then Some ([(k, v)], t3) else None
                            | [] \<Rightarrow> None))
                 | [] \<Rightarrow> None))
      | [] \<Rightarrow> None)"

definition json_parse :: "string \<Rightarrow> json option" where
  "json_parse s = (case jvalue (2 * length s + 2) s of
     Some (v, r) \<Rightarrow> if skipws r = [] then Some v else None | None \<Rightarrow> None)"

section \<open>Decoding into structs\<close>

text \<open>The member a struct field named \<open>k\<close> is filled from: the last one of that name.\<close>

definition jfield :: "string \<Rightarrow> (string \<times> json) list \<Rightarrow> json option" where
  "jfield k ms = map_option snd (find (\<lambda>(n, _). toLower n = toLower k) (rev ms))"

text \<open>A string field: absent or null leaves it empty; another type is an error.\<close>

definition jstr_field :: "string \<Rightarrow> (string \<times> json) list \<Rightarrow> string option" where
  "jstr_field k ms = (case jfield k ms of None \<Rightarrow> Some [] | Some JNull \<Rightarrow> Some []
     | Some (JStr s) \<Rightarrow> Some s | Some _ \<Rightarrow> None)"

fun jall :: "('a \<Rightarrow> 'b option) \<Rightarrow> 'a list \<Rightarrow> 'b list option" where
  "jall f [] = Some []"
| "jall f (x # xs) = Option.bind (f x) (\<lambda>y. map_option (Cons y) (jall f xs))"

definition jlist_field :: "(json \<Rightarrow> 'b option) \<Rightarrow> string \<Rightarrow> (string \<times> json) list \<Rightarrow> 'b list option" where
  "jlist_field f k ms = (case jfield k ms of None \<Rightarrow> Some [] | Some JNull \<Rightarrow> Some []
     | Some (JArr xs) \<Rightarrow> jall f xs | Some _ \<Rightarrow> None)"

section \<open>Writing\<close>

definition hexchar :: "nat \<Rightarrow> char" where
  "hexchar n = (if n < 10 then char_of (48 + n) else char_of (87 + n))"

definition u00 :: "nat \<Rightarrow> string" where
  "u00 n = [CHR 0x5C, CHR ''u'', CHR ''0'', CHR ''0'', hexchar (n div 16), hexchar (n mod 16)]"

definition jescape :: "char \<Rightarrow> string" where
  "jescape c =
     (if c \<in> {CHR 0x22, CHR 0x5C} then [CHR 0x5C, c]
      else if c = CHR 0x08 then [CHR 0x5C, CHR ''b''] else if c = CHR 0x0C then [CHR 0x5C, CHR ''f'']
      else if c = CHR 0x0A then [CHR 0x5C, CHR ''n''] else if c = CHR 0x0D then [CHR 0x5C, CHR ''r'']
      else if c = CHR 0x09 then [CHR 0x5C, CHR ''t'']
      else if of_char c < (32 :: nat) \<or> c \<in> {CHR ''<'', CHR ''>'', CHR ''&''} then u00 (of_char c)
      else [c])"

text \<open>
  One rune as \<^verbatim>\<open>appendString\<close> writes it: U+2028 and U+2029 are escaped as well, the other runes
  above 127 are copied.
\<close>

definition lineSeps :: "(string \<times> string) list" where
  "lineSeps = [([CHR 0xE2, CHR 0x80, CHR 0xA8], CHR 0x5C # ''u2028''), ([CHR 0xE2, CHR 0x80, CHR 0xA9], CHR 0x5C # ''u2029'')]"

definition jrune :: "string \<Rightarrow> string" where
  "jrune w = (case w of [c] \<Rightarrow> jescape c | _ \<Rightarrow> (case map_of lineSeps w of Some e \<Rightarrow> e | None \<Rightarrow> w))"

fun jencode :: "string \<Rightarrow> string" where
  "jencode [] = []"
| "jencode (c # s) = (case runeLen (c # s) of
       0 \<Rightarrow> CHR 0x5C # ''ufffd'' @ jencode s
     | Suc n \<Rightarrow> jrune (c # take n s) @ jencode (drop n s))"

lemma jencode_ascii [simp]: "of_char c < (128 :: nat) \<Longrightarrow> jencode (c # s) = jescape c @ jencode s"
  by (simp add: runeLen_def jrune_def)

declare jencode.simps(2) [simp del]

definition jquote :: "string \<Rightarrow> string" where
  "jquote s = CHR 0x22 # jencode s @ [CHR 0x22]"

text \<open>
  The text of a value at nesting depth \<open>d\<close>: with \<open>pretty\<close> as \<^verbatim>\<open>json.MarshalIndent(v, "", "  ")\<close> writes
  it, without as \<^verbatim>\<open>json.Marshal\<close>.
\<close>

definition newline :: "bool \<Rightarrow> nat \<Rightarrow> string" where
  "newline pretty d = (if pretty then CHR 0x0A # replicate (2 * d) (CHR '' '') else [])"

definition colon :: "bool \<Rightarrow> string" where
  "colon pretty = (if pretty then '': '' else '':'')"

fun json_write :: "bool \<Rightarrow> nat \<Rightarrow> json \<Rightarrow> string" where
  "json_write p d JNull = ''null''"
| "json_write p d (JBool b) = (if b then ''true'' else ''false'')"
| "json_write p d (JNum s) = s"
| "json_write p d (JStr s) = jquote s"
| "json_write p d (JArr xs) = (if xs = [] then ''[]'' else
     CHR ''['' # newline p (Suc d) @ join (CHR '','' # newline p (Suc d)) (map (json_write p (Suc d)) xs) @ newline p d @ '']'')"
| "json_write p d (JObj ms) = (if ms = [] then ''{}'' else
     CHR ''{'' # newline p (Suc d) @ join (CHR '','' # newline p (Suc d))
       (map (\<lambda>(k, v). jquote k @ colon p @ json_write p (Suc d) v) ms) @ newline p d @ ''}'')"

definition json_print :: "json \<Rightarrow> string" where
  "json_print j = json_write False 0 j"

definition json_indent :: "json \<Rightarrow> string" where
  "json_indent j = json_write True 0 j"

text \<open>A string, with null read as the empty string, and a map of strings (\<open>None\<close> is nil).\<close>

definition jstr :: "json \<Rightarrow> string option" where
  "jstr j = (case j of JStr s \<Rightarrow> Some s | JNull \<Rightarrow> Some [] | _ \<Rightarrow> None)"

definition jsmap :: "(string \<times> json) list \<Rightarrow> smap option" where
  "jsmap ms = map_option (\<lambda>kvs. fold (\<lambda>(k, v). gm_put k v) kvs []) (jall (\<lambda>(k, v). map_option (Pair k) (jstr v)) ms)"

end
