(* ===== verification/Host.thy ===== *)
theory Host
  imports Json
begin

text \<open>
  What lies below the driver: Go error values, the operating system's calls, and the
  state every component works on. The kernel, the external programs (\<^verbatim>\<open>losetup\<close>,
  \<^verbatim>\<open>mount\<close>, \<^verbatim>\<open>cryptsetup\<close>, ...) and the Kubernetes API server are not part of the
  repository: they are the fields of a parameter \<open>'w host\<close>, functions on an abstract
  world \<open>'w\<close>. A theorem that needs a documented behaviour of them says so in a hypothesis.
\<close>

section \<open>Errors\<close>

datatype sentinel = ErrNotExist | ErrNotFound | EOF | ErrPoolExhausted | ErrWrongKey | ErrNotBlank

datatype code = OK | Unknown | InvalidArgument | NotFound | AlreadyExists | PermissionDenied
  | ResourceExhausted | FailedPrecondition | Aborted | OutOfRange | Internal | Unavailable

text \<open>
  \<open>Wrap l e\<close> is \<^verbatim>\<open>fmt.Errorf("l ...: %w", e)\<close>, \<open>ExecError\<close> is \<^verbatim>\<open>*fbexec.Error\<close> (command,
  arguments, exit code, output, cause), \<open>Status c l\<close> a gRPC status, \<open>Joined\<close> is
  \<^verbatim>\<open>errors.Join\<close>. Of a message only the leading text is kept.
\<close>

datatype goerr =
    Msg string
  | Wrap string goerr
  | ExecError string "string list" int string "goerr option"
  | Sentinel sentinel
  | CapacityMismatch int int
  | Status code string
  | ApiError int string
  | Joined goerr goerr

text \<open>\<^verbatim>\<open>errors.Is\<close>, \<^verbatim>\<open>errors.As\<close> for \<^verbatim>\<open>*fbexec.Error\<close>, and \<^verbatim>\<open>status.Code\<close>.\<close>

fun error_is :: "goerr \<Rightarrow> sentinel \<Rightarrow> bool" where
  "error_is (Sentinel s) t \<longleftrightarrow> s = t"
| "error_is (Wrap l e) t \<longleftrightarrow> error_is e t"
| "error_is (ExecError c as x out (Some e)) t \<longleftrightarrow> error_is e t"
| "error_is (Joined e e') t \<longleftrightarrow> error_is e t \<or> error_is e' t"
| "error_is _ t \<longleftrightarrow> False"

record exec_error =
  ee_code :: int
  ee_output :: string
  ee_err :: "goerr option"

fun as_exec :: "goerr \<Rightarrow> exec_error option" where
  "as_exec (ExecError c as x out e) = Some \<lparr>ee_code = x, ee_output = out, ee_err = e\<rparr>"
| "as_exec (Wrap l e) = as_exec e"
| "as_exec (Joined e e') = (case as_exec e of Some x \<Rightarrow> Some x | None \<Rightarrow> as_exec e')"
| "as_exec _ = None"

fun as_mismatch :: "goerr \<Rightarrow> bool" where
  "as_mismatch (CapacityMismatch r e) = True"
| "as_mismatch (Wrap l e) = as_mismatch e"
| "as_mismatch (ExecError c as x out (Some e)) = as_mismatch e"
| "as_mismatch (Joined e e') = (as_mismatch e \<or> as_mismatch e')"
| "as_mismatch _ = False"

fun status_code :: "goerr \<Rightarrow> code" where
  "status_code (Status c l) = c"
| "status_code (Wrap l e) = status_code e"
| "status_code (ExecError c as x out (Some e)) = status_code e"
| "status_code (Joined e e') = (if status_code e = Unknown then status_code e' else status_code e)"
| "status_code _ = Unknown"

fun status_msg :: "goerr \<Rightarrow> string" where
  "status_msg (Status c l) = l"
| "status_msg (Msg l) = l"
| "status_msg (Wrap l e) = l"
| "status_msg _ = []"

section \<open>The operating system\<close>

text \<open>A command for the runner; the fields of \<^verbatim>\<open>exec.Cmd\<close>.\<close>

record cmd =
  cName :: string
  cArgs :: "string list"
  cEnv :: "string list"
  cSecrets :: "string list"

record finfo =
  fi_size :: int
  fi_dir :: bool

record statfs =
  st_bsize :: int
  st_blocks :: int
  st_bavail :: int
  st_files :: int
  st_ffree :: int

record http_req =
  rq_method :: string
  rq_url :: string
  rq_headers :: "(string \<times> string) list"
  rq_body :: "string option"

text \<open>
  One field per call. \<open>h_start\<close> takes the read ends handed to the child, \<open>h_wait\<close> gives
  the combined output and, for a failure, exit code and cause. Of an open file the calls
  keep the path only. \<open>h_read\<close> and \<open>h_readAt\<close> take an offset and a length. \<open>h_answers\<close> tells
  whether a mount check answers before its timer, \<open>h_ready\<close> whether the result of an
  abandoned one is waiting.
\<close>

record 'w host =
  h_pipe :: "'w \<Rightarrow> (goerr + nat \<times> nat) \<times> 'w"
  h_closeFd :: "nat \<Rightarrow> 'w \<Rightarrow> unit \<times> 'w"
  h_writeFd :: "nat \<Rightarrow> string \<Rightarrow> 'w \<Rightarrow> unit \<times> 'w"
  h_start :: "cmd \<Rightarrow> nat list \<Rightarrow> 'w \<Rightarrow> (goerr + unit) \<times> 'w"
  h_wait :: "cmd \<Rightarrow> 'w \<Rightarrow> (string \<times> (int \<times> goerr) option) \<times> 'w"
  h_stat :: "string \<Rightarrow> 'w \<Rightarrow> (goerr + finfo) \<times> 'w"
  h_mkdirAll :: "string \<Rightarrow> 'w \<Rightarrow> (goerr + unit) \<times> 'w"
  h_remove :: "string \<Rightarrow> 'w \<Rightarrow> (goerr + unit) \<times> 'w"
  h_readDir :: "string \<Rightarrow> 'w \<Rightarrow> (goerr + (string \<times> bool) list) \<times> 'w"
  h_readFile :: "string \<Rightarrow> 'w \<Rightarrow> (goerr + string) \<times> 'w"
  h_open :: "string \<Rightarrow> 'w \<Rightarrow> (goerr + unit) \<times> 'w"
  h_openRW :: "string \<Rightarrow> 'w \<Rightarrow> (goerr + unit) \<times> 'w"
  h_openTrunc :: "string \<Rightarrow> 'w \<Rightarrow> (goerr + unit) \<times> 'w"
  h_ftruncate :: "string \<Rightarrow> int \<Rightarrow> 'w \<Rightarrow> (goerr + unit) \<times> 'w"
  h_read :: "string \<Rightarrow> nat \<Rightarrow> nat \<Rightarrow> 'w \<Rightarrow> (string \<times> goerr option) \<times> 'w"
  h_readAt :: "string \<Rightarrow> nat \<Rightarrow> nat \<Rightarrow> 'w \<Rightarrow> (string \<times> goerr option) \<times> 'w"
  h_flock :: "string \<Rightarrow> 'w \<Rightarrow> (goerr + unit) \<times> 'w"
  h_write :: "string \<Rightarrow> string \<Rightarrow> 'w \<Rightarrow> (goerr + unit) \<times> 'w"
  h_sync :: "string \<Rightarrow> 'w \<Rightarrow> (goerr + unit) \<times> 'w"
  h_close :: "string \<Rightarrow> 'w \<Rightarrow> (goerr + unit) \<times> 'w"
  h_rename :: "string \<Rightarrow> string \<Rightarrow> 'w \<Rightarrow> (goerr + unit) \<times> 'w"
  h_globDm :: "string \<Rightarrow> 'w \<Rightarrow> (goerr + string list) \<times> 'w"
  h_statfs :: "string \<Rightarrow> 'w \<Rightarrow> (goerr + statfs) \<times> 'w"
  h_pagesize :: nat
  h_now :: "'w \<Rightarrow> int \<times> 'w"
  h_answers :: "string \<Rightarrow> 'w \<Rightarrow> bool \<times> 'w"
  h_ready :: "string \<Rightarrow> 'w \<Rightarrow> bool \<times> 'w"
  h_http :: "http_req \<Rightarrow> 'w \<Rightarrow> (goerr + int \<times> string) \<times> 'w"

section \<open>The state of a process\<close>

text \<open>
  The world and the history of the commands the runner was asked to run. Components extend
  this record with their own fields.
\<close>

record 'w sys =
  world :: 'w
  calls :: "cmd list"

definition sysc :: "('w \<Rightarrow> 'a \<times> 'w) \<Rightarrow> (('w, 'm) sys_scheme, 'a) state" where
  "sysc f = State (\<lambda>s. case f (world s) of (r, w) \<Rightarrow> (r, s\<lparr>world := w\<rparr>))"

lemma run_sysc: "run_state (sysc f) s = (fst (f (world s)), s\<lparr>world := snd (f (world s))\<rparr>)"
  by (simp add: sysc_def split: prod.splits)

lemma wp_sysc [wps]: "wp (sysc f) Q s = (case f (world s) of (r, w) \<Rightarrow> Q r (s\<lparr>world := w\<rparr>))"
  by (simp add: wp_def run_sysc split: prod.splits)

lemma keeps_sysc: "(\<And>s w. I s \<Longrightarrow> I (s\<lparr>world := w\<rparr>)) \<Longrightarrow> keeps I (sysc f)"
  by (simp add: keeps_def run_sysc)

end
