(* ===== verification/Exec.thy ===== *)
theory Exec
  imports Host
begin

text \<open>
  \<^verbatim>\<open>pkg/exec\<close> and \<^verbatim>\<open>pkg/exec/exectest\<close>: the single funnel through which the driver runs
  external programs, and the fake that stands in for it. A run that fails keeps its
  output, so the result is a pair like Go's. Deadlines are part of how \<open>h_wait\<close> fails.
\<close>

type_synonym run_result = "string \<times> goerr option"

section \<open>The runner\<close>

definition SecretFD :: "nat \<Rightarrow> string" where
  "SecretFD i = ''/dev/fd/'' @ itoa (3 + i)"

definition closeAll :: "'w host \<Rightarrow> nat list \<Rightarrow> ('w, unit) state" where
  "closeAll E fds = forEach fds (\<lambda>fd. State (h_closeFd E fd))"

text \<open>One pipe per secret; a failure closes every end opened so far.\<close>

fun openPipes :: "'w host \<Rightarrow> string list \<Rightarrow> nat list \<Rightarrow> nat list
    \<Rightarrow> ('w, goerr + nat list \<times> nat list) state" where
  "openPipes E [] extra writers = ret (Inr (extra, writers))"
| "openPipes E (_ # ss) extra writers =
     onFail (State (h_pipe E))
       (do { closeAll E extra; closeAll E writers })
       (Wrap ''pipe for'')
       (\<lambda>(pr, pw). openPipes E ss (extra @ [pr]) (writers @ [pw]))"

definition feedSecrets :: "'w host \<Rightarrow> nat list \<Rightarrow> string list \<Rightarrow> ('w, unit) state" where
  "feedSecrets E writers secrets =
     forEach (zip writers secrets) (\<lambda>(w, s). do { State (h_writeFd E w s); State (h_closeFd E w) })"

definition osRunCmd :: "'w host \<Rightarrow> cmd \<Rightarrow> ('w, run_result) state" where
  "osRunCmd E c = do {
     p \<leftarrow> openPipes E (cSecrets c) [] [];
     case p of Inl e \<Rightarrow> ret ([], Some e)
     | Inr (extra, writers) \<Rightarrow> do {
         st \<leftarrow> State (h_start E c extra);
         closeAll E extra;
         case st of
           Inl e \<Rightarrow> do {
             closeAll E writers;
             ret ([], Some (ExecError (cName c) (cArgs c) (-1) [] (Some e)))
           }
         | Inr _ \<Rightarrow> do {
             feedSecrets E writers (cSecrets c);
             w \<leftarrow> State (h_wait E c);
             case w of (out, None) \<Rightarrow> ret (out, None)
             | (out, Some (x, e)) \<Rightarrow> ret (out, Some (ExecError (cName c) (cArgs c) x out (Some e)))
           }
       }
   }"

text \<open>The runner's two entry points; the command is noted in the history first.\<close>

definition RunCmd :: "'w host \<Rightarrow> cmd \<Rightarrow> (('w, 'm) sys_scheme, run_result) state" where
  "RunCmd E c = do { modify (\<lambda>s. s\<lparr>calls := calls s @ [c]\<rparr>); sysc (run_state (osRunCmd E c)) }"

definition Run :: "'w host \<Rightarrow> string \<Rightarrow> string list \<Rightarrow> (('w, 'm) sys_scheme, run_result) state" where
  "Run E name args = RunCmd E \<lparr>cName = name, cArgs = args, cEnv = [], cSecrets = []\<rparr>"

text \<open>\<^verbatim>\<open>out, err := r.Run(...)\<close> for a caller that drops the output of a failed run.\<close>

definition asErr :: "run_result \<Rightarrow> goerr + string" where
  "asErr r = (case snd r of None \<Rightarrow> Inr (fst r) | Some e \<Rightarrow> Inl e)"

definition RunE :: "'w host \<Rightarrow> string \<Rightarrow> string list \<Rightarrow> (('w, 'm) sys_scheme, goerr + string) state" where
  "RunE E name args = do { r \<leftarrow> Run E name args; ret (asErr r) }"

text \<open>
  A command without environment or secrets, its outcome in a world, and the commands run
  between two states.
\<close>

abbreviation plain :: "string \<Rightarrow> string list \<Rightarrow> cmd" where
  "plain n as \<equiv> \<lparr>cName = n, cArgs = as, cEnv = [], cSecrets = []\<rparr>"

abbreviation exec :: "'w host \<Rightarrow> string \<Rightarrow> string list \<Rightarrow> 'w \<Rightarrow> run_result \<times> 'w" where
  "exec E n as w \<equiv> run_state (osRunCmd E (plain n as)) w"

definition newcalls :: "('w, 'm) sys_scheme \<Rightarrow> ('w, 'm) sys_scheme \<Rightarrow> cmd list" where
  "newcalls s s' = drop (length (calls s)) (calls s')"

section \<open>The fake runner\<close>

text \<open>
  \<^verbatim>\<open>FakeRunner\<close>: canned responses by command name, two optional handlers and a default.
  \<open>None\<close> is a nil function.
\<close>

record fake =
  fk_rules :: "(string, string \<times> goerr option) gomap"
  fk_func :: "(string \<Rightarrow> string list \<Rightarrow> run_result) option"
  fk_cmdFunc :: "(cmd \<Rightarrow> run_result) option"
  fk_calls :: "cmd list"
  fk_default :: run_result
  fk_hasDef :: bool

definition fakeNew :: fake where
  "fakeNew = \<lparr>fk_rules = [], fk_func = None, fk_cmdFunc = None, fk_calls = [], fk_default = ([], None), fk_hasDef = False\<rparr>"

definition fakeSet :: "string \<Rightarrow> string \<Rightarrow> goerr option \<Rightarrow> fake \<Rightarrow> fake" where
  "fakeSet name out err f = f\<lparr>fk_rules := gm_put name (out, err) (fk_rules f)\<rparr>"

definition fakeSetDefault :: "string \<Rightarrow> goerr option \<Rightarrow> fake \<Rightarrow> fake" where
  "fakeSetDefault out err f = f\<lparr>fk_default := (out, err), fk_hasDef := True\<rparr>"

definition fakeReset :: "fake \<Rightarrow> fake" where
  "fakeReset f = f\<lparr>fk_calls := []\<rparr>"

definition dispatch :: "cmd \<Rightarrow> bool \<Rightarrow> (fake, run_result) state" where
  "dispatch c viaCmd = do {
     modify (\<lambda>f. f\<lparr>fk_calls := fk_calls f @ [c]\<rparr>);
     f \<leftarrow> State_Monad.get;
     ret (case (if viaCmd then fk_cmdFunc f else None) of
            Some g \<Rightarrow> g c
          | None \<Rightarrow>
            (case fk_func f of
               Some g \<Rightarrow> g (cName c) (cArgs c)
             | None \<Rightarrow>
               (case gm_get (fk_rules f) (cName c) of
                  Some r \<Rightarrow> r
                | None \<Rightarrow> if fk_hasDef f then fk_default f
                          else ([], Some (Msg ''FakeRunner: unexpected call''))))) }"

definition fakeRun :: "string \<Rightarrow> string list \<Rightarrow> (fake, run_result) state" where
  "fakeRun name args = dispatch \<lparr>cName = name, cArgs = args, cEnv = [], cSecrets = []\<rparr> False"

definition fakeRunCmd :: "cmd \<Rightarrow> (fake, run_result) state" where
  "fakeRunCmd c = dispatch c True"

section \<open>What every runner promises\<close>

text \<open>
  The interface \<^verbatim>\<open>exec.Runner\<close>: a call is noted exactly once, before its outcome, whatever
  the outcome is.
\<close>

locale runner =
  fixes run :: "string \<Rightarrow> string list \<Rightarrow> ('s, run_result) state"
    and runCmd :: "cmd \<Rightarrow> ('s, run_result) state"
    and log :: "'s \<Rightarrow> cmd list"
  assumes log_run: "log (snd (run_state (run n as) s)) =
      log s @ [\<lparr>cName = n, cArgs = as, cEnv = [], cSecrets = []\<rparr>]"
    and log_runCmd: "log (snd (run_state (runCmd c) s)) = log s @ [c]"
begin

lemma log_seq: "log (snd (run_state (forEach cs (\<lambda>c. ignore (runCmd c))) s)) = log s @ cs"
proof (induction cs arbitrary: s)
  case (Cons c cs)
  then show ?case
    by (simp add: run_ignore log_runCmd)
qed simp

end

interpretation fk: runner fakeRun fakeRunCmd fk_calls
  by unfold_locales (simp_all add: fakeRun_def fakeRunCmd_def dispatch_def)

section \<open>Lemmas\<close>

text \<open>A command changes nothing but the world and the history.\<close>

lemma wp_RunCmd [wps]:
  "wp (RunCmd E c) Q s = (case run_state (osRunCmd E c) (world s) of
     (r, w) \<Rightarrow> Q r (s\<lparr>calls := calls s @ [c], world := w\<rparr>))"
  by (simp add: RunCmd_def wps split: prod.splits)

lemma run_RunCmd:
  "run_state (RunCmd E c) s = (fst (run_state (osRunCmd E c) (world s)),
     s\<lparr>calls := calls s @ [c], world := snd (run_state (osRunCmd E c) (world s))\<rparr>)"
  by (simp add: RunCmd_def run_sysc)

text \<open>Without secrets a run is a start and a wait.\<close>

lemma run_plain:
  "run_state (osRunCmd E (plain n as)) w =
     (case h_start E (plain n as) [] w of
        (Inl e, w1) \<Rightarrow> (([], Some (ExecError n as (-1) [] (Some e))), w1)
      | (Inr _, w1) \<Rightarrow> (case h_wait E (plain n as) w1 of
          ((out, None), w2) \<Rightarrow> ((out, None), w2)
        | ((out, Some (x, e)), w2) \<Rightarrow> ((out, Some (ExecError n as x out (Some e))), w2)))"
  by (simp add: osRunCmd_def closeAll_def feedSecrets_def split: prod.splits sum.splits option.splits)

lemma keeps_RunCmd [kept]:
  assumes "\<And>s w. I s \<Longrightarrow> I (s\<lparr>calls := calls s @ [c], world := w\<rparr>)"
  shows "keeps I (RunCmd E c)"
  by (simp add: keeps_def run_RunCmd assms)

lemma keeps_Run [kept]:
  assumes "\<And>s w c. I s \<Longrightarrow> I (s\<lparr>calls := calls s @ [c], world := w\<rparr>)"
  shows "keeps I (Run E n as)"
  unfolding Run_def by (rule keeps_RunCmd) (rule assms)

lemma keeps_RunE [kept]:
  assumes "\<And>s w c. I s \<Longrightarrow> I (s\<lparr>calls := calls s @ [c], world := w\<rparr>)"
  shows "keeps I (RunE E n as)"
  unfolding RunE_def by (intro kept assms)

section \<open>What an operation leaves alone\<close>

text \<open>
  A component invariant that does not look at the world or at the history survives every
  command and every system call.
\<close>

definition stable :: "(('w, 'm) sys_scheme \<Rightarrow> bool) \<Rightarrow> bool" where
  "stable I \<longleftrightarrow> (\<forall>s w. I s \<longrightarrow> I (s\<lparr>world := w\<rparr>)) \<and> (\<forall>s cs. I s \<longrightarrow> I (s\<lparr>calls := cs\<rparr>))"

lemma stableD:
  assumes "stable I"
  shows "I s \<Longrightarrow> I (s\<lparr>world := w\<rparr>)" "I s \<Longrightarrow> I (s\<lparr>calls := cs\<rparr>)"
    "I s \<Longrightarrow> I (s\<lparr>calls := cs, world := w\<rparr>)"
  using assms by (simp_all add: stable_def)

lemma stable_sysc [kept]: "stable I \<Longrightarrow> keeps I (sysc f)"
  by (rule keeps_sysc) (rule stableD)

lemma stable_Run: "stable I \<Longrightarrow> keeps I (Run E n as)" "stable I \<Longrightarrow> keeps I (RunE E n as)"
    "stable I \<Longrightarrow> keeps I (RunCmd E c)"
  by (rule keeps_Run keeps_RunE keeps_RunCmd; rule stableD; assumption)+

lemmas stable_ops [kept] = stable_Run

interpretation os: runner "Run E" "RunCmd E" calls for E :: "'w host"
  by unfold_locales (simp_all add: Run_def run_RunCmd)

subsection \<open>Which commands an operation runs\<close>

text \<open>
  \<open>logs P m\<close>: whatever its outcome, \<open>m\<close> runs only commands that satisfy \<open>P\<close>.
\<close>

definition logs :: "(cmd \<Rightarrow> bool) \<Rightarrow> (('w, 'm) sys_scheme, 'a) state \<Rightarrow> bool" where
  "logs P m \<longleftrightarrow> (\<forall>s. \<exists>cs. calls (snd (run_state m s)) = calls s @ cs \<and> list_all P cs)"

lemma logsD: "logs P m \<Longrightarrow> run_state m s = (r, s') \<Longrightarrow> \<exists>cs. calls s' = calls s @ cs \<and> list_all P cs"
  by (auto simp: logs_def dest!: spec [of _ s])

lemma logs_new: "logs P m \<Longrightarrow> run_state m s = (r, s') \<Longrightarrow> list_all P (newcalls s s')"
  by (auto simp: newcalls_def dest!: logsD)

lemma logs_mono: "logs P m \<Longrightarrow> (\<And>c. P c \<Longrightarrow> Q c) \<Longrightarrow> logs Q m"
  unfolding logs_def by (meson list.pred_mono_strong)

lemma logs_pure [logged]: "logs P (ret x)" "logs P (gets f)" "logs P (sysc g)"
  by (simp_all add: logs_def run_sysc)

lemma logs_modify [logged]: "(\<And>s. calls (f s) = calls s) \<Longrightarrow> logs P (modify f)"
  by (simp add: logs_def)

lemma logs_bind [logged]:
  assumes "logs P m" "\<And>x. logs P (f x)"
  shows "logs P (State_Monad.bind m f)"
  unfolding logs_def
proof
  fix s
  obtain x s1 where m: "run_state m s = (x, s1)" by fastforce
  obtain y s2 where f: "run_state (f x) s1 = (y, s2)" by fastforce
  show "\<exists>cs. calls (snd (run_state (State_Monad.bind m f) s)) = calls s @ cs \<and> list_all P cs"
    using logsD [OF assms(1) m] logsD [OF assms(2) f] m f by auto
qed

lemma logs_if [logged]: "logs P m \<Longrightarrow> logs P m' \<Longrightarrow> logs P (if b then m else m')"
  by simp

lemma logs_cases [logged]:
  "(\<And>e. logs P (f e)) \<Longrightarrow> (\<And>x. logs P (g x)) \<Longrightarrow> logs P (case r of Inl e \<Rightarrow> f e | Inr x \<Rightarrow> g x)"
  "logs P m \<Longrightarrow> (\<And>y. logs P (h y)) \<Longrightarrow> logs P (case ro of None \<Rightarrow> m | Some y \<Rightarrow> h y)"
  "(\<And>u v. logs P (k u v)) \<Longrightarrow> logs P (case rp of (u, v) \<Rightarrow> k u v)"
  "logs P m \<Longrightarrow> (\<And>z zs. logs P (l z zs)) \<Longrightarrow> logs P (case rl of [] \<Rightarrow> m | z # zs \<Rightarrow> l z zs)"
  "(\<And>t. logs P (j t)) \<Longrightarrow> logs P (let t = e0 in j t)"
  by (simp_all split: sum.split option.split prod.split list.split)

lemma logs_onErr [logged]: "logs P m \<Longrightarrow> (\<And>x. logs P (k x)) \<Longrightarrow> logs P (onErr m h k)"
  unfolding onErr_def by (intro logged)

lemma logs_onFail [logged]: "logs P m \<Longrightarrow> logs P c \<Longrightarrow> (\<And>x. logs P (k x)) \<Longrightarrow> logs P (onFail m c h k)"
  unfolding onFail_def by (intro logged)

lemma logs_ignore [logged]: "logs P m \<Longrightarrow> logs P (ignore m)"
  unfolding ignore_def by (intro logged)

lemma logs_forEach [logged]: "(\<And>x. logs P (f x)) \<Longrightarrow> logs P (forEach xs f)"
  by (induction xs) (simp_all add: logged)

lemma logs_forEachE [logged]: "(\<And>x. logs P (f x)) \<Longrightarrow> logs P (forEachE xs f)"
  by (induction xs) (simp_all add: logged)

lemma logs_Run [logged]: "P c \<Longrightarrow> logs P (RunCmd E c)" "P (plain n as) \<Longrightarrow> logs P (Run E n as)"
    "P (plain n as) \<Longrightarrow> logs P (RunE E n as)"
proof -
  show r: "P c \<Longrightarrow> logs P (RunCmd E c)" "P (plain n as) \<Longrightarrow> logs P (Run E n as)"
    by (simp_all add: logs_def os.log_run os.log_runCmd)
  show "P (plain n as) \<Longrightarrow> logs P (RunE E n as)" unfolding RunE_def by (intro logged r)
qed

subsection \<open>Descriptors\<close>

text \<open>
  What a pipe and a close do to the open descriptors of the process. \<open>fds\<close> reads them off
  the world: a pipe opens two new ones, a close gives one back, and starting, feeding and
  waiting for the child leave them as they are.
\<close>

definition pipe_law :: "'w host \<Rightarrow> ('w \<Rightarrow> nat set) \<Rightarrow> bool" where
  "pipe_law E fds \<longleftrightarrow>
     (\<forall>w. case h_pipe E w of
        (Inl _, w') \<Rightarrow> fds w' = fds w
      | (Inr (r, x), w') \<Rightarrow> r \<notin> fds w \<and> x \<notin> fds w \<and> r \<noteq> x \<and> fds w' = insert r (insert x (fds w)))
   \<and> (\<forall>fd w. fds (snd (h_closeFd E fd w)) = fds w - {fd})
   \<and> (\<forall>fd b w. fds (snd (h_writeFd E fd b w)) = fds w)
   \<and> (\<forall>c ex w. fds (snd (h_start E c ex w)) = fds w)
   \<and> (\<forall>c w. fds (snd (h_wait E c w)) = fds w)"

lemma pipe_law_pipe:
  assumes "pipe_law E fds"
  shows "case h_pipe E w of
      (Inl _, w') \<Rightarrow> fds w' = fds w
    | (Inr (r, x), w') \<Rightarrow> r \<notin> fds w \<and> x \<notin> fds w \<and> r \<noteq> x \<and> fds w' = insert r (insert x (fds w))"
  using assms unfolding pipe_law_def by (elim conjE) (erule spec)

lemma pipe_law_simps:
  assumes "pipe_law E fds"
  shows "fds (snd (h_closeFd E fd w)) = fds w - {fd}" "fds (snd (h_writeFd E fd b w)) = fds w"
    "fds (snd (h_start E c ex w)) = fds w" "fds (snd (h_wait E c w)) = fds w"
  using assms unfolding pipe_law_def by (elim conjE, simp)+

lemma fds_closeAll:
  assumes "pipe_law E fds"
  shows "fds (snd (run_state (closeAll E xs) w)) = fds w - set xs"
proof (induction xs arbitrary: w)
  case (Cons x xs)
  then show ?case
    by (auto simp: closeAll_def case_prod_beta pipe_law_simps [OF assms])
qed (simp add: closeAll_def)

lemma fds_feedSecrets:
  assumes "pipe_law E fds" "length ws = length ss"
  shows "fds (snd (run_state (feedSecrets E ws ss) w)) = fds w - set ws"
  using assms(2)
proof (induction ws ss arbitrary: w rule: list_induct2)
  case (Cons x xs y ys)
  then show ?case
    by (auto simp: feedSecrets_def case_prod_beta pipe_law_simps [OF assms(1)])
qed (simp add: feedSecrets_def)

lemma fds_openPipes:
  assumes "pipe_law E fds" "set ex \<union> set ws \<subseteq> fds w" "F = fds w - (set ex \<union> set ws)"
  shows "case run_state (openPipes E ss ex ws) w of
      (Inl _, w') \<Rightarrow> fds w' = F
    | (Inr (ex', ws'), w') \<Rightarrow> F = fds w' - (set ex' \<union> set ws') \<and> length ws' = length ws + length ss"
  using assms(2-)
proof (induction ss arbitrary: ex ws w)
  case Nil
  then show ?case by simp
next
  case (Cons x ss)
  obtain r w1 where p: "h_pipe E w = (r, w1)" by (cases "h_pipe E w")
  note law = pipe_law_pipe [OF assms(1), of w, unfolded p prod.case]
  show ?case
  proof (cases r)
    case (Inl e)
    with law Cons.prems show ?thesis
      by (auto simp: run_onFail p case_prod_beta fds_closeAll [OF assms(1)])
  next
    case (Inr rx)
    obtain a b where rx: "rx = (a, b)" by (cases rx)
    with law Inr have "set (ex @ [a]) \<union> set (ws @ [b]) \<subseteq> fds w1"
      "F = fds w1 - (set (ex @ [a]) \<union> set (ws @ [b]))"
      using Cons.prems by auto
    note IH = Cons.IH [OF this]
    have l: "length (ws @ [b]) + length ss = length ws + length (x # ss)"
      by simp
    from IH show ?thesis
      unfolding l by (simp add: run_onFail p Inr rx)
  qed
qed

text \<open>
  C24: Running a command leaks no descriptor. Whatever fails (a pipe, the start, the child
  itself), every pipe end opened for the command's secrets is closed again: the open
  descriptors are those from before the call.
\<close>

theorem osRunCmd_closes_descriptors:
  assumes "pipe_law E fds"
  shows "fds (snd (run_state (osRunCmd E c) w)) = fds w"
proof -
  obtain p w1 where p: "run_state (openPipes E (cSecrets c) [] []) w = (p, w1)"
    by (cases "run_state (openPipes E (cSecrets c) [] []) w")
  note op = fds_openPipes [OF assms, of "[]" "[]" w "fds w" "cSecrets c", simplified, unfolded p prod.case]
  show ?thesis
  proof (cases p)
    case (Inl e)
    with op p show ?thesis by (simp add: osRunCmd_def)
  next
    case (Inr q)
    obtain ex ws where q: "q = (ex, ws)" by (cases q)
    with op Inr have f: "fds w = fds w1 - (set ex \<union> set ws)" "length ws = length (cSecrets c)"
      by simp_all
    obtain st w2 where st: "h_start E c ex w1 = (st, w2)" by (cases "h_start E c ex w1")
    then have w2: "fds w2 - set ex - set ws = fds w"
      using pipe_law_simps(3) [OF assms, of c ex w1] f(1) by auto
    show ?thesis
    proof (cases st)
      case Inl
      then show ?thesis
        by (simp add: osRunCmd_def p Inr q st case_prod_beta fds_closeAll [OF assms] w2)
    next
      case (Inr u)
      define w3 where "w3 = snd (run_state (feedSecrets E ws (cSecrets c)) (snd (run_state (closeAll E ex) w2)))"
      have w3: "fds w3 = fds w"
        by (simp add: w3_def fds_closeAll [OF assms] fds_feedSecrets [OF assms f(2)] w2)
      obtain out x w4 where w4: "h_wait E c w3 = ((out, x), w4)"
        by (metis prod.exhaust)
      have "snd (run_state (osRunCmd E c) w) = w4"
        using w4 unfolding w3_def
        by (cases x) (auto simp: osRunCmd_def p \<open>p = Inr q\<close> q st Inr case_prod_beta)
      then show ?thesis
        using pipe_law_simps(4) [OF assms, of c w3] w3 w4 by simp
    qed
  qed
qed

end
