(* ===== verification/Mount.thy ===== *)
theory Mount
  imports Exec
begin

text \<open>
  \<^verbatim>\<open>pkg/mount/mount.go\<close>: mount points as \<^verbatim>\<open>findmnt(8)\<close> reports them, and the idempotent
  mount, bind mount and unmount operations over \<^verbatim>\<open>mount(8)\<close> and \<^verbatim>\<open>umount(8)\<close>.
\<close>

section \<open>Operations\<close>

abbreviation exit_is :: "goerr \<Rightarrow> int \<Rightarrow> bool" where
  "exit_is e x \<equiv> (case as_exec e of Some ee \<Rightarrow> ee_code ee = x | None \<Rightarrow> False)"

definition row_is :: "string \<Rightarrow> string \<Rightarrow> bool" where
  "row_is target out \<longleftrightarrow> list_ex (\<lambda>line. trimSpace line = target) (split (CHR 0x0A) out)"

definition IsMountPoint :: "'w host \<Rightarrow> string \<Rightarrow> (('w, 'm) sys_scheme, goerr + bool) state" where
  "IsMountPoint E target = do {
     st \<leftarrow> sysc (h_stat E target);
     case st of
       Inl e \<Rightarrow> ret (if error_is e ErrNotExist then Inr False else Inl e)
     | Inr _ \<Rightarrow> do {
         r \<leftarrow> Run E ''findmnt'' [''-n'', ''-o'', ''TARGET'', ''--target'', target];
         case snd r of
           None \<Rightarrow> do {
             out \<leftarrow> Run E ''findmnt'' [''-n'', ''-o'', ''TARGET'', target];
             ret (Inr (row_is target (fst out)))
           }
         | Some e \<Rightarrow> ret (if exit_is e 1 then Inr False else Inl e)
       }
   }"

definition Source :: "'w host \<Rightarrow> string \<Rightarrow> (('w, 'm) sys_scheme, goerr + string) state" where
  "Source E target =
     onErr (RunE E ''findmnt'' [''-n'', ''-o'', ''SOURCE'', target]) (Wrap ''findmnt'') (\<lambda>out.
       let rows = strFields out in
       ret (if rows = [] then Inl (Msg ''findmnt: no source'') else Inr (last rows)))"

definition sourceMounted :: "'w host \<Rightarrow> string \<Rightarrow> string list \<Rightarrow> (('w, 'm) sys_scheme, goerr + bool) state" where
  "sourceMounted E source pre = do {
     r \<leftarrow> RunE E ''findmnt'' (pre @ [''-n'', ''-o'', ''TARGET'', ''-S'', source]);
     ret (case r of
            Inl e \<Rightarrow> if exit_is e 1 then Inr False else Inl (Wrap ''findmnt -S'' e)
          | Inr out \<Rightarrow> Inr (trimSpace out \<noteq> []))
   }"

definition IsSourceMounted :: "'w host \<Rightarrow> string \<Rightarrow> (('w, 'm) sys_scheme, goerr + bool) state" where
  "IsSourceMounted E source = sourceMounted E source []"

definition IsSourceMountedInHost :: "'w host \<Rightarrow> string \<Rightarrow> (('w, 'm) sys_scheme, goerr + bool) state" where
  "IsSourceMountedInHost E source = sourceMounted E source [''--task'', ''1'']"

definition doMount :: "'w host \<Rightarrow> string \<Rightarrow> string \<Rightarrow> string \<Rightarrow> string list \<Rightarrow> (('w, 'm) sys_scheme, goerr + unit) state" where
  "doMount E source target fstype opts =
     onErr (RunE E ''mount'' ([''-t'', fstype] @ (if opts \<noteq> [] then [''-o'', join '','' opts] else []) @ [source, target]))
       (Wrap ''mount'') (\<lambda>_. ret (Inr ()))"

definition BindMount :: "'w host \<Rightarrow> string \<Rightarrow> string \<Rightarrow> bool \<Rightarrow> (('w, 'm) sys_scheme, goerr + unit) state" where
  "BindMount E source target readOnly =
     onErr (RunE E ''mount'' [''--bind'', source, target]) (Wrap ''bind mount'') (\<lambda>_.
       if readOnly
       then onErr (RunE E ''mount'' [''-o'', ''remount,ro,bind'', target]) (Wrap ''remount ro'') (\<lambda>_. ret (Inr ()))
       else ret (Inr ()))"

definition Unmount :: "'w host \<Rightarrow> string \<Rightarrow> (('w, 'm) sys_scheme, goerr + unit) state" where
  "Unmount E target =
     onErr (IsMountPoint E target) id (\<lambda>mounted.
       if \<not> mounted then ret (Inr ())
       else onErr (RunE E ''umount'' [target]) (Wrap ''umount'') (\<lambda>_. ret (Inr ())))"

section \<open>What an operation leaves alone\<close>

lemma stable_mount [kept]:
  assumes "stable I"
  shows "keeps I (IsMountPoint E t)" "keeps I (Source E t)" "keeps I (sourceMounted E t pre)"
    "keeps I (IsSourceMounted E t)" "keeps I (IsSourceMountedInHost E t)"
    "keeps I (doMount E a t fs opts)" "keeps I (BindMount E a t ro)"
  unfolding IsMountPoint_def Source_def sourceMounted_def IsSourceMounted_def
    IsSourceMountedInHost_def doMount_def BindMount_def
  by (intro kept stable_sysc stable_Run assms; simp)+

lemma stable_Unmount [kept]: "stable I \<Longrightarrow> keeps I (Unmount E t)"
  unfolding Unmount_def by (intro kept stable_mount stable_Run)

section \<open>Mount points\<close>

text \<open>
  What \<^verbatim>\<open>findmnt\<close> and the kernel promise about a mount table \<open>mounts\<close> (the target of every
  mount): a mounted path can be queried, a path that can be queried answers with a row for
  itself exactly when it is mounted, and queries change nothing.
\<close>

definition findmnt_law :: "'w host \<Rightarrow> ('w \<Rightarrow> string list) \<Rightarrow> bool" where
  "findmnt_law E mounts \<longleftrightarrow>
     (\<forall>t w. snd (h_stat E t w) = w)
   \<and> (\<forall>t w. t \<in> set (mounts w) \<longrightarrow> \<not> isl (fst (h_stat E t w)))
   \<and> (\<forall>as w. snd (exec E ''findmnt'' as w) = w)
   \<and> (\<forall>t w. \<not> isl (fst (h_stat E t w)) \<longrightarrow>
        snd (fst (exec E ''findmnt'' [''-n'', ''-o'', ''TARGET'', ''--target'', t] w)) = None
      \<and> row_is t (fst (fst (exec E ''findmnt'' [''-n'', ''-o'', ''TARGET'', t] w))) = (t \<in> set (mounts w)))"

lemma findmnt_lawD:
  assumes "findmnt_law E mounts"
  shows "snd (h_stat E t w) = w" "t \<in> set (mounts w) \<Longrightarrow> \<not> isl (fst (h_stat E t w))"
    "snd (exec E ''findmnt'' as w) = w"
    "\<not> isl (fst (h_stat E t w)) \<Longrightarrow> snd (fst (exec E ''findmnt'' [''-n'', ''-o'', ''TARGET'', ''--target'', t] w)) = None"
    "\<not> isl (fst (h_stat E t w)) \<Longrightarrow>
       row_is t (fst (fst (exec E ''findmnt'' [''-n'', ''-o'', ''TARGET'', t] w))) = (t \<in> set (mounts w))"
  using assms unfolding findmnt_law_def by (elim conjE, simp)+

text \<open>
  Under these laws \<^verbatim>\<open>IsMountPoint\<close> tells the truth, changes nothing, runs \<^verbatim>\<open>findmnt\<close> only, and
  fails only when the path cannot be queried.
\<close>

lemma IsMountPoint_correct:
  assumes law: "findmnt_law E mounts"
  shows "\<exists>cs. run_state (IsMountPoint E t) s =
           ((case fst (h_stat E t (world s)) of
               Inl e \<Rightarrow> if error_is e ErrNotExist then Inr False else Inl e
             | Inr _ \<Rightarrow> Inr (t \<in> set (mounts (world s)))), s\<lparr>calls := calls s @ cs\<rparr>)
         \<and> (\<forall>c \<in> set cs. cName c = ''findmnt'')"
proof -
  obtain st where st: "h_stat E t (world s) = (st, world s)"
    using findmnt_lawD(1) [OF law, of t "world s"] by (cases "h_stat E t (world s)") simp
  show ?thesis
  proof (cases st)
    case (Inl e)
    with st show ?thesis
      by (intro exI [of _ "[]"]) (simp add: IsMountPoint_def run_sysc)
  next
    case (Inr fi)
    with st have q: "\<not> isl (fst (h_stat E t (world s)))" by simp
    let ?c1 = "plain ''findmnt'' [''-n'', ''-o'', ''TARGET'', ''--target'', t]"
    let ?c2 = "plain ''findmnt'' [''-n'', ''-o'', ''TARGET'', t]"
    from st Inr show ?thesis
      by (intro exI [of _ "[?c1, ?c2]"])
        (simp add: IsMountPoint_def run_sysc Run_def run_RunCmd findmnt_lawD(3) [OF law]
          findmnt_lawD(4,5) [OF law q])
  qed
qed

text \<open>
  Less is enough to trust a negative answer. About a mounted path the queries may fail in any
  way, except that the path is not reported missing, that \<^verbatim>\<open>findmnt --target\<close> does not exit with 1
  (no mount found), and that after it has answered the second query prints the row.
\<close>

definition live_law :: "'w host \<Rightarrow> ('w \<Rightarrow> string list) \<Rightarrow> bool" where
  "live_law E mounts \<longleftrightarrow>
     (\<forall>t w. mounts (snd (h_stat E t w)) = mounts w)
   \<and> (\<forall>as w. mounts (snd (exec E ''findmnt'' as w)) = mounts w)
   \<and> (\<forall>t w e. t \<in> set (mounts w) \<longrightarrow> fst (h_stat E t w) = Inl e \<longrightarrow> \<not> error_is e ErrNotExist)
   \<and> (\<forall>t w e. t \<in> set (mounts w) \<longrightarrow>
        snd (fst (exec E ''findmnt'' [''-n'', ''-o'', ''TARGET'', ''--target'', t] w)) = Some e \<longrightarrow> \<not> exit_is e 1)
   \<and> (\<forall>t w. t \<in> set (mounts w) \<longrightarrow>
        snd (fst (exec E ''findmnt'' [''-n'', ''-o'', ''TARGET'', ''--target'', t] w)) = None \<longrightarrow>
        row_is t (fst (fst (exec E ''findmnt'' [''-n'', ''-o'', ''TARGET'', t]
          (snd (exec E ''findmnt'' [''-n'', ''-o'', ''TARGET'', ''--target'', t] w))))))"

lemma live_lawD:
  assumes "live_law E mounts"
  shows "mounts (snd (h_stat E t w)) = mounts w" "mounts (snd (exec E ''findmnt'' as w)) = mounts w"
    "t \<in> set (mounts w) \<Longrightarrow> fst (h_stat E t w) = Inl e \<Longrightarrow> \<not> error_is e ErrNotExist"
    "t \<in> set (mounts w) \<Longrightarrow>
       snd (fst (exec E ''findmnt'' [''-n'', ''-o'', ''TARGET'', ''--target'', t] w)) = Some e \<Longrightarrow> \<not> exit_is e 1"
    "t \<in> set (mounts w) \<Longrightarrow>
       snd (fst (exec E ''findmnt'' [''-n'', ''-o'', ''TARGET'', ''--target'', t] w)) = None \<Longrightarrow>
       row_is t (fst (fst (exec E ''findmnt'' [''-n'', ''-o'', ''TARGET'', t]
         (snd (exec E ''findmnt'' [''-n'', ''-o'', ''TARGET'', ''--target'', t] w)))))"
  using assms unfolding live_law_def by (elim conjE, simp)+

lemma findmnt_law_live:
  assumes "findmnt_law E mounts"
  shows "live_law E mounts"
  unfolding live_law_def using findmnt_lawD [OF assms] by (auto simp: isl_def)

lemma IsMountPoint_live:
  assumes law: "live_law E mounts"
  shows "mounts (world (snd (run_state (IsMountPoint E t) s))) = mounts (world s)"
    and "t \<in> set (mounts (world s)) \<Longrightarrow> fst (run_state (IsMountPoint E t) s) \<noteq> Inr False"
proof -
  let ?c1 = "plain ''findmnt'' [''-n'', ''-o'', ''TARGET'', ''--target'', t]"
  let ?c2 = "plain ''findmnt'' [''-n'', ''-o'', ''TARGET'', t]"
  obtain st w1 where st: "h_stat E t (world s) = (st, w1)" by fastforce
  obtain o1 e1 w2 where q1: "run_state (osRunCmd E ?c1) w1 = ((o1, e1), w2)" by (metis prod.exhaust)
  obtain o2 e2 w3 where q2: "run_state (osRunCmd E ?c2) w2 = ((o2, e2), w3)" by (metis prod.exhaust)
  have m: "mounts w1 = mounts (world s)" "mounts w2 = mounts w1" "mounts w3 = mounts w2"
    using live_lawD(1) [OF law, of t "world s"] live_lawD(2) [OF law, of "cArgs ?c1" w1]
      live_lawD(2) [OF law, of "cArgs ?c2" w2] st q1 q2 by simp_all
  show "mounts (world (snd (run_state (IsMountPoint E t) s))) = mounts (world s)"
    using st q1 q2 m by (simp add: IsMountPoint_def run_sysc Run_def run_RunCmd split: sum.split option.split)
  assume "t \<in> set (mounts (world s))"
  then have "st = Inl e \<Longrightarrow> \<not> error_is e ErrNotExist" "e1 = Some e \<Longrightarrow> \<not> exit_is e 1" "e1 = None \<Longrightarrow> row_is t o2" for e
    using live_lawD(3) [OF law, of t "world s" e] live_lawD(4) [OF law, of t w1 e] live_lawD(5) [OF law, of t w1] st q1 q2 m
    by simp_all
  then show "fst (run_state (IsMountPoint E t) s) \<noteq> Inr False"
    using st q1 q2 by (auto simp: IsMountPoint_def run_sysc Run_def run_RunCmd split: sum.split option.split)
qed

text \<open>
  The last condition of \<open>live_law\<close> is needed: the error of the second query is dropped, so when it
  fails without output (it is killed, say, when the timeout of the check ends) the answer
  is \<open>False\<close>, not an error.
\<close>

lemma IsMountPoint_drops_error:
  assumes "h_stat E t (world s) = (Inr fi, w1)" "t \<noteq> []"
    and "exec E ''findmnt'' [''-n'', ''-o'', ''TARGET'', ''--target'', t] w1 = ((out, None), w2)"
    and "exec E ''findmnt'' [''-n'', ''-o'', ''TARGET'', t] w2 = (([], Some e), w3)"
  shows "fst (run_state (IsMountPoint E t) s) = Inr False"
  using assms by (simp add: IsMountPoint_def run_sysc Run_def run_RunCmd row_is_def)

text \<open>
  C25: Unmount is safe and idempotent. \<^verbatim>\<open>umount\<close> is run exactly when the target is itself a
  mount point; on a target that is not mounted nothing changes, and the call succeeds
  unless the path could not even be queried.
\<close>

theorem Unmount_only_when_mounted:
  assumes law: "findmnt_law E mounts" and "run_state (Unmount E t) s = (r, s')"
  shows "((\<exists>c \<in> set (newcalls s s'). cName c = ''umount'') \<longleftrightarrow> t \<in> set (mounts (world s)))
       \<and> (t \<notin> set (mounts (world s)) \<longrightarrow>
            world s' = world s \<and> (r = Inr () \<or> (\<exists>e. fst (h_stat E t (world s)) = Inl e \<and> r = Inl e)))"
proof -
  obtain cs where q: "run_state (IsMountPoint E t) s =
           ((case fst (h_stat E t (world s)) of
               Inl e \<Rightarrow> if error_is e ErrNotExist then Inr False else Inl e
             | Inr _ \<Rightarrow> Inr (t \<in> set (mounts (world s)))), s\<lparr>calls := calls s @ cs\<rparr>)"
      and cs: "\<forall>c \<in> set cs. cName c = ''findmnt''"
    using IsMountPoint_correct [OF law] by blast
  show ?thesis
  proof (cases "t \<in> set (mounts (world s))")
    case True
    with findmnt_lawD(2) [OF law] obtain fi where "fst (h_stat E t (world s)) = Inr fi"
      by (cases "fst (h_stat E t (world s))") force+
    with True q assms(2) show ?thesis
      by (auto simp: Unmount_def run_onErr RunE_def Run_def run_RunCmd newcalls_def split: sum.splits)
  next
    case False
    with q cs assms(2) show ?thesis
      by (auto simp: Unmount_def run_onErr newcalls_def split: sum.splits if_splits)
  qed
qed

end
