(* ===== verification/Image.thy ===== *)
theory Image
  imports Mount
begin

text \<open>
  \<^verbatim>\<open>pkg/image\<close>: the image files of a backing store (\<^verbatim>\<open>image.go\<close>) and the ext4 tools
  (\<^verbatim>\<open>resize.go\<close>). A manager is the directory it is rooted at. The theory gives the
  abstract specification, a map from volume to size, and shows that the file manager
  implements it.
\<close>

section \<open>Sizes\<close>

definition ImageExt :: string where
  "ImageExt = ''.img''"

definition DefaultFs :: string where
  "DefaultFs = ''ext4''"

definition DefaultBlockSize :: int where
  "DefaultBlockSize = 4096"

definition AlignUp :: "int \<Rightarrow> int" where
  "AlignUp n = wrap64 (quot (wrap64 (wrap64 (n + DefaultBlockSize) - 1)) DefaultBlockSize * DefaultBlockSize)"

record metadata =
  VolumeID :: string
  CapacityBytes :: int

section \<open>The ext4 tools\<close>

definition Mkfs :: "'w host \<Rightarrow> string \<Rightarrow> (('w, 'm) sys_scheme, goerr + unit) state" where
  "Mkfs E target =
     onErr (RunE E ''mkfs.ext4'' [''-q'', ''-F'', ''-b'', itoa (nat DefaultBlockSize), ''-m'', ''0'',
        ''-E'', ''lazy_itable_init=1,lazy_journal_init=1'', target])
       (Wrap ''mkfs.ext4'') (\<lambda>_. ret (Inr ()))"

definition Fsck :: "'w host \<Rightarrow> string \<Rightarrow> (('w, 'm) sys_scheme, goerr + unit) state" where
  "Fsck E dev = do {
     r \<leftarrow> Run E ''e2fsck'' [''-p'', ''-f'', dev];
     ret (case snd r of
            None \<Rightarrow> Inr ()
          | Some e \<Rightarrow> if exit_is e 1 then Inr () else Inl (Wrap ''e2fsck'' e))
   }"

definition Resize2fs :: "'w host \<Rightarrow> string \<Rightarrow> (('w, 'm) sys_scheme, goerr + unit) state" where
  "Resize2fs E dev = onErr (RunE E ''resize2fs'' [dev]) (Wrap ''resize2fs'') (\<lambda>_. ret (Inr ()))"

definition byteAt :: "string \<Rightarrow> nat \<Rightarrow> nat" where
  "byteAt bs i = (if i < length bs then of_char (bs ! i) else 0)"

definition le16 :: "string \<Rightarrow> nat \<Rightarrow> nat" where
  "le16 bs i = byteAt bs i + 256 * byteAt bs (i + 1)"

definition le32 :: "string \<Rightarrow> nat \<Rightarrow> nat" where
  "le32 bs i = le16 bs i + 65536 * le16 bs (i + 2)"

definition ext4SuperblockOffset :: nat where
  "ext4SuperblockOffset = 1024"

definition ext4Magic :: nat where
  "ext4Magic = 0xEF53"

text \<open>What the 64 bytes read from the superblock say about the block size.\<close>

definition superblockSize :: "string \<Rightarrow> nat" where
  "superblockSize sb =
     (if le16 sb 56 \<noteq> ext4Magic then 0
      else let n = le32 sb 24 in if n > 6 then 0 else 1024 * 2 ^ n)"

definition FSBlockSize :: "'w host \<Rightarrow> string \<Rightarrow> (('w, 'm) sys_scheme, goerr + nat) state" where
  "FSBlockSize E path =
     onErr (sysc (h_open E path)) id (\<lambda>_. do {
       r \<leftarrow> sysc (h_readAt E path ext4SuperblockOffset 64);
       ignore (sysc (h_close E path));
       ret (case snd r of
              Some e \<Rightarrow> if error_is e EOF then Inr 0 else Inl (Wrap ''read superblock of'' e)
            | None \<Rightarrow> Inr (superblockSize (fst r)))
     })"

section \<open>The image manager\<close>

definition validateVolumeID :: "string \<Rightarrow> goerr option" where
  "validateVolumeID i =
     (if i = [] then Some (Msg ''empty volumeID'')
      else if containsAny i [CHR ''/'', CHR 0x5C, CHR 0x00] then Some (Msg ''invalid volumeID'')
      else None)"

definition ImagePath :: "string \<Rightarrow> string \<Rightarrow> string" where
  "ImagePath root volumeID = joinPath [root, volumeID @ ImageExt]"

definition newManager :: "'w host \<Rightarrow> string \<Rightarrow> (('w, 'm) sys_scheme, goerr + string) state" where
  "newManager E backingStorePath =
     onErr (sysc (h_stat E backingStorePath)) (Wrap ''backing store'') (\<lambda>st.
       ret (if \<not> fi_dir st then Inl (Msg ''backing store is not a directory'') else Inr backingStorePath))"

definition truncateSparse :: "'w host \<Rightarrow> string \<Rightarrow> int \<Rightarrow> (('w, 'm) sys_scheme, goerr + unit) state" where
  "truncateSparse E path sz =
     onErr (sysc (h_openRW E path)) id (\<lambda>_. do {
       r \<leftarrow> sysc (h_ftruncate E path sz);
       ignore (sysc (h_close E path));
       ret (case r of Inl e \<Rightarrow> Inl (Wrap ''truncate'' e) | Inr _ \<Rightarrow> Inr ())
     })"

definition validated :: "string \<Rightarrow> ('s, goerr + 'a) state \<Rightarrow> ('s, goerr + 'a) state" where
  "validated volumeID m = (case validateVolumeID volumeID of Some e \<Rightarrow> ret (Inl e) | None \<Rightarrow> m)"

definition imgCreate :: "'w host \<Rightarrow> string \<Rightarrow> string \<Rightarrow> int \<Rightarrow> bool \<Rightarrow> (('w, 'm) sys_scheme, goerr + metadata) state" where
  "imgCreate E root volumeID capacityBytes unformatted = validated volumeID (
     if capacityBytes \<le> 0 then ret (Inl (Msg ''capacityBytes must be > 0''))
     else let imgPath = ImagePath root volumeID; size = AlignUp capacityBytes in do {
       st \<leftarrow> sysc (h_stat E imgPath);
       case st of
         Inr fi \<Rightarrow>
           ret (if fi_size fi \<noteq> size \<and> fi_size fi \<noteq> capacityBytes
                then Inl (CapacityMismatch capacityBytes (fi_size fi))
                else Inr \<lparr>VolumeID = volumeID, CapacityBytes = fi_size fi\<rparr>)
       | Inl e \<Rightarrow>
           if \<not> error_is e ErrNotExist then ret (Inl (Wrap ''stat'' e))
           else onErr (truncateSparse E imgPath size) id (\<lambda>_.
             if unformatted then ret (Inr \<lparr>VolumeID = volumeID, CapacityBytes = size\<rparr>)
             else onFail (Mkfs E imgPath) (ignore (sysc (h_remove E imgPath))) id (\<lambda>_.
               ret (Inr \<lparr>VolumeID = volumeID, CapacityBytes = size\<rparr>)))
     })"

definition imgDelete :: "'w host \<Rightarrow> string \<Rightarrow> string \<Rightarrow> (('w, 'm) sys_scheme, goerr + unit) state" where
  "imgDelete E root volumeID = validated volumeID (do {
     r \<leftarrow> sysc (h_remove E (ImagePath root volumeID));
     case r of
       Inl e \<Rightarrow>
         if \<not> error_is e ErrNotExist then ret (Inl e)
         else do { ignore (sysc (h_remove E (joinPath [root, volumeID @ ''.json'']))); ret (Inr ()) }
     | Inr _ \<Rightarrow> do { ignore (sysc (h_remove E (joinPath [root, volumeID @ ''.json'']))); ret (Inr ()) }
   })"

definition imgGet :: "'w host \<Rightarrow> string \<Rightarrow> string \<Rightarrow> (('w, 'm) sys_scheme, goerr + metadata) state" where
  "imgGet E root volumeID = validated volumeID (
     onErr (sysc (h_stat E (ImagePath root volumeID))) id (\<lambda>st.
       ret (Inr \<lparr>VolumeID = volumeID, CapacityBytes = fi_size st\<rparr>)))"

fun listEntries :: "'w host \<Rightarrow> string \<Rightarrow> (string \<times> bool) list \<Rightarrow> (('w, 'm) sys_scheme, metadata list) state" where
  "listEntries E root [] = ret []"
| "listEntries E root ((name, isDir) # es) =
     (if isDir \<or> \<not> hasSuffix name ImageExt then listEntries E root es
      else do {
        st \<leftarrow> sysc (h_stat E (joinPath [root, name]));
        out \<leftarrow> listEntries E root es;
        ret (case st of
               Inl _ \<Rightarrow> out
             | Inr fi \<Rightarrow> \<lparr>VolumeID = trimSuffix name ImageExt, CapacityBytes = fi_size fi\<rparr> # out)
      })"

definition imgList :: "'w host \<Rightarrow> string \<Rightarrow> (('w, 'm) sys_scheme, goerr + metadata list) state" where
  "imgList E root = onErr (sysc (h_readDir E root)) id (\<lambda>entries. do {
     out \<leftarrow> listEntries E root entries; ret (Inr out) })"

definition imgResize :: "'w host \<Rightarrow> string \<Rightarrow> string \<Rightarrow> int \<Rightarrow> (('w, 'm) sys_scheme, goerr + metadata) state" where
  "imgResize E root volumeID capacityBytes =
     onErr (imgGet E root volumeID) id (\<lambda>meta.
       let size = AlignUp capacityBytes in
       if size < CapacityBytes meta then ret (Inl (Msg ''shrink not supported''))
       else if size = CapacityBytes meta then ret (Inr meta)
       else onErr (truncateSparse E (ImagePath root volumeID) size) id (\<lambda>_.
         ret (Inr \<lparr>VolumeID = volumeID, CapacityBytes = size\<rparr>)))"

section \<open>What the operations leave alone\<close>

lemma keeps_validated [kept]: "keeps I m \<Longrightarrow> keeps I (validated v m)"
  unfolding validated_def by (intro kept)

lemma stable_image_tools [kept]:
  assumes "stable I"
  shows "keeps I (Mkfs E t)" "keeps I (Fsck E t)" "keeps I (Resize2fs E t)" "keeps I (FSBlockSize E t)"
    "keeps I (newManager E t)" "keeps I (truncateSparse E t n)"
  unfolding Mkfs_def Fsck_def Resize2fs_def FSBlockSize_def newManager_def truncateSparse_def
  by (intro kept stable_sysc stable_Run assms)+

lemma stable_image [kept]:
  assumes "stable I"
  shows "keeps I (imgCreate E root v n u)" "keeps I (imgDelete E root v)" "keeps I (imgGet E root v)"
  unfolding imgCreate_def imgDelete_def imgGet_def
  by (intro kept stable_sysc stable_image_tools assms)+

lemma stable_listEntries [kept]: "stable I \<Longrightarrow> keeps I (listEntries E root es)"
  by (induction es) (auto intro!: kept stable_sysc)

lemma stable_image' [kept]:
  assumes "stable I"
  shows "keeps I (imgList E root)" "keeps I (imgResize E root v n)"
  unfolding imgList_def imgResize_def
  by (intro kept stable_sysc stable_image stable_image_tools stable_listEntries assms)+

section \<open>Alignment\<close>

lemma AlignUp_exact:
  assumes "0 \<le> n" "n \<le> 2 ^ 63 - 4096"
  shows "AlignUp n = (n + 4095) div 4096 * 4096"
proof (cases "n = 2 ^ 63 - 4096")
  case True
  then show ?thesis
    by (simp add: AlignUp_def DefaultBlockSize_def wrap64_def quot_def)
next
  case False
  then have "int64 (n + 4096)" "int64 (4095 + n)"
    using assms by (simp_all add: int64_def)
  then have "AlignUp n = wrap64 ((n + 4095) div 4096 * 4096)"
    using assms by (simp add: AlignUp_def DefaultBlockSize_def wrap64_id quot_nonneg add.commute)
  moreover have "0 \<le> (n + 4095) div 4096 * 4096" "(n + 4095) div 4096 * 4096 \<le> n + 4095"
    using assms by (simp_all add: pos_imp_zdiv_nonneg_iff)
  then have "int64 ((n + 4095) div 4096 * 4096)"
    using assms False by (auto simp: int64_def)
  ultimately show ?thesis
    by (simp add: wrap64_id)
qed

lemma AlignUp_bounds:
  assumes "0 \<le> n" "n \<le> 2 ^ 63 - 4096"
  shows "n \<le> AlignUp n" "AlignUp n < n + 4096" "4096 dvd AlignUp n" "0 < n \<Longrightarrow> 0 < AlignUp n"
proof -
  define q where "q = (n + 4095) div 4096"
  have "n + 4095 = q * 4096 + (n + 4095) mod 4096" "0 \<le> (n + 4095) mod 4096" "(n + 4095) mod 4096 < 4096"
    by (simp_all add: q_def)
  moreover have "AlignUp n = q * 4096"
    using AlignUp_exact [OF assms] by (simp add: q_def)
  ultimately show "n \<le> AlignUp n" "AlignUp n < n + 4096" "4096 dvd AlignUp n" "0 < n \<Longrightarrow> 0 < AlignUp n"
    by simp_all
qed

lemma AlignUp_wraps:
  assumes "2 ^ 63 - 4096 < n" "n < 2 ^ 63"
  shows "AlignUp n < 0"
proof -
  have "(n + 4096 + 2 ^ 63) mod 2 ^ 64 = (n + 4096 + 2 ^ 63 - 2 ^ 64) mod 2 ^ 64"
    by (simp only: minus_mod_self2)
  also have "\<dots> = n + 4096 + 2 ^ 63 - 2 ^ 64"
    using assms by (intro mod_pos_pos_trivial) simp_all
  finally have "wrap64 (n + 4096) - 1 = n + 4095 - 2 ^ 64"
    by (simp add: wrap64_def)
  moreover have "int64 (n + 4095 - 2 ^ 64)" using assms by (simp add: int64_def)
  ultimately have a: "wrap64 (wrap64 (n + 4096) - 1) = n + 4095 - 2 ^ 64"
    by (simp only: wrap64_id)
  define q where "q = \<bar>n + 4095 - 2 ^ 64\<bar> div 4096"
  have "0 < q" "q \<le> 2 ^ 51"
    using assms by (simp_all add: q_def pos_imp_zdiv_pos_iff)
  then have "int64 (- q * 4096)" "- q * 4096 < 0" by (simp_all add: int64_def)
  moreover have "AlignUp n = wrap64 (- q * 4096)"
    using assms by (simp only: AlignUp_def DefaultBlockSize_def a quot_def q_def) simp
  ultimately show ?thesis by (simp only: wrap64_id)
qed

lemma AlignUp_fixed: "0 \<le> n \<Longrightarrow> n \<le> 2 ^ 63 - 4096 \<Longrightarrow> 4096 dvd n \<Longrightarrow> AlignUp n = n"
  by (auto simp: AlignUp_exact elim!: dvdE)

section \<open>The manager implements a map from volume to size\<close>

text \<open>
  What a working file system promises, for the size and kind \<open>files w p\<close> of the file at path
  \<open>p\<close>: \<^verbatim>\<open>stat\<close> reports it or says that it does not exist, an open for writing creates a
  missing file, \<^verbatim>\<open>ftruncate\<close> sets the size, \<^verbatim>\<open>unlink\<close> removes, \<^verbatim>\<open>mkfs.ext4\<close> on an image keeps its
  size. Each of these calls but \<^verbatim>\<open>stat\<close> may also fail and then changes nothing.
\<close>

definition stat_law :: "'w host \<Rightarrow> ('w \<Rightarrow> string \<Rightarrow> finfo option) \<Rightarrow> bool" where
  "stat_law E files \<longleftrightarrow> (\<forall>p w. snd (h_stat E p w) = w \<and>
     (case files w p of Some fi \<Rightarrow> fst (h_stat E p w) = Inr fi
      | None \<Rightarrow> \<exists>e. fst (h_stat E p w) = Inl e \<and> error_is e ErrNotExist))"

definition openRW_law :: "'w host \<Rightarrow> ('w \<Rightarrow> string \<Rightarrow> finfo option) \<Rightarrow> bool" where
  "openRW_law E files \<longleftrightarrow> (\<forall>p w. case h_openRW E p w of (Inl _, w') \<Rightarrow> files w' = files w
     | (Inr _, w') \<Rightarrow> files w' = (if files w p = None then (files w)(p \<mapsto> \<lparr>fi_size = 0, fi_dir = False\<rparr>) else files w))"

definition ftruncate_law :: "'w host \<Rightarrow> ('w \<Rightarrow> string \<Rightarrow> finfo option) \<Rightarrow> bool" where
  "ftruncate_law E files \<longleftrightarrow> (\<forall>p n w. case h_ftruncate E p n w of (Inl _, w') \<Rightarrow> files w' = files w
     | (Inr _, w') \<Rightarrow> files w' = (files w)(p \<mapsto> \<lparr>fi_size = n, fi_dir = False\<rparr>))"

definition remove_law :: "'w host \<Rightarrow> ('w \<Rightarrow> string \<Rightarrow> finfo option) \<Rightarrow> bool" where
  "remove_law E files \<longleftrightarrow> (\<forall>p w. case h_remove E p w of
       (Inl e, w') \<Rightarrow> files w' = files w \<and> (error_is e ErrNotExist \<longleftrightarrow> files w p = None)
     | (Inr _, w') \<Rightarrow> files w' = (files w)(p := None))"

definition fs_law :: "'w host \<Rightarrow> ('w \<Rightarrow> string \<Rightarrow> finfo option) \<Rightarrow> bool" where
  "fs_law E files \<longleftrightarrow> stat_law E files \<and> openRW_law E files \<and> ftruncate_law E files \<and> remove_law E files
   \<and> (\<forall>p w. files (snd (h_close E p w)) = files w)
   \<and> (\<forall>as w. files (snd (exec E ''mkfs.ext4'' as w)) = files w)"

lemma fs_stat:
  assumes "fs_law E files"
  shows "files w p = Some fi \<Longrightarrow> h_stat E p w = (Inr fi, w)"
    "files w p = None \<Longrightarrow> \<exists>e. h_stat E p w = (Inl e, w) \<and> error_is e ErrNotExist"
proof -
  have *: "snd (h_stat E p w) = w \<and> (case files w p of Some fi \<Rightarrow> fst (h_stat E p w) = Inr fi
         | None \<Rightarrow> \<exists>e. fst (h_stat E p w) = Inl e \<and> error_is e ErrNotExist)"
    using assms by (simp add: fs_law_def stat_law_def)
  show "files w p = Some fi \<Longrightarrow> h_stat E p w = (Inr fi, w)"
    "files w p = None \<Longrightarrow> \<exists>e. h_stat E p w = (Inl e, w) \<and> error_is e ErrNotExist"
    using * by (auto simp: prod_eq_iff)
qed

lemma fs_openRW:
  "fs_law E files \<Longrightarrow> h_openRW E p w = (Inl e, w') \<Longrightarrow> files w' = files w"
  "fs_law E files \<Longrightarrow> h_openRW E p w = (Inr u, w') \<Longrightarrow>
     files w' = (if files w p = None then (files w)(p \<mapsto> \<lparr>fi_size = 0, fi_dir = False\<rparr>) else files w)"
  by (auto simp: fs_law_def openRW_law_def dest!: spec [of _ p] spec [of _ w])

lemma fs_ftruncate:
  "fs_law E files \<Longrightarrow> h_ftruncate E p n w = (Inl e, w') \<Longrightarrow> files w' = files w"
  "fs_law E files \<Longrightarrow> h_ftruncate E p n w = (Inr u, w') \<Longrightarrow>
     files w' = (files w)(p \<mapsto> \<lparr>fi_size = n, fi_dir = False\<rparr>)"
  unfolding fs_law_def ftruncate_law_def
  by (elim conjE, drule spec [of _ p], drule spec [of _ n], drule spec [of _ w], simp)+

lemma fs_remove:
  "fs_law E files \<Longrightarrow> h_remove E p w = (Inl e, w') \<Longrightarrow> files w' = files w \<and> (error_is e ErrNotExist \<longleftrightarrow> files w p = None)"
  "fs_law E files \<Longrightarrow> h_remove E p w = (Inr u, w') \<Longrightarrow> files w' = (files w)(p := None)"
  unfolding fs_law_def remove_law_def by (elim conjE, drule spec [of _ p], drule spec [of _ w], simp)+

lemma fs_quiet:
  assumes "fs_law E files"
  shows "files (snd (h_close E p w)) = files w" "files (snd (exec E ''mkfs.ext4'' as w)) = files w"
  using assms by (simp_all add: fs_law_def)

definition volumes :: "('w \<Rightarrow> string \<Rightarrow> finfo option) \<Rightarrow> string \<Rightarrow> ('w, 'm) sys_scheme \<Rightarrow> string \<Rightarrow> int option" where
  "volumes files root s v =
     (if validateVolumeID v = None then map_option fi_size (files (world s) (ImagePath root v)) else None)"

lemma valid_iff: "validateVolumeID v = None \<longleftrightarrow> v \<noteq> [] \<and> CHR ''/'' \<notin> set v \<and> CHR 0x5C \<notin> set v \<and> CHR 0x00 \<notin> set v"
  by (auto simp: validateVolumeID_def containsAny_iff)

lemma entry_name_ext:
  assumes "validateVolumeID v = None" "CHR ''/'' \<notin> set x" "length x > 2"
  shows "entry_name (v @ x)"
proof -
  have "v @ x \<noteq> w" if "length w \<le> 2" for w
    using assms(3) that by auto
  from this [of "[]"] this [of "''.''"] this [of "''..''"] show ?thesis
    using assms by (simp add: entry_name_def valid_iff)
qed

lemma entry_name_img: "validateVolumeID v = None \<Longrightarrow> entry_name (v @ ImageExt)"
  by (rule entry_name_ext) (simp_all add: ImageExt_def)

lemma entry_name_json: "validateVolumeID v = None \<Longrightarrow> entry_name (v @ ''.json'')"
  by (rule entry_name_ext) simp_all

lemma ImagePath_inj:
  "validateVolumeID v = None \<Longrightarrow> validateVolumeID v' = None \<Longrightarrow> ImagePath root v = ImagePath root v' \<longleftrightarrow> v = v'"
  unfolding ImagePath_def using joinPath_inj entry_name_img by blast

lemma base_ImagePath: "validateVolumeID v = None \<Longrightarrow> base (ImagePath root v) = v @ ImageExt"
  unfolding ImagePath_def by (simp add: base_joinPath entry_name_img)

lemma ImagePath_json:
  assumes "validateVolumeID v = None" "validateVolumeID v' = None"
  shows "ImagePath root v \<noteq> joinPath [root, v' @ ''.json'']"
proof
  assume "ImagePath root v = joinPath [root, v' @ ''.json'']"
  then have "v @ ImageExt = v' @ ''.json''"
    using joinPath_inj entry_name_img [OF assms(1)] entry_name_json [OF assms(2)] unfolding ImagePath_def by blast
  then have "last (v @ ImageExt) = last (v' @ ''.json'')" by simp
  then show False by (simp add: ImageExt_def)
qed

text \<open>The effect of one change to the file of a volume on the map of volumes.\<close>

lemma volumes_upd:
  assumes "validateVolumeID v = None" "files (world s') = (files (world s))(ImagePath root v := x)"
  shows "volumes files root s' = (volumes files root s)(v := map_option fi_size x)"
  using assms by (auto simp: volumes_def ImagePath_inj)

lemma volumes_cong: "files (world s') = files (world s) \<Longrightarrow> volumes files root s' = volumes files root s"
  by (simp add: volumes_def fun_eq_iff)

definition touched :: "('p \<Rightarrow> finfo option) \<Rightarrow> 'p \<Rightarrow> 'p \<Rightarrow> finfo option" where
  "touched fs p = (if fs p = None then fs(p \<mapsto> \<lparr>fi_size = 0, fi_dir = False\<rparr>) else fs)"

text \<open>Truncation sets the size, or fails; a failure can leave an empty file where there was none.\<close>

lemma truncateSparse_effect:
  assumes law: "fs_law E files" and r: "run_state (truncateSparse E p n) s = (r, s')"
  shows "r = Inr () \<and> files (world s') = (files (world s))(p \<mapsto> \<lparr>fi_size = n, fi_dir = False\<rparr>)
    \<or> (\<exists>e. r = Inl e \<and> (files (world s') = files (world s) \<or> files (world s') = touched (files (world s)) p))"
proof -
  obtain a w1 where a: "h_openRW E p (world s) = (a, w1)" by (cases "h_openRW E p (world s)")
  show ?thesis
  proof (cases a)
    case (Inl e)
    with a r have "r = Inl e" "world s' = w1"
      by (auto simp: truncateSparse_def run_onErr run_sysc)
    with fs_openRW(1) [OF law a [unfolded Inl]] show ?thesis by simp
  next
    case (Inr u)
    have f1: "files w1 = touched (files (world s)) p"
      using fs_openRW(2) [OF law a [unfolded Inr]] by (simp add: touched_def)
    obtain b w2 where b: "h_ftruncate E p n w1 = (b, w2)" by (cases "h_ftruncate E p n w1")
    have s': "files (world s') = files w2" "r = (case b of Inl e \<Rightarrow> Inl (Wrap ''truncate'' e) | Inr _ \<Rightarrow> Inr ())"
      using r a Inr b fs_quiet(1) [OF law]
      by (auto simp: truncateSparse_def run_onErr run_sysc run_ignore)
    show ?thesis
    proof (cases b)
      case (Inl e)
      then show ?thesis using s' f1 fs_ftruncate(1) [OF law b [unfolded Inl]] by simp
    next
      case (Inr u)
      then show ?thesis
        using s' f1 fs_ftruncate(2) [OF law b [unfolded Inr]] by (auto simp: touched_def fun_eq_iff)
    qed
  qed
qed

lemma imgGet_spec:
  assumes law: "fs_law E files"
  shows "volumes files root s v = Some n \<Longrightarrow> run_state (imgGet E root v) s = (Inr \<lparr>VolumeID = v, CapacityBytes = n\<rparr>, s)"
    "volumes files root s v = None \<Longrightarrow> \<exists>e. run_state (imgGet E root v) s = (Inl e, s)"
proof -
  assume "volumes files root s v = Some n"
  then obtain fi where "files (world s) (ImagePath root v) = Some fi" "fi_size fi = n" "validateVolumeID v = None"
    by (auto simp: volumes_def split: if_splits)
  then show "run_state (imgGet E root v) s = (Inr \<lparr>VolumeID = v, CapacityBytes = n\<rparr>, s)"
    using fs_stat(1) [OF law] by (simp add: imgGet_def validated_def run_onErr run_sysc)
next
  assume none: "volumes files root s v = None"
  show "\<exists>e. run_state (imgGet E root v) s = (Inl e, s)"
  proof (cases "validateVolumeID v")
    case None
    with none have "files (world s) (ImagePath root v) = None" by (simp add: volumes_def)
    from fs_stat(2) [OF law this] None show ?thesis
      by (auto simp: imgGet_def validated_def run_onErr run_sysc)
  qed (simp add: imgGet_def validated_def)
qed

lemma imgCreate_existing:
  assumes law: "fs_law E files" and "volumes files root s v = Some k" "0 < n"
  shows "run_state (imgCreate E root v n u) s =
    (if k \<noteq> AlignUp n \<and> k \<noteq> n then Inl (CapacityMismatch n k) else Inr \<lparr>VolumeID = v, CapacityBytes = k\<rparr>, s)"
proof -
  obtain fi where "files (world s) (ImagePath root v) = Some fi" "fi_size fi = k" "validateVolumeID v = None"
    using assms(2) by (auto simp: volumes_def split: if_splits)
  then show ?thesis
    using fs_stat(1) [OF law] assms(3) by (simp add: imgCreate_def validated_def run_sysc Let_def)
qed

lemma Mkfs_files:
  assumes "fs_law E files" "run_state (Mkfs E t) s = (r, s')"
  shows "files (world s') = files (world s)"
  using assms(2) fs_quiet(2) [OF assms(1)]
  by (auto simp: Mkfs_def run_onErr RunE_def Run_def run_RunCmd split: sum.splits)

lemma remove_volumes:
  assumes law: "fs_law E files" and "validateVolumeID v = None" "run_state (sysc (h_remove E (ImagePath root v))) s = (r, s')"
  shows "r = Inr () \<and> volumes files root s' = (volumes files root s)(v := None)
    \<or> (\<exists>e. r = Inl e \<and> volumes files root s' = volumes files root s \<and> (error_is e ErrNotExist \<longleftrightarrow> volumes files root s v = None))"
proof -
  obtain q w where q: "h_remove E (ImagePath root v) (world s) = (q, w)" by (cases "h_remove E (ImagePath root v) (world s)")
  with assms(3) have s': "r = q" "s' = s\<lparr>world := w\<rparr>" by (auto simp: run_sysc)
  show ?thesis
  proof (cases q)
    case (Inl e)
    from fs_remove(1) [OF law q [unfolded Inl]] show ?thesis
      using s' Inl assms(2) volumes_cong [of files s' s root] by (auto simp: volumes_def)
  next
    case (Inr u)
    from fs_remove(2) [OF law q [unfolded Inr]] show ?thesis
      using s' Inr volumes_upd [OF assms(2), of files s' s root None] by simp
  qed
qed

lemma imgCreate_new:
  assumes law: "fs_law E files" and v: "validateVolumeID v = None" and none: "volumes files root s v = None" and "0 < n"
    and r: "run_state (imgCreate E root v n u) s = (r, s')"
  shows "r = Inr \<lparr>VolumeID = v, CapacityBytes = AlignUp n\<rparr> \<and> volumes files root s' = (volumes files root s)(v \<mapsto> AlignUp n)
    \<or> (\<exists>e x. r = Inl e \<and> volumes files root s' = (volumes files root s)(v := x))"
proof -
  let ?p = "ImagePath root v"
  have "files (world s) ?p = None" using none v by (simp add: volumes_def)
  then obtain e where e: "h_stat E ?p (world s) = (Inl e, world s)" "error_is e ErrNotExist"
    using fs_stat(2) [OF law] by blast
  obtain t s1 where t: "run_state (truncateSparse E ?p (AlignUp n)) s = (t, s1)"
    by (cases "run_state (truncateSparse E ?p (AlignUp n)) s")
  have step: "run_state (imgCreate E root v n u) s = run_state (onErr (truncateSparse E ?p (AlignUp n)) id (\<lambda>_.
             if u then ret (Inr \<lparr>VolumeID = v, CapacityBytes = AlignUp n\<rparr>)
             else onFail (Mkfs E ?p) (ignore (sysc (h_remove E ?p))) id (\<lambda>_.
               ret (Inr \<lparr>VolumeID = v, CapacityBytes = AlignUp n\<rparr>)))) s"
    using assms(4) v e by (simp add: imgCreate_def validated_def run_sysc Let_def)
  consider (trunc) e where "t = Inl e" "\<exists>x. files (world s1) = (files (world s))(?p := x)"
    | (made) "t = Inr ()" "files (world s1) = (files (world s))(?p \<mapsto> \<lparr>fi_size = AlignUp n, fi_dir = False\<rparr>)"
    using truncateSparse_effect [OF law t] by (auto simp: touched_def split: if_splits) (metis fun_upd_triv)+
  then show ?thesis
  proof cases
    case trunc
    then show ?thesis
      using r step t volumes_upd [OF v, of files s1 s root] by (auto simp: run_onErr)
  next
    case made
    have s1: "volumes files root s1 = (volumes files root s)(v \<mapsto> AlignUp n)"
      using volumes_upd [OF v made(2)] by simp
    show ?thesis
    proof (cases u)
      case True
      then show ?thesis using r step t made(1) s1 by (simp add: run_onErr)
    next
      case False
      obtain m s2 where m: "run_state (Mkfs E ?p) s1 = (m, s2)" by (cases "run_state (Mkfs E ?p) s1")
      have s2: "volumes files root s2 = (volumes files root s)(v \<mapsto> AlignUp n)"
        using Mkfs_files [OF law m] s1 volumes_cong [of files s2 s1 root] by simp
      obtain q s3 where q: "run_state (sysc (h_remove E ?p)) s2 = (q, s3)" by (cases "run_state (sysc (h_remove E ?p)) s2")
      have "\<exists>x. volumes files root s3 = (volumes files root s)(v := x)"
        using remove_volumes [OF law v q] s2 by auto
      then show ?thesis
        using r step t made(1) False m q s2 by (cases m) (auto simp: run_onErr run_onFail run_ignore)
    qed
  qed
qed

lemma imgDelete_spec:
  assumes law: "fs_law E files" and v: "validateVolumeID v = None" and r: "run_state (imgDelete E root v) s = (r, s')"
  shows "r = Inr () \<and> volumes files root s' = (volumes files root s)(v := None)
    \<or> (\<exists>e. r = Inl e \<and> volumes files root s' = volumes files root s)"
proof -
  obtain q s1 where q: "run_state (sysc (h_remove E (ImagePath root v))) s = (q, s1)"
    by (cases "run_state (sysc (h_remove E (ImagePath root v))) s")
  obtain j w2 where j: "h_remove E (joinPath [root, v @ ''.json'']) (world s1) = (j, w2)"
    by (cases "h_remove E (joinPath [root, v @ ''.json'']) (world s1)")
  have "files w2 (ImagePath root v') = files (world s1) (ImagePath root v')" if "validateVolumeID v' = None" for v'
    using fs_remove [OF law, of "joinPath [root, v @ ''.json'']" "world s1"] j ImagePath_json [OF that v] by (cases j) auto
  then have j': "volumes files root (s1\<lparr>world := w2\<rparr>) = volumes files root s1"
    by (auto simp: volumes_def)
  have step: "run_state (imgDelete E root v) s = (case q of
       Inl e \<Rightarrow> if error_is e ErrNotExist then (Inr (), s1\<lparr>world := w2\<rparr>) else (Inl e, s1)
     | Inr _ \<Rightarrow> (Inr (), s1\<lparr>world := w2\<rparr>))"
    using q j v by (cases q) (simp_all add: imgDelete_def validated_def run_ignore run_sysc)
  from remove_volumes [OF law v q] show ?thesis
  proof (elim disjE exE conjE)
    fix e
    assume "q = Inl e" "volumes files root s1 = volumes files root s"
      "error_is e ErrNotExist \<longleftrightarrow> volumes files root s v = None"
    then show ?thesis using r step j' by (auto split: if_splits)
  qed (use r step j' in auto)
qed

lemma imgDelete_missing:
  assumes law: "fs_law E files" and v: "validateVolumeID v = None" and "volumes files root s v = None"
  shows "fst (run_state (imgDelete E root v) s) = Inr ()"
proof -
  obtain q s1 where q: "run_state (sysc (h_remove E (ImagePath root v))) s = (q, s1)"
    by (cases "run_state (sysc (h_remove E (ImagePath root v))) s")
  from remove_volumes [OF law v q] assms(3) q v show ?thesis
    by (auto simp: imgDelete_def validated_def run_ignore)
qed

lemma imgResize_spec:
  assumes law: "fs_law E files" and r: "run_state (imgResize E root v n) s = (r, s')"
  shows "(\<exists>k. volumes files root s v = Some k \<and> k \<le> AlignUp n \<and> r = Inr \<lparr>VolumeID = v, CapacityBytes = AlignUp n\<rparr>
       \<and> volumes files root s' = (volumes files root s)(v \<mapsto> AlignUp n))
    \<or> (\<exists>e. r = Inl e \<and> volumes files root s' = volumes files root s)"
proof (cases "volumes files root s v")
  case None
  then show ?thesis
    using imgGet_spec(2) [OF law None] r by (auto simp: imgResize_def run_onErr)
next
  case (Some k)
  note g = imgGet_spec(1) [OF law Some]
  have v: "validateVolumeID v = None" and f: "files (world s) (ImagePath root v) \<noteq> None"
    using Some by (auto simp: volumes_def split: if_splits)
  obtain t s1 where t: "run_state (truncateSparse E (ImagePath root v) (AlignUp n)) s = (t, s1)"
    by (cases "run_state (truncateSparse E (ImagePath root v) (AlignUp n)) s")
  have "t = Inr () \<and> volumes files root s1 = (volumes files root s)(v \<mapsto> AlignUp n)
    \<or> (\<exists>e. t = Inl e \<and> volumes files root s1 = volumes files root s)"
    using truncateSparse_effect [OF law t] f volumes_upd [OF v, of files s1 s root "Some \<lparr>fi_size = AlignUp n, fi_dir = False\<rparr>"]
      volumes_cong [of files s1 s root] by (auto simp: touched_def)
  then show ?thesis
    using r g t Some by (auto simp: imgResize_def run_onErr Let_def split: if_splits)
qed

section \<open>The manager's interface\<close>

text \<open>
  \<^verbatim>\<open>image.Manager\<close> as its callers see it: a map \<open>vols\<close> from volume to size, the laws of the
  operations on it, and what follows for a caller that retries. \<open>ok\<close> is what the manager
  needs of its file system.
\<close>

locale image_manager =
  fixes ok :: bool
    and vols :: "'s \<Rightarrow> string \<Rightarrow> int option"
    and create :: "string \<Rightarrow> int \<Rightarrow> bool \<Rightarrow> ('s, goerr + metadata) state"
    and get :: "string \<Rightarrow> ('s, goerr + metadata) state"
    and delete :: "string \<Rightarrow> ('s, goerr + unit) state"
    and resize :: "string \<Rightarrow> int \<Rightarrow> ('s, goerr + metadata) state"
  assumes get_found: "ok \<Longrightarrow> vols s v = Some n \<Longrightarrow> run_state (get v) s = (Inr \<lparr>VolumeID = v, CapacityBytes = n\<rparr>, s)"
    and get_missing: "ok \<Longrightarrow> vols s v = None \<Longrightarrow> \<exists>e. run_state (get v) s = (Inl e, s)"
    and create_found: "ok \<Longrightarrow> vols s v = Some k \<Longrightarrow> 0 < n \<Longrightarrow> run_state (create v n u) s =
      (if k \<noteq> AlignUp n \<and> k \<noteq> n then Inl (CapacityMismatch n k) else Inr \<lparr>VolumeID = v, CapacityBytes = k\<rparr>, s)"
    and create_missing: "ok \<Longrightarrow> validateVolumeID v = None \<Longrightarrow> vols s v = None \<Longrightarrow> 0 < n \<Longrightarrow>
      run_state (create v n u) s = (r, s') \<Longrightarrow>
      r = Inr \<lparr>VolumeID = v, CapacityBytes = AlignUp n\<rparr> \<and> vols s' = (vols s)(v \<mapsto> AlignUp n)
      \<or> (\<exists>e x. r = Inl e \<and> vols s' = (vols s)(v := x))"
    and create_invalid: "run_state (create v n u) s = (Inr m, s') \<Longrightarrow> validateVolumeID v = None \<and> 0 < n"
    and delete_law: "ok \<Longrightarrow> validateVolumeID v = None \<Longrightarrow> run_state (delete v) s = (d, s') \<Longrightarrow>
      d = Inr () \<and> vols s' = (vols s)(v := None) \<or> (\<exists>e. d = Inl e \<and> vols s' = vols s)"
    and resize_law: "ok \<Longrightarrow> run_state (resize v n) s = (r, s') \<Longrightarrow>
      (\<exists>k. vols s v = Some k \<and> k \<le> AlignUp n \<and> r = Inr \<lparr>VolumeID = v, CapacityBytes = AlignUp n\<rparr>
        \<and> vols s' = (vols s)(v \<mapsto> AlignUp n)) \<or> (\<exists>e. r = Inl e \<and> vols s' = vols s)"
begin

lemma create_stores:
  assumes "ok" "run_state (create v n u) s = (Inr m, s')"
  shows "VolumeID m = v \<and> vols s' = (vols s)(v \<mapsto> CapacityBytes m) \<and> CapacityBytes m \<in> {AlignUp n, n}"
proof -
  have v: "validateVolumeID v = None" "0 < n" using create_invalid [OF assms(2)] by auto
  show ?thesis
  proof (cases "vols s v")
    case None
    from create_missing [OF assms(1) v(1) None v(2) assms(2)] show ?thesis by auto
  next
    case (Some k)
    from create_found [OF assms(1) Some v(2), of u] assms(2) Some show ?thesis
      by (auto simp: fun_upd_idem split: if_splits)
  qed
qed

lemma create_retry:
  assumes "ok" "run_state (create v n u) s = (Inr m, s')"
  shows "run_state (create v n u') s' = (Inr m, s') \<and> run_state (get v) s' = (Inr m, s')"
proof -
  have v: "validateVolumeID v = None" "0 < n" using create_invalid [OF assms(2)] by auto
  have c: "VolumeID m = v" "vols s' v = Some (CapacityBytes m)" "CapacityBytes m \<in> {AlignUp n, n}"
    using create_stores [OF assms] by auto
  then have "m = \<lparr>VolumeID = v, CapacityBytes = CapacityBytes m\<rparr>" by simp
  then show ?thesis
    using create_found [OF assms(1) c(2) v(2), of u'] get_found [OF assms(1) c(2)] c(3) by auto
qed

lemma delete_gone:
  assumes "ok" "validateVolumeID v = None" "run_state (delete v) s = (Inr (), s')"
  shows "vols s' = (vols s)(v := None) \<and> (\<exists>e. run_state (get v) s' = (Inl e, s'))"
  using delete_law [OF assms] get_missing [OF assms(1), of s' v] by auto

end

interpretation im: image_manager "fs_law E files" "volumes files root" "imgCreate E root" "imgGet E root"
  "imgDelete E root" "imgResize E root" for E :: "'w host" and files and root :: string
proof (unfold_locales, goal_cases)
  case (5 v n u s m s')
  then show ?case
    by (auto simp: imgCreate_def validated_def split: option.splits if_splits)
qed (fact imgGet_spec imgCreate_existing imgCreate_new imgDelete_spec imgResize_spec)+

section \<open>Properties\<close>

text \<open>
  C27: A successful Create is durable and idempotent. The volume then has the capacity that
  was reported, which is the requested one, rounded up to whole blocks or (for an image that
  was there) exact; every other volume is as before; a retry with the same capacity and a
  Get return the same metadata and change nothing.
\<close>

theorem imgCreate_idempotent:
  assumes "fs_law E files" "run_state (imgCreate E root v n u) s = (Inr m, s')"
  shows "volumes files root s' = (volumes files root s)(v \<mapsto> CapacityBytes m)
       \<and> CapacityBytes m \<in> {AlignUp n, n}
       \<and> run_state (imgCreate E root v n u') s' = (Inr m, s')
       \<and> run_state (imgGet E root v) s' = (Inr m, s')"
  using im.create_stores [OF assms] im.create_retry [OF assms] by blast

text \<open>
  C28: Delete removes the volume and no other, is idempotent (a volume that is not there is
  deleted successfully), and Get does not find it afterwards.
\<close>

theorem imgDelete_removes:
  assumes law: "fs_law E files" and v: "validateVolumeID v = None" and r: "run_state (imgDelete E root v) s = (r, s')"
  shows "(volumes files root s v = None \<longrightarrow> r = Inr ())
       \<and> (r = Inr () \<longrightarrow> volumes files root s' = (volumes files root s)(v := None)
            \<and> (\<exists>e. run_state (imgGet E root v) s' = (Inl e, s'))
            \<and> fst (run_state (imgDelete E root v) s') = Inr ())
       \<and> (r \<noteq> Inr () \<longrightarrow> volumes files root s' = volumes files root s)"
proof -
  note gone = imgDelete_missing [OF law v]
  show ?thesis
  proof (cases "r = Inr ()")
    case True
    with im.delete_gone [OF law v, of root s s'] r gone [of root s'] show ?thesis by auto
  next
    case False
    with im.delete_law [OF law v r] r gone [of root s] show ?thesis by auto
  qed
qed

text \<open>
  C20: Resize grows a volume to the requested size, rounded up to whole blocks, and never
  shrinks one: the new size is at least the old one, other volumes are untouched, and a
  refused or failed resize changes no size.
\<close>

theorem imgResize_never_shrinks:
  assumes law: "fs_law E files" and n: "0 \<le> n" "n \<le> 2 ^ 63 - 4096" and r: "run_state (imgResize E root v n) s = (r, s')"
  shows "(case r of
            Inr m \<Rightarrow> \<exists>k. volumes files root s v = Some k \<and> k \<le> CapacityBytes m
              \<and> n \<le> CapacityBytes m \<and> CapacityBytes m < n + 4096 \<and> 4096 dvd CapacityBytes m
              \<and> volumes files root s' = (volumes files root s)(v \<mapsto> CapacityBytes m)
          | Inl e \<Rightarrow> volumes files root s' = volumes files root s)"
  using im.resize_law [OF law r] AlignUp_bounds [OF n] by (auto split: sum.splits)

text \<open>
  C29: A Create whose \<^verbatim>\<open>ftruncate\<close> fails leaves an empty image behind: the call fails, the
  volume now exists with size 0, and every later Create of it, with any positive capacity
  up to the largest one that rounds without overflow, is refused as a capacity mismatch.
\<close>

theorem imgCreate_failed_truncate:
  assumes law: "fs_law E files" and v: "validateVolumeID v = None" and none: "volumes files root s v = None"
    and n: "0 < n" and op: "h_openRW E (ImagePath root v) (world s) = (Inr (), w)"
    and tr: "h_ftruncate E (ImagePath root v) (AlignUp n) w = (Inl e, w')"
    and r: "run_state (imgCreate E root v n u) s = (r, s')"
    and n': "0 < n'" "n' \<le> 2 ^ 63 - 4096"
  shows "isl r \<and> volumes files root s' = (volumes files root s)(v \<mapsto> 0)
       \<and> run_state (imgCreate E root v n' u') s' = (Inl (CapacityMismatch n' 0), s')"
proof -
  let ?p = "ImagePath root v"
  have f: "files (world s) ?p = None" using none v by (simp add: volumes_def)
  then obtain e' where e': "h_stat E ?p (world s) = (Inl e', world s)" "error_is e' ErrNotExist"
    using fs_stat(2) [OF law] by blast
  have s': "isl r" "world s' = snd (h_close E ?p w')"
    using r n v e' op tr
    by (auto simp: imgCreate_def validated_def run_sysc Let_def run_onErr truncateSparse_def run_ignore)
  then have "files (world s') = (files (world s))(?p \<mapsto> \<lparr>fi_size = 0, fi_dir = False\<rparr>)"
    using fs_openRW(2) [OF law op] fs_ftruncate(1) [OF law tr] fs_quiet(1) [OF law] f by simp
  from volumes_upd [OF v this] have vol: "volumes files root s' = (volumes files root s)(v \<mapsto> 0)" by simp
  then have "volumes files root s' v = Some 0" by simp
  from im.create_found [OF law this n'(1), of u'] vol s'(1) AlignUp_bounds(4) [of n'] n' show ?thesis by simp
qed

text \<open>
  Rounding a capacity up to whole blocks gives the least multiple of 4096 that is large
  enough, for every non-negative capacity for which that multiple is an int64; above that the
  addition wraps around and the result is negative.
\<close>

theorem AlignUp_least:
  "(0 \<le> n \<and> n \<le> 2 ^ 63 - 4096 \<longrightarrow> n \<le> AlignUp n \<and> 4096 dvd AlignUp n \<and> (\<forall>k. 4096 dvd k \<and> n \<le> k \<longrightarrow> AlignUp n \<le> k))
   \<and> (2 ^ 63 - 4096 < n \<and> n < 2 ^ 63 \<longrightarrow> AlignUp n < 0)"
proof (intro conjI impI allI)
  fix k
  assume "0 \<le> n \<and> n \<le> 2 ^ 63 - 4096" "4096 dvd k \<and> n \<le> k"
  then show "AlignUp n \<le> k"
    using AlignUp_exact [of n] by (auto elim!: dvdE)
next
  assume "2 ^ 63 - 4096 < n \<and> n < 2 ^ 63"
  then show "AlignUp n < 0"
    by (simp add: AlignUp_wraps)
qed (use AlignUp_bounds [of n] in auto)

end
