(* ===== verification/Mountinfo.thy ===== *)
theory Mountinfo
  imports Mount
begin

text \<open>
  \<^verbatim>\<open>pkg/mount/mountinfo.go\<close>: reading \<^verbatim>\<open>/proc/<pid>/mountinfo\<close>, the test for an ext4 that was
  forced read-only, and the pod mounts of a staged device.
\<close>

section \<open>Parsing\<close>

record mountinfo =
  MajorMinor :: string
  MountPoint :: string
  MountOptions :: "string list"
  FSType :: string
  MSource :: string
  SuperOptions :: "string list"

text \<open>\<^verbatim>\<open>strconv.ParseUint(s, 8, 8)\<close> on three bytes: octal digits, at most 255.\<close>

definition octal3 :: "char \<Rightarrow> char \<Rightarrow> char \<Rightarrow> char option" where
  "octal3 a b c =
     (case (digit a, digit b, digit c) of
        (Some x, Some y, Some z) \<Rightarrow>
          if x < 8 \<and> y < 8 \<and> z < 8 \<and> 64 * x + 8 * y + z \<le> 255 then Some (char_of (64 * x + 8 * y + z)) else None
      | _ \<Rightarrow> None)"

fun unescape_loop :: "string \<Rightarrow> string" where
  "unescape_loop [] = []"
| "unescape_loop (c # s) =
     (if c = CHR 0x5C then
        (case s of a # b # d # r \<Rightarrow>
           (case octal3 a b d of Some v \<Rightarrow> v # unescape_loop r | None \<Rightarrow> c # unescape_loop s)
         | _ \<Rightarrow> c # unescape_loop s)
      else c # unescape_loop s)"

definition unescapeOctal :: "string \<Rightarrow> string" where
  "unescapeOctal s = (if \<not> contains s [CHR 0x5C] then s else unescape_loop s)"

text \<open>
  The scanner's lines: split at line feeds, no last empty line, one carriage return at the
  end dropped. A line that does not fit its buffer of one MiB is an error.
\<close>

definition dropCR :: "string \<Rightarrow> string" where
  "dropCR l = (if l \<noteq> [] \<and> last l = CHR 0x0D then butlast l else l)"

definition scanLines :: "string \<Rightarrow> string list" where
  "scanLines txt = (let ls = split (CHR 0x0A) txt in if last ls = [] then butlast ls else ls)"

definition maxToken :: nat where
  "maxToken = 1024 * 1024"

fun slice_index :: "string list \<Rightarrow> string \<Rightarrow> int" where
  "slice_index [] x = -1"
| "slice_index (y # ys) x = (if y = x then 0 else let i = slice_index ys x in if i < 0 then i else i + 1)"

definition parseFields :: "string list \<Rightarrow> mountinfo option" where
  "parseFields f =
     (let sep = slice_index f ''-'' in
      if sep < 6 \<or> int (length f) < sep + 4 then None
      else Some \<lparr>MajorMinor = f ! 2, MountPoint = unescapeOctal (f ! 4), MountOptions = split (CHR '','') (f ! 5),
        FSType = f ! nat (sep + 1), MSource = unescapeOctal (f ! nat (sep + 2)),
        SuperOptions = split (CHR '','') (f ! nat (sep + 3))\<rparr>)"

fun parseLines :: "mountinfo list \<Rightarrow> string list \<Rightarrow> goerr + mountinfo list" where
  "parseLines out [] = Inr out"
| "parseLines out (l # ls) =
     (if maxToken \<le> length l then Inl (Msg ''bufio.Scanner: token too long'')
      else let f = strFields (dropCR l) in
        if f = [] then parseLines out ls
        else (case parseFields f of None \<Rightarrow> Inl (Msg ''malformed mountinfo line'')
              | Some mi \<Rightarrow> parseLines (out @ [mi]) ls))"

definition ParseMountInfo :: "string \<Rightarrow> goerr + mountinfo list" where
  "ParseMountInfo txt = parseLines [] (scanLines txt)"

definition ReadMountInfo :: "'w host \<Rightarrow> string \<Rightarrow> (('w, 'm) sys_scheme, goerr + mountinfo list) state" where
  "ReadMountInfo E path = onErr (sysc (h_readFile E path)) id (\<lambda>txt. ret (ParseMountInfo txt))"

section \<open>Queries\<close>

definition ForcedReadOnly :: "mountinfo \<Rightarrow> bool" where
  "ForcedReadOnly m \<longleftrightarrow>
     (if ''emergency_ro'' \<in> set (SuperOptions m) \<or> ''shutdown'' \<in> set (SuperOptions m) then True
      else ''rw'' \<in> set (MountOptions m) \<and> ''ro'' \<in> set (SuperOptions m))"

definition LastAt :: "mountinfo list \<Rightarrow> string \<Rightarrow> mountinfo option" where
  "LastAt entries mp = find (\<lambda>e. MountPoint e = mp) (rev entries)"

record publishTarget =
  PodUID :: string
  Path :: string

text \<open>
  The regular expression \<^verbatim>\<open>/pods/([0-9a-f-]{36})/volumes/kubernetes\.io~csi/[^/]+/mount$\<close>: a
  match at one position, and the leftmost match.
\<close>

definition uidChar :: "char \<Rightarrow> bool" where
  "uidChar c \<longleftrightarrow> c \<in> set ''0123456789abcdef-''"

definition podMatchAt :: "string \<Rightarrow> string option" where
  "podMatchAt s =
     Option.bind (cutPrefix s ''/pods/'') (\<lambda>r.
       let uid = take 36 r in
       if length uid = 36 \<and> list_all uidChar uid then
         Option.bind (cutPrefix (drop 36 r) ''/volumes/kubernetes.io~csi/'') (\<lambda>t.
           if hasSuffix t ''/mount''
             \<and> (let v = take (length t - 6) t in v \<noteq> [] \<and> CHR ''/'' \<notin> set v)
           then Some uid else None)
       else None)"

fun podVolumePath :: "string \<Rightarrow> string option" where
  "podVolumePath [] = None"
| "podVolumePath (c # s) = (case podMatchAt (c # s) of Some u \<Rightarrow> Some u | None \<Rightarrow> podVolumePath s)"

fun PublishTargets :: "mountinfo list \<Rightarrow> string \<Rightarrow> publishTarget list" where
  "PublishTargets [] mm = []"
| "PublishTargets (e # es) mm =
     (if MajorMinor e \<noteq> mm then PublishTargets es mm
      else case podVolumePath (MountPoint e) of
        Some u \<Rightarrow> \<lparr>PodUID = u, Path = MountPoint e\<rparr> # PublishTargets es mm
      | None \<Rightarrow> PublishTargets es mm)"

section \<open>Lemmas\<close>

lemma stable_ReadMountInfo [kept]: "stable I \<Longrightarrow> keeps I (ReadMountInfo E p)"
  unfolding ReadMountInfo_def by (intro kept stable_sysc)

lemma find_split: "find P ys = Some x \<longleftrightarrow> (\<exists>a b. ys = a @ x # b \<and> P x \<and> (\<forall>y \<in> set a. \<not> P y))"
proof (induction ys)
  case (Cons y ys)
  show ?case
  proof (cases "P y")
    case True
    then show ?thesis by (auto simp: Cons_eq_append_conv)
  next
    case False
    have "(\<exists>a b. y # ys = a @ x # b \<and> P x \<and> (\<forall>y \<in> set a. \<not> P y)) \<longleftrightarrow>
        (\<exists>a b. ys = a @ x # b \<and> P x \<and> (\<forall>y \<in> set a. \<not> P y))" (is "?L \<longleftrightarrow> ?R")
    proof
      assume ?L
      then obtain a b where ab: "y # ys = a @ x # b" "P x" "\<forall>y \<in> set a. \<not> P y" by blast
      with False show ?R by (cases a) auto
    next
      assume ?R
      then obtain a b where "ys = a @ x # b" "P x" "\<forall>y \<in> set a. \<not> P y" by blast
      with False show ?L by (intro exI [of _ "y # a"] exI [of _ b]) simp
    qed
    with False Cons.IH show ?thesis by simp
  qed
qed simp

lemma LastAt_Some:
  "LastAt es mp = Some e \<longleftrightarrow> (\<exists>pre post. es = pre @ e # post \<and> MountPoint e = mp \<and> (\<forall>x \<in> set post. MountPoint x \<noteq> mp))"
  (is "_ \<longleftrightarrow> ?R")
proof
  assume "LastAt es mp = Some e"
  then obtain a b where ab: "rev es = a @ e # b" "MountPoint e = mp" "\<forall>y \<in> set a. MountPoint y \<noteq> mp"
    unfolding LastAt_def find_split by blast
  from ab(1) have "es = rev b @ e # rev a"
    by (simp add: rev_swap)
  with ab(2,3) show ?R by (intro exI [of _ "rev b"] exI [of _ "rev a"]) simp
next
  assume ?R
  then obtain pre post where p: "es = pre @ e # post" "MountPoint e = mp" "\<forall>x \<in> set post. MountPoint x \<noteq> mp"
    by blast
  then show "LastAt es mp = Some e"
    unfolding LastAt_def find_split by (intro exI [of _ "rev post"] exI [of _ "rev pre"]) simp
qed

lemma LastAt_None: "LastAt es mp = None \<longleftrightarrow> (\<forall>e \<in> set es. MountPoint e \<noteq> mp)"
  by (auto simp: LastAt_def find_None_iff)

lemma PublishTargets_iff:
  "t \<in> set (PublishTargets es mm) \<longleftrightarrow>
     (\<exists>e \<in> set es. MajorMinor e = mm \<and> podVolumePath (MountPoint e) = Some (PodUID t) \<and> Path t = MountPoint e)"
  by (induction es) (auto split: option.splits)

text \<open>
  The kernel writes space, tab, line feed and backslash of a path as a backslash and three
  octal digits (proc(5)); reading undoes it.
\<close>

definition octalDigits :: "char \<Rightarrow> string" where
  "octalDigits c = (let n = of_char c in [char_of (48 + n div 64), char_of (48 + n div 8 mod 8), char_of (48 + n mod 8 :: nat)])"

definition escaped :: "char list" where
  "escaped = [CHR 0x20, CHR 0x09, CHR 0x0A, CHR 0x5C]"

definition kernelEscape :: "string \<Rightarrow> string" where
  "kernelEscape s = concat (map (\<lambda>c. if c \<in> set escaped then CHR 0x5C # octalDigits c else [c]) s)"

lemma octal_escaped:
  "list_all (\<lambda>c. case octalDigits c of [a, b, d] \<Rightarrow> octal3 a b d = Some c | _ \<Rightarrow> False) escaped"
  by (simp add: escaped_def octalDigits_def octal3_def digit_def golib)

lemma octal3_octalDigits:
  "c \<in> set escaped \<Longrightarrow> octalDigits c = [a, b, d] \<Longrightarrow> octal3 a b d = Some c"
  using octal_escaped unfolding list_all_iff by force

lemma unescape_loop_kernelEscape: "unescape_loop (kernelEscape s) = s"
proof (induction s)
  case (Cons c s)
  have e: "kernelEscape (c # s) = (if c \<in> set escaped then CHR 0x5C # octalDigits c else [c]) @ kernelEscape s"
    by (simp add: kernelEscape_def)
  obtain a b d where o: "octalDigits c = [a, b, d]"
    by (simp add: octalDigits_def Let_def)
  show ?case
  proof (cases "c \<in> set escaped")
    case True
    from octal3_octalDigits [OF True o] show ?thesis
      unfolding e using True o Cons by simp
  next
    case False
    then show ?thesis
      unfolding e using Cons by (auto simp: escaped_def)
  qed
qed (simp add: kernelEscape_def)

lemma unescape_loop_id: "CHR 0x5C \<notin> set s \<Longrightarrow> unescape_loop s = s"
  by (induction s) auto

lemma contains_char: "contains s [c] \<longleftrightarrow> c \<in> set s"
  by (auto simp: contains_iff in_set_conv_decomp)

lemma unescapeOctal_kernelEscape: "unescapeOctal (kernelEscape s) = s"
  using unescape_loop_kernelEscape [of s] unescape_loop_id [of "kernelEscape s"]
  by (auto simp: unescapeOctal_def contains_char)

section \<open>Round trip with the kernel's format\<close>

text \<open>
  A line of \<^verbatim>\<open>mountinfo\<close> as proc(5) describes it: mount and parent id, device, root, mount
  point, mount options, optional fields, a separator, type, source, super options.
\<close>

definition mi_head :: "string \<Rightarrow> string \<Rightarrow> string \<Rightarrow> string list \<Rightarrow> mountinfo \<Rightarrow> string list" where
  "mi_head i par root opt m =
     [i, par, MajorMinor m, kernelEscape root, kernelEscape (MountPoint m), join '','' (MountOptions m)] @ opt"

definition mi_words :: "string \<Rightarrow> string \<Rightarrow> string \<Rightarrow> string list \<Rightarrow> mountinfo \<Rightarrow> string list" where
  "mi_words i par root opt m = mi_head i par root opt m
     @ [''-'', FSType m, kernelEscape (MSource m), join '','' (SuperOptions m)]"

text \<open>A word without white space, that of Unicode included.\<close>

fun noSpace :: "string \<Rightarrow> bool" where
  "noSpace [] \<longleftrightarrow> True"
| "noSpace (c # s) \<longleftrightarrow> spaceLen (c # s) = 0 \<and> noSpace s"

definition word_ok :: "string \<Rightarrow> bool" where
  "word_ok w \<longleftrightarrow> w \<noteq> [] \<and> noSpace w"

definition opts_ok :: "string list \<Rightarrow> bool" where
  "opts_ok os \<longleftrightarrow> os \<noteq> [] \<and> list_all (\<lambda>w. CHR '','' \<notin> set w) os"

definition line_ok :: "string \<times> string \<times> string \<times> string list \<times> mountinfo \<Rightarrow> bool" where
  "line_ok = (\<lambda>(i, par, root, opt, m).
     list_all word_ok (mi_words i par root opt m)
     \<and> ''-'' \<notin> set (mi_head i par root opt m)
     \<and> opts_ok (MountOptions m) \<and> opts_ok (SuperOptions m)
     \<and> length (join '' '' (mi_words i par root opt m)) < maxToken)"

definition mi_text :: "(string \<times> string \<times> string \<times> string list \<times> mountinfo) list \<Rightarrow> string" where
  "mi_text rows = concat (map (\<lambda>(i, par, root, opt, m). join '' '' (mi_words i par root opt m) @ [CHR 0x0A]) rows)"

lemma hasPrefix_before: "hasPrefix (x @ b # s) u \<Longrightarrow> b \<notin> set u \<Longrightarrow> hasPrefix x u"
  by (cases "length u \<le> length x") (simp_all add: hasPrefix_def take_Cons', metis in_set_conv_decomp)

lemma spaceLen_blank:
  assumes "spaceLen (c # x) = 0"
  shows "spaceLen (c # x @ CHR '' '' # s) = 0"
proof -
  have c: "\<not> isSpace c" "\<forall>u \<in> set wideSpaces. \<not> hasPrefix (c # x) u"
    using assms unfolding spaceLen_0 by simp_all
  have "\<forall>u \<in> set wideSpaces. CHR '' '' \<notin> set u" by (simp add: wideSpaces_def)
  then have "\<forall>u \<in> set wideSpaces. \<not> hasPrefix (c # x @ CHR '' '' # s) u"
    using c(2) hasPrefix_before [of "c # x" "CHR '' ''" s] by fastforce
  then show ?thesis using c(1) unfolding spaceLen_0 by simp
qed

lemma fields_aux_last: "noSpace w \<Longrightarrow> rev acc @ w \<noteq> [] \<Longrightarrow> fields_aux acc w = [rev acc @ w]"
  by (induction w arbitrary: acc) auto

lemma fields_aux_step: "noSpace w \<Longrightarrow> rev acc @ w \<noteq> [] \<Longrightarrow> fields_aux acc (w @ CHR '' '' # s) = (rev acc @ w) # fields_aux [] s"
  by (induction w arbitrary: acc) (auto simp: spaceLen_blank, simp add: spaceLen_def isSpace_def)

lemma strFields_join: "list_all word_ok ws \<Longrightarrow> strFields (join '' '' ws) = ws"
  unfolding strFields_def
proof (induction ws)
  case (Cons w ws)
  then show ?case
    by (cases ws) (simp_all add: fields_aux_last fields_aux_step word_ok_def)
qed simp

lemma slice_index_append: "x \<notin> set xs \<Longrightarrow> slice_index (xs @ x # ys) x = int (length xs)"
  by (induction xs) (auto simp: Let_def)

lemma parseFields_mi_words:
  assumes "line_ok (i, par, root, opt, m)"
  shows "parseFields (mi_words i par root opt m) = Some m"
proof -
  have "slice_index (mi_words i par root opt m) ''-'' = int (6 + length opt)"
    using slice_index_append [of "''-''" "mi_head i par root opt m"] assms
    by (simp add: mi_words_def line_ok_def) (simp add: mi_head_def)
  moreover have "split (CHR '','') (join '','' (MountOptions m)) = MountOptions m"
    "split (CHR '','') (join '','' (SuperOptions m)) = SuperOptions m"
    using assms by (auto simp: line_ok_def opts_ok_def list_all_iff intro!: split_join)
  ultimately show ?thesis
    by (simp add: parseFields_def mi_words_def mi_head_def nth_append unescapeOctal_kernelEscape nat_add_distrib nat_mult_distrib numeral_eq_Suc)
qed

lemma noSpace_ascii: "noSpace w \<Longrightarrow> c \<in> set w \<Longrightarrow> \<not> isSpace c"
  by (induction w) (auto simp: spaceLen_0)

lemma word_ok_last: "word_ok w \<Longrightarrow> \<not> isSpace (last w)"
  using noSpace_ascii [of w "last w"] by (auto simp: word_ok_def)

lemma set_join: "set (join sep ws) \<subseteq> (\<Union>w \<in> set ws. set w) \<union> set sep"
  by (induction sep ws rule: join.induct) auto

lemma last_join: "ws \<noteq> [] \<Longrightarrow> last ws \<noteq> [] \<Longrightarrow> last (join sep ws) = last (last ws) \<and> join sep ws \<noteq> []"
  by (induction sep ws rule: join.induct) auto

lemma dropCR_line:
  assumes "list_all word_ok ws" "ws \<noteq> []"
  shows "dropCR (join '' '' ws) = join '' '' ws"
proof -
  have "word_ok (last ws)" using assms by (simp add: list_all_iff)
  then have "last (join '' '' ws) \<noteq> CHR 0x0D"
    using last_join [OF assms(2), of "'' ''"] word_ok_last [of "last ws"]
    by (auto simp: word_ok_def isSpace_def)
  then show ?thesis by (simp add: dropCR_def)
qed

lemma line_no_newline:
  assumes "list_all word_ok ws"
  shows "CHR 0x0A \<notin> set (join '' '' ws)"
proof -
  have "CHR 0x0A \<notin> set w" if "w \<in> set ws" for w
    using assms that noSpace_ascii [of w "CHR 0x0A"] by (auto simp: list_all_iff word_ok_def isSpace_def)
  then show ?thesis using set_join [of "'' ''" ws] by auto
qed

lemma split_lines:
  "list_all (\<lambda>l. CHR 0x0A \<notin> set l) ls \<Longrightarrow> split (CHR 0x0A) (concat (map (\<lambda>l. l @ [CHR 0x0A]) ls)) = ls @ [[]]"
  by (induction ls) (simp_all add: split_append_sep)

lemma scanLines_lines:
  "list_all (\<lambda>l. CHR 0x0A \<notin> set l) ls \<Longrightarrow> scanLines (concat (map (\<lambda>l. l @ [CHR 0x0A]) ls)) = ls"
  by (simp add: scanLines_def split_lines)

lemma parseLines_rows:
  assumes "list_all line_ok rows"
  shows "parseLines out (map (\<lambda>(i, par, root, opt, m). join '' '' (mi_words i par root opt m)) rows)
       = Inr (out @ map (\<lambda>(i, par, root, opt, m). m) rows)"
  using assms
proof (induction rows arbitrary: out)
  case (Cons row rows)
  obtain i par root opt m where row: "row = (i, par, root, opt, m)" by (cases row)
  from Cons.prems have ok: "line_ok (i, par, root, opt, m)" by (simp add: row)
  then have ws: "list_all word_ok (mi_words i par root opt m)" and l: "\<not> maxToken \<le> length (join '' '' (mi_words i par root opt m))"
    by (simp_all add: line_ok_def)
  have ne: "mi_words i par root opt m \<noteq> []" by (simp add: mi_words_def)
  show ?case
    using Cons ok l ne by (simp add: row dropCR_line [OF ws ne] strFields_join [OF ws] parseFields_mi_words [OF ok])
qed simp

lemma ParseMountInfo_rows:
  assumes "list_all line_ok rows"
  shows "ParseMountInfo (mi_text rows) = Inr (map (\<lambda>(i, par, root, opt, m). m) rows)"
proof -
  let ?ls = "map (\<lambda>(i, par, root, opt, m). join '' '' (mi_words i par root opt m)) rows"
  have "list_all (\<lambda>l. CHR 0x0A \<notin> set l) ?ls"
    using assms by (auto simp: list_all_iff line_ok_def line_no_newline [unfolded list_all_iff])
  moreover have "mi_text rows = concat (map (\<lambda>l. l @ [CHR 0x0A]) ?ls)"
    by (auto simp: mi_text_def intro!: arg_cong [where f = concat])
  ultimately show ?thesis
    using parseLines_rows [OF assms, of "[]"] by (simp only: ParseMountInfo_def scanLines_lines append_Nil)
qed

text \<open>
  Other white space the kernel leaves as it is, and the parser takes it for the end of a
  field: a mount point with U+00A0 in it is cut there, and its rest becomes the options.
\<close>

lemma wide_space_cuts:
  "parseFields (strFields (join '' '' (mi_words ''36'' ''35'' ''/'' []
      \<lparr>MajorMinor = ''98:0'', MountPoint = ''/a'' @ [CHR 0xC2, CHR 0xA0] @ ''b'', MountOptions = [''rw''],
       FSType = ''ext4'', MSource = ''/dev/loop0'', SuperOptions = [''ro'']\<rparr>)))
   = Some \<lparr>MajorMinor = ''98:0'', MountPoint = ''/a'', MountOptions = [''b''],
       FSType = ''ext4'', MSource = ''/dev/loop0'', SuperOptions = [''ro'']\<rparr>"
  by code_simp

text \<open>
  C26: Reading \<^verbatim>\<open>mountinfo\<close> recovers what the kernel wrote. For any table of mounts whose
  words have no white space, that of Unicode included, beyond the blank, tab and line feed
  that the kernel escapes, parsing the text of proc(5), escapes and optional fields
  included, gives exactly the device, mount point, options, type, source and super
  options of every row, in order.
\<close>

theorem ParseMountInfo_roundtrip:
  assumes "list_all line_ok rows"
  shows "ParseMountInfo (mi_text rows) = Inr (map (\<lambda>(i, par, root, opt, m). m) rows)"
  by (rule ParseMountInfo_rows [OF assms])

end
