(* ===== verification/Sim.thy ===== *)
theory Sim
  imports Image Mountinfo
begin

text \<open>
  A small machine: one concrete instance of the \<^typ>\<open>'w host\<close> parameter, with files, a mount
  table and descriptors, for which the laws assumed about the operating system hold. The
  examples that apply the properties run on it.
\<close>

record sim =
  sFiles :: "(string, finfo) gomap"
  sMounts :: "string list"
  sFds :: "nat list"

definition simMounted :: "sim \<Rightarrow> string list" where
  "simMounted w = filter (\<lambda>t. t \<noteq> [] \<and> row_is t t \<and> gm_get (sFiles w) t \<noteq> None) (sMounts w)"

text \<open>\<^verbatim>\<open>findmnt\<close> with a target prints it when it is mounted, \<^verbatim>\<open>mount\<close> and \<^verbatim>\<open>umount\<close> do what they say.\<close>

definition simWait :: "cmd \<Rightarrow> sim \<Rightarrow> (string \<times> (int \<times> goerr) option) \<times> sim" where
  "simWait c w =
     (if cName c = ''findmnt'' then
        ((if last (cArgs c) \<in> set (simMounted w) then last (cArgs c)
          else if last (cArgs c) = [] then ''-'' else [], None), w)
      else if cName c = ''umount'' then (([], None), w\<lparr>sMounts := remove1 (last (cArgs c)) (sMounts w)\<rparr>)
      else if cName c = ''mount'' then (([], None), w\<lparr>sMounts := sMounts w @ [last (cArgs c)]\<rparr>)
      else (([], None), w))"

definition simStat :: "string \<Rightarrow> sim \<Rightarrow> (goerr + finfo) \<times> sim" where
  "simStat p w = (case gm_get (sFiles w) p of Some fi \<Rightarrow> Inr fi | None \<Rightarrow> Inl (Sentinel ErrNotExist), w)"

definition simRemove :: "string \<Rightarrow> sim \<Rightarrow> (goerr + unit) \<times> sim" where
  "simRemove p w = (case gm_get (sFiles w) p of
       None \<Rightarrow> (Inl (Sentinel ErrNotExist), w)
     | Some _ \<Rightarrow> (Inr (), w\<lparr>sFiles := gm_del p (sFiles w)\<rparr>))"

definition simOpen :: "string \<Rightarrow> sim \<Rightarrow> (goerr + unit) \<times> sim" where
  "simOpen p w = (Inr (), case gm_get (sFiles w) p of
       None \<Rightarrow> w\<lparr>sFiles := gm_put p \<lparr>fi_size = 0, fi_dir = False\<rparr> (sFiles w)\<rparr> | Some _ \<Rightarrow> w)"

definition simPipe :: "sim \<Rightarrow> (goerr + nat \<times> nat) \<times> sim" where
  "simPipe w = (let r = Suc (sum_list (sFds w)); x = Suc r in (Inr (r, x), w\<lparr>sFds := r # x # sFds w\<rparr>))"

definition simHost :: "sim host" where
  "simHost = \<lparr>
     h_pipe = simPipe,
     h_closeFd = (\<lambda>fd w. ((), w\<lparr>sFds := filter (\<lambda>x. x \<noteq> fd) (sFds w)\<rparr>)),
     h_writeFd = (\<lambda>fd b w. ((), w)),
     h_start = (\<lambda>c ex w. (Inr (), w)),
     h_wait = simWait,
     h_stat = simStat,
     h_mkdirAll = (\<lambda>p w. (Inr (), w\<lparr>sFiles := gm_put p \<lparr>fi_size = 0, fi_dir = True\<rparr> (sFiles w)\<rparr>)),
     h_remove = simRemove,
     h_readDir = (\<lambda>p w. (Inr [], w)),
     h_readFile = (\<lambda>p w. (Inl (Sentinel ErrNotExist), w)),
     h_open = (\<lambda>p w. (Inr (), w)),
     h_openRW = simOpen,
     h_openTrunc = simOpen,
     h_ftruncate = (\<lambda>p n w. (Inr (), w\<lparr>sFiles := gm_put p \<lparr>fi_size = n, fi_dir = False\<rparr> (sFiles w)\<rparr>)),
     h_read = (\<lambda>p off n w. (([], Some (Sentinel EOF)), w)),
     h_readAt = (\<lambda>p off n w. (([], Some (Sentinel EOF)), w)),
     h_flock = (\<lambda>p w. (Inr (), w)),
     h_write = (\<lambda>p b w. (Inr (), w)),
     h_sync = (\<lambda>p w. (Inr (), w)),
     h_close = (\<lambda>p w. (Inr (), w)),
     h_rename = (\<lambda>p q w. (Inr (), w)),
     h_globDm = (\<lambda>p w. (Inr [], w)),
     h_statfs = (\<lambda>p w. (Inr \<lparr>st_bsize = 4096, st_blocks = 0, st_bavail = 0, st_files = 0, st_ffree = 0\<rparr>, w)),
     h_pagesize = 4096,
     h_now = (\<lambda>w. (0, w)),
     h_answers = (\<lambda>p w. (True, w)),
     h_ready = (\<lambda>p w. (True, w)),
     h_http = (\<lambda>rq w. (Inr (200, []), w))\<rparr>"

definition simBoot :: "sim sys" where
  "simBoot = \<lparr>world = \<lparr>sFiles = [], sMounts = [], sFds = []\<rparr>, calls = []\<rparr>"

lemma sim_exec: "run_state (osRunCmd simHost (plain n as)) w =
    ((fst (fst (simWait (plain n as) w)), None), snd (simWait (plain n as) w))"
  by (simp add: osRunCmd_def closeAll_def feedSecrets_def simHost_def simWait_def)

lemma sim_fs_law: "fs_law simHost (\<lambda>w. gm_get (sFiles w))"
proof -
  have "stat_law simHost (\<lambda>w. gm_get (sFiles w))"
    by (auto simp: stat_law_def simHost_def simStat_def split: option.splits)
  moreover have "openRW_law simHost (\<lambda>w. gm_get (sFiles w))"
    by (auto simp: openRW_law_def simHost_def simOpen_def gm_get_put split: option.splits)
  moreover have "ftruncate_law simHost (\<lambda>w. gm_get (sFiles w))"
    by (auto simp: ftruncate_law_def simHost_def gm_get_put)
  moreover have "remove_law simHost (\<lambda>w. gm_get (sFiles w))"
    by (auto simp: remove_law_def simHost_def simRemove_def gm_get_del split: option.splits)
  ultimately show ?thesis
    unfolding fs_law_def sim_exec by (simp add: simHost_def simWait_def)
qed

lemma sim_findmnt_law: "findmnt_law simHost simMounted"
  unfolding findmnt_law_def sim_exec fst_conv snd_conv
proof (intro conjI allI impI)
  fix t w
  assume "\<not> isl (fst (h_stat simHost t w))"
  have "row_is t t" if "t \<in> set (simMounted w)"
    using that by (simp add: simMounted_def)
  moreover have "\<not> row_is t []" if "t \<noteq> []"
    using that by (simp add: row_is_def)
  moreover have "\<not> row_is [] ''-''"
    by (simp add: row_is_def trimSpace_ascii isSpace_def)
  ultimately show "row_is t (fst (fst (simWait (plain ''findmnt'' [''-n'', ''-o'', ''TARGET'', t]) w))) = (t \<in> set (simMounted w))"
    by (simp add: simWait_def)
qed (auto simp: simHost_def simStat_def simWait_def simMounted_def split: option.splits)

lemma sim_pipe_law: "pipe_law simHost (\<lambda>w. set (sFds w))"
proof -
  have "x \<noteq> Suc (sum_list xs)" "x \<noteq> Suc (Suc (sum_list xs))" if "x \<in> set xs" for x :: nat and xs
    using member_le_sum_list [OF that] by simp_all
  then show ?thesis
    by (auto simp: pipe_law_def simHost_def simPipe_def simWait_def Let_def)
qed

end
