(* ===== verification/Sha256.thy ===== *)
theory Sha256
  imports Go_Lib "HOL-Library.Word"
begin

text \<open>
  \<^verbatim>\<open>crypto/sha256\<close> and \<^verbatim>\<open>encoding/hex\<close>, as far as \<^verbatim>\<open>store.hashID\<close> uses them: SHA-256 of FIPS 180-4
  on a byte string, and lower-case hexadecimal.
\<close>

unbundle bit_operations_syntax

type_synonym word32 = "32 word"

text \<open>
  The constants are the first 32 bits after the point of the cube roots (square roots for the
  initial state) of the first primes. \<open>root_bits k b n r\<close> finds \<open>b\<close> further bits of the \<open>k\<close>-th root
  of \<open>n\<close>, from the top.
\<close>

fun root_bits :: "nat \<Rightarrow> nat \<Rightarrow> int \<Rightarrow> int \<Rightarrow> int" where
  "root_bits k 0 n r = r"
| "root_bits k (Suc b) n r = root_bits k b n (if (r + 2 ^ b) ^ k \<le> n then r + 2 ^ b else r)"

definition small_primes :: "int list" where
  "small_primes = filter (\<lambda>n. list_all (\<lambda>d. n mod d \<noteq> 0) [2..n - 1]) [2..311]"

definition frac_root :: "nat \<Rightarrow> int \<Rightarrow> word32" where
  "frac_root k p = word_of_int (root_bits k 35 (p * 2 ^ (32 * k)) 0)"

definition sha_k :: "word32 list" where
  "sha_k = map (frac_root 3) small_primes"

definition rotr :: "nat \<Rightarrow> word32 \<Rightarrow> word32" where
  "rotr n x = drop_bit n x OR push_bit (32 - n) x"

text \<open>The hash state, the registers \<open>a\<close> to \<open>h\<close>.\<close>

type_synonym sha_state = "word32 \<times> word32 \<times> word32 \<times> word32 \<times> word32 \<times> word32 \<times> word32 \<times> word32"

definition sha_init :: sha_state where
  "sha_init = (frac_root 2 2, frac_root 2 3, frac_root 2 5, frac_root 2 7,
     frac_root 2 11, frac_root 2 13, frac_root 2 17, frac_root 2 19)"

definition sha_round :: "sha_state \<Rightarrow> word32 \<times> word32 \<Rightarrow> sha_state" where
  "sha_round st kw = (case (st, kw) of ((a, b, c, d, e, f, g, h), (k, w)) \<Rightarrow>
     let t1 = h + (rotr 6 e XOR rotr 11 e XOR rotr 25 e) + ((e AND f) XOR (NOT e AND g)) + k + w;
         t2 = (rotr 2 a XOR rotr 13 a XOR rotr 22 a) + ((a AND b) XOR (a AND c) XOR (b AND c))
     in (t1 + t2, a, b, c, d + t1, e, f, g))"

text \<open>The message schedule; the list holds the words so far, the last one first.\<close>

fun sha_schedule :: "nat \<Rightarrow> word32 list \<Rightarrow> word32 list" where
  "sha_schedule 0 ws = ws"
| "sha_schedule (Suc n) ws =
     (let w2 = ws ! 1; w15 = ws ! 14;
          s1 = rotr 17 w2 XOR rotr 19 w2 XOR drop_bit 10 w2;
          s0 = rotr 7 w15 XOR rotr 18 w15 XOR drop_bit 3 w15
      in sha_schedule n ((s1 + ws ! 6 + s0 + ws ! 15) # ws))"

definition sha_block :: "sha_state \<Rightarrow> word32 list \<Rightarrow> sha_state" where
  "sha_block st ws = (case (st, foldl sha_round st (zip sha_k (rev (sha_schedule 48 (rev ws))))) of
     ((a, b, c, d, e, f, g, h), (a', b', c', d', e', f', g', h')) \<Rightarrow>
       (a + a', b + b', c + c', d + d', e + e', f + f', g + g', h + h'))"

text \<open>Bytes as numbers below 256, most significant first.\<close>

fun be_bytes :: "nat \<Rightarrow> int \<Rightarrow> int list" where
  "be_bytes 0 n = []"
| "be_bytes (Suc k) n = be_bytes k (n div 256) @ [n mod 256]"

fun be_words :: "int list \<Rightarrow> word32 list" where
  "be_words (a # b # c # d # bs) = word_of_int (((a * 256 + b) * 256 + c) * 256 + d) # be_words bs"
| "be_words _ = []"

definition sha_pad :: "int list \<Rightarrow> int list" where
  "sha_pad bs = bs @ 128 # replicate ((119 - length bs mod 64) mod 64) 0 @ be_bytes 8 (8 * int (length bs) mod 2 ^ 64)"

fun sha_blocks :: "nat \<Rightarrow> sha_state \<Rightarrow> word32 list \<Rightarrow> sha_state" where
  "sha_blocks 0 st ws = st"
| "sha_blocks (Suc n) st ws = sha_blocks n (sha_block st (take 16 ws)) (drop 16 ws)"

definition sha256 :: "string \<Rightarrow> int list" where
  "sha256 s = (let bs = sha_pad (map of_char s) in
     case sha_blocks (length bs div 64) sha_init (be_words bs) of (a, b, c, d, e, f, g, h) \<Rightarrow>
       concat (map (\<lambda>w. be_bytes 4 (uint w)) [a, b, c, d, e, f, g, h]))"

definition hex_digit :: "int \<Rightarrow> char" where
  "hex_digit n = ''0123456789abcdef'' ! nat n"

definition hexEncode :: "int list \<Rightarrow> string" where
  "hexEncode bs = concat (map (\<lambda>b. [hex_digit (b div 16), hex_digit (b mod 16)]) bs)"

section \<open>Lemmas\<close>

lemma root_bits_is_root:
  assumes "0 \<le> r" "r ^ k \<le> n" "n < (r + 2 ^ b) ^ k"
  shows "root_bits k b n r ^ k \<le> n \<and> n < (root_bits k b n r + 1) ^ k"
  using assms by (induction k b n r rule: root_bits.induct) (auto simp: algebra_simps)

lemma frac_root_is_root:
  assumes "0 < k" "0 \<le> p" "p < 8 ^ k"
  shows "\<exists>r. frac_root k p = word_of_int r \<and> r ^ k \<le> p * 2 ^ (32 * k) \<and> p * 2 ^ (32 * k) < (r + 1) ^ k"
proof -
  have "p * 2 ^ (32 * k) < 8 ^ k * 2 ^ (32 * k)" using assms(3) by simp
  also have "(8 :: int) ^ k * 2 ^ (32 * k) = (2 ^ 35) ^ k"
    by (simp add: power_mult flip: power_mult_distrib)
  finally show ?thesis
    using root_bits_is_root [of 0 k "p * 2 ^ (32 * k)" 35] assms(1,2)
    by (intro exI [of _ "root_bits k 35 (p * 2 ^ (32 * k)) 0"]) (simp add: frac_root_def zero_power)
qed

lemma length_be_bytes [simp]: "length (be_bytes k n) = k"
  by (induction k arbitrary: n) simp_all

lemma be_bytes_bound: "b \<in> set (be_bytes k n) \<Longrightarrow> 0 \<le> b \<and> b < 256"
  by (induction k arbitrary: n) auto

lemma length_sha256: "length (sha256 s) = 32"
  by (simp add: sha256_def Let_def split: prod.splits)

lemma sha256_bound: "b \<in> set (sha256 s) \<Longrightarrow> 0 \<le> b \<and> b < 256"
  by (auto simp: sha256_def Let_def dest: be_bytes_bound split: prod.splits)

definition lowerHex :: "char \<Rightarrow> bool" where
  "lowerHex c \<longleftrightarrow> c \<in> set ''0123456789abcdef''"

lemma lowerHex_hex_digit: "0 \<le> n \<Longrightarrow> n < 16 \<Longrightarrow> lowerHex (hex_digit n)"
  unfolding lowerHex_def hex_digit_def by (intro nth_mem) simp

lemma lowerHex_hexEncode: "list_all (\<lambda>b. 0 \<le> b \<and> b < 256) bs \<Longrightarrow> list_all lowerHex (hexEncode bs)"
  unfolding hexEncode_def by (induction bs) (auto intro!: lowerHex_hex_digit)

lemma length_hexEncode: "length (hexEncode bs) = 2 * length bs"
  unfolding hexEncode_def by (induction bs) simp_all

end
