(* ===== verification/Crypt.thy ===== *)
theory Crypt
  imports Image Sha256
begin

text \<open>
  \<^verbatim>\<open>pkg/crypt\<close>: LUKS2 between a volume's loop device and its file system (\<^verbatim>\<open>crypt.go\<close>), and the
  open mappings as sysfs lists them (\<^verbatim>\<open>sysfs.go\<close>). \<^verbatim>\<open>cryptsetup\<close> is a parameter like every
  program; \<open>query_law\<close>, \<open>test_law\<close>, \<open>slot_law\<close> and \<open>header_law\<close> say what is assumed of its
  effect on a device's header.
\<close>

section \<open>Commands\<close>

definition MinKeyLen :: nat where
  "MinKeyLen = 32"

definition mapperPrefix :: string where
  "mapperPrefix = ''fbcrypt-''"

definition labelUnformatted :: string where
  "labelUnformatted = ''fileblock-unformatted''"

definition labelFormatted :: string where
  "labelFormatted = ''fileblock''"

definition blankCheckBytes :: nat where
  "blankCheckBytes = 16 * 2 ^ 20"

definition pbkdfIterations :: string where
  "pbkdfIterations = ''1000''"

record format =
  Cipher :: string
  KeySize :: nat

definition DefaultFormat :: format where
  "DefaultFormat = \<lparr>Cipher = ''aes-xts-plain64'', KeySize = 512\<rparr>"

record keys =
  Current :: string
  Previous :: string

datatype outcome = OutcomeNone | OutcomeFormatted | OutcomeRotated | OutcomeFinishedInterruptedRotation

definition MapperName :: "string \<Rightarrow> string" where
  "MapperName volumeID = mapperPrefix @ take 24 (hexEncode (sha256 volumeID))"

definition MapperPath :: "string \<Rightarrow> string" where
  "MapperPath name = ''/dev/mapper/'' @ name"

text \<open>The command line of every call, with the secrets it hands over on descriptors.\<close>

definition cryptsetup :: "string list \<Rightarrow> string list \<Rightarrow> cmd" where
  "cryptsetup secrets args = \<lparr>cName = ''cryptsetup'', cArgs = args, cEnv = [''DM_DISABLE_UDEV=1''], cSecrets = secrets\<rparr>"

definition luksFormatCmd :: "string \<Rightarrow> string \<Rightarrow> format \<Rightarrow> cmd" where
  "luksFormatCmd dev cur f = cryptsetup [cur] [''luksFormat'', ''--batch-mode'', ''--type'', ''luks2'',
     ''--cipher'', Cipher f, ''--key-size'', itoa (KeySize f), ''--sector-size'', itoa (nat DefaultBlockSize),
     ''--pbkdf'', ''pbkdf2'', ''--pbkdf-force-iterations'', pbkdfIterations, ''--label'', labelUnformatted,
     ''--key-file'', SecretFD 0, dev]"

definition openCmd :: "string \<Rightarrow> string \<Rightarrow> string \<Rightarrow> cmd" where
  "openCmd dev name cur = cryptsetup [cur] [''open'', ''--type'', ''luks2'', ''--disable-keyring'', ''--key-file'', SecretFD 0, dev, name]"

definition luksDumpCmd :: "string \<Rightarrow> cmd" where
  "luksDumpCmd dev = cryptsetup [] [''luksDump'', dev]"

definition relabelCmd :: "string \<Rightarrow> cmd" where
  "relabelCmd dev = cryptsetup [] [''config'', ''--label'', labelFormatted, dev]"

definition luksAddKeyCmd :: "string \<Rightarrow> string \<Rightarrow> string \<Rightarrow> cmd" where
  "luksAddKeyCmd dev prev cur = cryptsetup [prev, cur] [''luksAddKey'', ''--batch-mode'', ''--pbkdf'', ''pbkdf2'',
     ''--pbkdf-force-iterations'', pbkdfIterations, ''--key-file'', SecretFD 0, dev, SecretFD 1]"

definition luksRemoveKeyCmd :: "string \<Rightarrow> string \<Rightarrow> cmd" where
  "luksRemoveKeyCmd dev prev = cryptsetup [prev] [''luksRemoveKey'', ''--batch-mode'', ''--key-file'', SecretFD 0, dev]"

definition testCmd :: "string \<Rightarrow> string \<Rightarrow> cmd" where
  "testCmd dev key = cryptsetup [key] [''open'', ''--test-passphrase'', ''--type'', ''luks2'', ''--key-file'', SecretFD 0, dev]"

definition isLuksCmd :: "string \<Rightarrow> cmd" where
  "isLuksCmd dev = cryptsetup [] [''isLuks'', dev]"

definition dumpJsonCmd :: "string \<Rightarrow> cmd" where
  "dumpJsonCmd dev = cryptsetup [] [''luksDump'', ''--dump-json-metadata'', dev]"

definition closeCmd :: "string \<Rightarrow> cmd" where
  "closeCmd name = cryptsetup [] [''close'', name]"

definition resizeCmd :: "string \<Rightarrow> cmd" where
  "resizeCmd name = cryptsetup [] [''resize'', name]"

definition exitCode :: "goerr \<Rightarrow> int" where
  "exitCode e = (case as_exec e of Some ee \<Rightarrow> ee_code ee | None \<Rightarrow> -1)"

definition RunCmdE :: "'w host \<Rightarrow> cmd \<Rightarrow> (('w, 'm) sys_scheme, goerr + string) state" where
  "RunCmdE E c = do { r \<leftarrow> RunCmd E c; ret (asErr r) }"

section \<open>Operations\<close>

definition opens :: "'w host \<Rightarrow> string \<Rightarrow> string \<Rightarrow> (('w, 'm) sys_scheme, goerr + bool) state" where
  "opens E dev key = do {
     r \<leftarrow> RunCmdE E (testCmd dev key);
     ret (case r of Inr _ \<Rightarrow> Inr True
          | Inl e \<Rightarrow> if exitCode e = 2 then Inr False else Inl (Wrap ''test passphrase'' e))
   }"

definition isLuks :: "'w host \<Rightarrow> string \<Rightarrow> (('w, 'm) sys_scheme, goerr + bool) state" where
  "isLuks E dev = do {
     r \<leftarrow> RunCmdE E (isLuksCmd dev);
     ret (case r of Inr _ \<Rightarrow> Inr True
          | Inl e \<Rightarrow> if exitCode e = 1 then Inr False else Inl (Wrap ''isLuks'' e))
   }"

text \<open>
  \<^verbatim>\<open>os.File.Read\<close> turns a read of no bytes without an error into \<^verbatim>\<open>io.EOF\<close>, so the loop ends: every
  round but the last advances.
\<close>

function blankLoop :: "'w host \<Rightarrow> string \<Rightarrow> nat \<Rightarrow> (('w, 'm) sys_scheme, goerr + bool) state" where
  "blankLoop E dev rd =
     (if \<not> rd < blankCheckBytes then ret (Inr True)
      else State_Monad.bind (sysc (h_read E dev rd (min (2 ^ 20) (blankCheckBytes - rd)))) (\<lambda>(buf, err).
        if list_ex (\<lambda>c. c \<noteq> CHR 0x00) buf then ret (Inr False)
        else case err of
          Some e \<Rightarrow> ret (if error_is e EOF then Inr True else Inl (Wrap ''read'' e))
        | None \<Rightarrow> if buf = [] then ret (Inr True) else blankLoop E dev (rd + length buf)))"
  by pat_completeness auto
termination
  by (relation "measure (\<lambda>(E, dev, rd). blankCheckBytes - rd)") (auto intro!: diff_less_mono2)

declare blankLoop.simps [simp del]

definition isBlank :: "'w host \<Rightarrow> string \<Rightarrow> (('w, 'm) sys_scheme, goerr + bool) state" where
  "isBlank E dev = onErr (sysc (h_open E dev)) id (\<lambda>_. do {
     r \<leftarrow> blankLoop E dev 0;
     ignore (sysc (h_close E dev));
     ret r
   })"

definition luksLabel :: "string \<Rightarrow> string" where
  "luksLabel dump = (case find (\<lambda>l. hasPrefix l ''Label:'') (split (CHR 0x0A) dump) of
     Some l \<Rightarrow> trimSpace (drop 6 l) | None \<Rightarrow> [])"

text \<open>The end of \<^verbatim>\<open>rotate\<close>: the current key is added unless it is there, then the previous one removed.\<close>

definition swapSlots :: "'w host \<Rightarrow> string \<Rightarrow> keys \<Rightarrow> bool \<Rightarrow> (('w, 'm) sys_scheme, goerr + outcome) state" where
  "swapSlots E dev k cur =
     onErr (if \<not> cur then RunCmdE E (luksAddKeyCmd dev (Previous k) (Current k)) else ret (Inr [])) (Wrap ''luksAddKey'') (\<lambda>_.
       onErr (RunCmdE E (luksRemoveKeyCmd dev (Previous k))) (Wrap ''luksRemoveKey'') (\<lambda>_.
         ret (Inr (if cur then OutcomeFinishedInterruptedRotation else OutcomeRotated))))"

definition rotate :: "'w host \<Rightarrow> string \<Rightarrow> keys \<Rightarrow> (('w, 'm) sys_scheme, goerr + outcome) state" where
  "rotate E dev k = onErr (opens E dev (Current k)) id (\<lambda>cur.
     if Previous k = [] \<or> Previous k = Current k
     then ret (if \<not> cur then Inl (Wrap dev (Sentinel ErrWrongKey)) else Inr OutcomeNone)
     else onErr (opens E dev (Previous k)) id (\<lambda>prev.
       if \<not> cur \<and> \<not> prev then ret (Inl (Wrap dev (Sentinel ErrWrongKey)))
       else if \<not> prev then ret (Inr OutcomeNone)
       else swapSlots E dev k cur))"

definition cryptClose :: "'w host \<Rightarrow> string \<Rightarrow> (('w, 'm) sys_scheme, goerr + unit) state" where
  "cryptClose E name = do {
     r \<leftarrow> RunCmdE E (closeCmd name);
     ret (case r of Inr _ \<Rightarrow> Inr () | Inl e \<Rightarrow> if exitCode e = 4 then Inr () else Inl (Wrap ''close'' e))
   }"

definition cryptResize :: "'w host \<Rightarrow> string \<Rightarrow> (('w, 'm) sys_scheme, goerr + unit) state" where
  "cryptResize E name = onErr (RunCmdE E (resizeCmd name)) (Wrap ''resize'') (\<lambda>_. ret (Inr ()))"

definition ensureFilesystem :: "'w host \<Rightarrow> string \<Rightarrow> string \<Rightarrow> (('w, 'm) sys_scheme, goerr + unit) state" where
  "ensureFilesystem E dev path = onErr (RunCmdE E (luksDumpCmd dev)) (Wrap ''luksDump'') (\<lambda>out.
     if luksLabel out \<noteq> labelUnformatted then ret (Inr ())
     else onErr (Mkfs E path) id (\<lambda>_.
       onErr (RunCmdE E (relabelCmd dev)) (Wrap ''relabel'') (\<lambda>_. ret (Inr ()))))"

text \<open>The first step of \<^verbatim>\<open>Prepare\<close>: a header, made on a blank device only.\<close>

definition ensureLuks :: "'w host \<Rightarrow> string \<Rightarrow> keys \<Rightarrow> format \<Rightarrow> (('w, 'm) sys_scheme, goerr + outcome) state" where
  "ensureLuks E dev k f = onErr (isLuks E dev) id (\<lambda>luks.
     if luks then ret (Inr OutcomeNone)
     else onErr (isBlank E dev) id (\<lambda>blank.
       if \<not> blank then ret (Inl (Wrap dev (Sentinel ErrNotBlank)))
       else onErr (RunCmdE E (luksFormatCmd dev (Current k) f)) (Wrap ''luksFormat'') (\<lambda>_.
         ret (Inr OutcomeFormatted))))"

text \<open>The rest of it: rotation, the mapping, the file system.\<close>

definition openMapped :: "'w host \<Rightarrow> string \<Rightarrow> string \<Rightarrow> keys \<Rightarrow> outcome \<Rightarrow> (('w, 'm) sys_scheme, goerr + string \<times> outcome) state" where
  "openMapped E dev name k outcome = onErr (rotate E dev k) id (\<lambda>rotated.
     onErr (RunCmdE E (openCmd dev name (Current k))) (Wrap ''open'') (\<lambda>_. do {
       r \<leftarrow> ensureFilesystem E dev (MapperPath name);
       case r of
         Inl e \<Rightarrow> do {
           c \<leftarrow> cryptClose E name;
           ret (Inl (case c of Inl e' \<Rightarrow> Joined e e' | Inr _ \<Rightarrow> e))
         }
       | Inr _ \<Rightarrow> ret (Inr (MapperPath name, if outcome = OutcomeNone then rotated else outcome))
     }))"

definition Prepare :: "'w host \<Rightarrow> string \<Rightarrow> string \<Rightarrow> keys \<Rightarrow> format \<Rightarrow> (('w, 'm) sys_scheme, goerr + string \<times> outcome) state" where
  "Prepare E dev name k f = onErr (ensureLuks E dev k f) id (openMapped E dev name k)"

text \<open>The part of the LUKS2 metadata \<^verbatim>\<open>SectorSize\<close> decodes: \<^verbatim>\<open>segments\<close>, a map to \<^verbatim>\<open>sector_size\<close>.\<close>

definition segmentSize :: "json \<Rightarrow> int option" where
  "segmentSize j = (case j of JNull \<Rightarrow> Some 0
     | JObj ms \<Rightarrow> (case jfield ''sector_size'' ms of None \<Rightarrow> Some 0 | Some JNull \<Rightarrow> Some 0
         | Some (JNum n) \<Rightarrow> atoi n | Some _ \<Rightarrow> None)
     | _ \<Rightarrow> None)"

definition luksSegments :: "string \<Rightarrow> (string \<times> int) list option" where
  "luksSegments out = (case json_parse out of
       Some JNull \<Rightarrow> Some []
     | Some (JObj ms) \<Rightarrow> (case jfield ''segments'' ms of None \<Rightarrow> Some [] | Some JNull \<Rightarrow> Some []
         | Some (JObj segs) \<Rightarrow> jall (\<lambda>(key, v). map_option (Pair key) (segmentSize v)) segs
         | Some _ \<Rightarrow> None)
     | _ \<Rightarrow> None)"

definition cryptSectorSize :: "'w host \<Rightarrow> string \<Rightarrow> (('w, 'm) sys_scheme, goerr + int) state" where
  "cryptSectorSize E dev = onErr (isLuks E dev) id (\<lambda>luks.
     if \<not> luks then ret (Inr 0)
     else onErr (RunCmdE E (dumpJsonCmd dev)) (Wrap ''luksDump'') (\<lambda>out.
       ret (case luksSegments out of
              None \<Rightarrow> Inl (Msg ''parse LUKS2 metadata'')
            | Some segs \<Rightarrow> (case gm_get (rev segs) ''0'' of
                Some n \<Rightarrow> if n \<le> 0 then Inl (Msg ''LUKS2 metadata has no data segment sector size'') else Inr n
              | None \<Rightarrow> Inl (Msg ''LUKS2 metadata has no data segment sector size'')))))"

section \<open>Open mappings\<close>

record mapping =
  mName :: string
  mBacking :: string

fun listDms :: "'w host \<Rightarrow> string list \<Rightarrow> (('w, 'm) sys_scheme, mapping list) state" where
  "listDms E [] = ret []"
| "listDms E (d # ds) = do {
     b \<leftarrow> sysc (h_readFile E (joinPath [d, ''dm'', ''name'']));
     case b of
       Inl _ \<Rightarrow> listDms E ds
     | Inr content \<Rightarrow>
         let name = trimSpace content in
         if \<not> hasPrefix name mapperPrefix then listDms E ds
         else do {
           slaves \<leftarrow> sysc (h_readDir E (joinPath [d, ''slaves'']));
           out \<leftarrow> listDms E ds;
           ret (\<lparr>mName = name, mBacking = (case slaves of Inr ((sl, _) # _) \<Rightarrow> ''/dev/'' @ sl | _ \<Rightarrow> [])\<rparr> # out)
         }
   }"

definition cryptList :: "'w host \<Rightarrow> string \<Rightarrow> (('w, 'm) sys_scheme, goerr + mapping list) state" where
  "cryptList E sysRoot = onErr (sysc (h_globDm E (joinPath [sysRoot, ''block'', ''dm-*'']))) id (\<lambda>dms. do {
     out \<leftarrow> listDms E dms; ret (Inr out) })"

definition IsOpen :: "'w host \<Rightarrow> string \<Rightarrow> string \<Rightarrow> (('w, 'm) sys_scheme, goerr + bool) state" where
  "IsOpen E sysRoot name = onErr (cryptList E sysRoot) id (\<lambda>ms.
     ret (Inr (list_ex (\<lambda>m. mName m = name) ms)))"

section \<open>What the operations leave alone\<close>

lemma stable_crypt_cmds [kept]:
  assumes "stable I"
  shows "keeps I (RunCmdE E c)" "keeps I (opens E d key)" "keeps I (isLuks E d)" "keeps I (rotate E d k)"
    "keeps I (cryptClose E n)" "keeps I (cryptResize E n)" "keeps I (ensureFilesystem E d p)"
  unfolding opens_def isLuks_def rotate_def swapSlots_def cryptClose_def cryptResize_def ensureFilesystem_def RunCmdE_def
  by (intro kept stable_Run stable_image_tools assms)+

lemma stable_blankLoop: "stable I \<Longrightarrow> keeps I (blankLoop E d n)"
proof (induction E d n rule: blankLoop.induct)
  case (1 E d n)
  show ?case
    by (subst blankLoop.simps) (auto intro!: keeps_ret keeps_bind stable_sysc 1 split: option.split prod.split)
qed

lemma stable_listDms [kept]: "stable I \<Longrightarrow> keeps I (listDms E ds)"
  by (induction ds) (auto intro!: kept stable_sysc simp: Let_def)

lemma stable_crypt [kept]:
  assumes "stable I"
  shows "keeps I (isBlank E d)" "keeps I (ensureLuks E d k f)" "keeps I (openMapped E d n k oc)" "keeps I (Prepare E d n k f)"
    "keeps I (cryptSectorSize E d)" "keeps I (cryptList E r)" "keeps I (IsOpen E r n)"
  unfolding isBlank_def ensureLuks_def Prepare_def openMapped_def cryptSectorSize_def cryptList_def IsOpen_def
  by (intro kept stable_crypt_cmds stable_blankLoop stable_listDms stable_sysc assms)+

section \<open>LUKS headers\<close>

text \<open>The header of a device: the passphrases that open a slot, and the label.\<close>

record luks_hdr =
  slots :: "string set"
  label :: string

abbreviation cexec :: "'w host \<Rightarrow> cmd \<Rightarrow> 'w \<Rightarrow> run_result \<times> 'w" where
  "cexec E c w \<equiv> run_state (osRunCmd E c) w"

abbreviation cerr :: "'w host \<Rightarrow> cmd \<Rightarrow> 'w \<Rightarrow> goerr option" where
  "cerr E c w \<equiv> snd (fst (cexec E c w))"

abbreviation cworld :: "'w host \<Rightarrow> cmd \<Rightarrow> 'w \<Rightarrow> 'w" where
  "cworld E c w \<equiv> snd (cexec E c w)"

text \<open>
  What cryptsetup(8) documents: \<^verbatim>\<open>isLuks\<close> and a passphrase test change nothing and tell the truth
  when they succeed or exit with 1 and 2, \<^verbatim>\<open>luksFormat\<close> writes a header with one slot and the
  label, the key commands add and remove one slot or, failing, change nothing, \<^verbatim>\<open>luksDump\<close>
  prints the label, \<^verbatim>\<open>config\<close> sets it. A file system made on a mapping leaves the headers of the
  other devices alone, the one below the mapping included; nothing is assumed of \<^verbatim>\<open>mkfs.ext4\<close> on any
  other device.
\<close>

definition query_law :: "'w host \<Rightarrow> ('w \<Rightarrow> string \<Rightarrow> luks_hdr option) \<Rightarrow> bool" where
  "query_law E hdr \<longleftrightarrow> (\<forall>dev w. hdr (cworld E (isLuksCmd dev) w) = hdr w
     \<and> (cerr E (isLuksCmd dev) w = None \<longrightarrow> hdr w dev \<noteq> None)
     \<and> (\<forall>e. cerr E (isLuksCmd dev) w = Some e \<and> exitCode e = 1 \<longrightarrow> hdr w dev = None))"

definition test_law :: "'w host \<Rightarrow> ('w \<Rightarrow> string \<Rightarrow> luks_hdr option) \<Rightarrow> bool" where
  "test_law E hdr \<longleftrightarrow> (\<forall>dev key w h. hdr (cworld E (testCmd dev key) w) = hdr w
     \<and> (hdr w dev = Some h \<and> cerr E (testCmd dev key) w = None \<longrightarrow> key \<in> slots h)
     \<and> (\<forall>e. hdr w dev = Some h \<and> cerr E (testCmd dev key) w = Some e \<and> exitCode e = 2 \<longrightarrow> key \<notin> slots h))"

definition slot_law :: "'w host \<Rightarrow> ('w \<Rightarrow> string \<Rightarrow> luks_hdr option) \<Rightarrow> bool" where
  "slot_law E hdr \<longleftrightarrow> (\<forall>dev prev cur w. hdr (cworld E (luksAddKeyCmd dev prev cur) w) =
       (if cerr E (luksAddKeyCmd dev prev cur) w = None
        then (hdr w)(dev := map_option (\<lambda>h. h\<lparr>slots := insert cur (slots h)\<rparr>) (hdr w dev)) else hdr w))
   \<and> (\<forall>dev prev w. hdr (cworld E (luksRemoveKeyCmd dev prev) w) =
       (if cerr E (luksRemoveKeyCmd dev prev) w = None
        then (hdr w)(dev := map_option (\<lambda>h. h\<lparr>slots := slots h - {prev}\<rparr>) (hdr w dev)) else hdr w))"

definition header_law :: "'w host \<Rightarrow> ('w \<Rightarrow> string \<Rightarrow> luks_hdr option) \<Rightarrow> bool" where
  "header_law E hdr \<longleftrightarrow> (\<forall>dev cur f w. cerr E (luksFormatCmd dev cur f) w = None \<longrightarrow>
       hdr (cworld E (luksFormatCmd dev cur f) w) = (hdr w)(dev \<mapsto> \<lparr>slots = {cur}, label = labelUnformatted\<rparr>))
   \<and> (\<forall>dev name cur w. hdr (cworld E (openCmd dev name cur) w) = hdr w)
   \<and> (\<forall>dev w h. hdr (cworld E (luksDumpCmd dev) w) = hdr w \<and> (hdr w dev = Some h \<and> cerr E (luksDumpCmd dev) w = None \<longrightarrow>
        luksLabel (fst (fst (cexec E (luksDumpCmd dev) w))) = label h))
   \<and> (\<forall>dev w. cerr E (relabelCmd dev) w = None \<longrightarrow>
        hdr (cworld E (relabelCmd dev) w) = (hdr w)(dev := map_option (\<lambda>h. h\<lparr>label := labelFormatted\<rparr>) (hdr w dev)))
   \<and> (\<forall>as name dev w. dev \<noteq> MapperPath name \<longrightarrow>
        hdr (cworld E (plain ''mkfs.ext4'' (as @ [MapperPath name])) w) dev = hdr w dev)"

lemma run_RunCmdE: "run_state (RunCmdE E c) s = (asErr (fst (cexec E c (world s))),
    s\<lparr>calls := calls s @ [c], world := cworld E c (world s)\<rparr>)"
  by (simp add: RunCmdE_def run_RunCmd)

lemma wp_RunCmdE: "wp (RunCmdE E c) Q s = Q (asErr (fst (cexec E c (world s)))) (s\<lparr>calls := calls s @ [c], world := cworld E c (world s)\<rparr>)"
  by (simp add: wp_def run_RunCmdE)

lemma asErr_cases: "asErr r = (case snd r of None \<Rightarrow> Inr (fst r) | Some e \<Rightarrow> Inl e)"
  by (simp add: asErr_def)

lemma opens_wp:
  assumes law: "test_law E hdr" and h: "hdr (world s) dev = Some h"
    and Q: "\<And>r s'. hdr (world s') = hdr (world s) \<Longrightarrow> (\<And>b. r = Inr b \<Longrightarrow> b = (key \<in> slots h)) \<Longrightarrow> Q r s'"
  shows "wp (opens E dev key) Q s"
proof -
  let ?c = "testCmd dev key"
  have l: "hdr (cworld E ?c (world s)) = hdr (world s)" "cerr E ?c (world s) = None \<Longrightarrow> key \<in> slots h"
    "\<And>e. cerr E ?c (world s) = Some e \<Longrightarrow> exitCode e = 2 \<Longrightarrow> key \<notin> slots h"
    using law h unfolding test_law_def by (simp, blast, blast)
  show ?thesis
    unfolding opens_def wp_bind wp_RunCmdE wp_ret
    by (rule Q) (use l in \<open>auto simp: asErr_cases split: option.splits if_splits\<close>)
qed

lemma isLuks_wp:
  assumes law: "query_law E hdr"
    and Q: "\<And>r s'. hdr (world s') = hdr (world s) \<Longrightarrow> (\<And>b. r = Inr b \<Longrightarrow> b = (hdr (world s) dev \<noteq> None)) \<Longrightarrow> Q r s'"
  shows "wp (isLuks E dev) Q s"
proof -
  let ?c = "isLuksCmd dev"
  have l: "hdr (cworld E ?c (world s)) = hdr (world s)" "cerr E ?c (world s) = None \<Longrightarrow> hdr (world s) dev \<noteq> None"
    "\<And>e. cerr E ?c (world s) = Some e \<Longrightarrow> exitCode e = 1 \<Longrightarrow> hdr (world s) dev = None"
    using law unfolding query_law_def by (simp, blast, blast)
  show ?thesis
    unfolding isLuks_def wp_bind wp_RunCmdE wp_ret
    by (rule Q) (use l in \<open>auto simp: asErr_cases split: option.splits if_splits\<close>)
qed

lemma slot_wp:
  assumes "slot_law E hdr"
  shows "(\<And>r s'. hdr (world s') = (if isl r then hdr (world s) else
       (hdr (world s))(dev := map_option (\<lambda>h. h\<lparr>slots := insert cur (slots h)\<rparr>) (hdr (world s) dev))) \<Longrightarrow> Q r s') \<Longrightarrow>
     wp (RunCmdE E (luksAddKeyCmd dev prev cur)) Q s"
    "(\<And>r s'. hdr (world s') = (if isl r then hdr (world s) else
       (hdr (world s))(dev := map_option (\<lambda>h. h\<lparr>slots := slots h - {prev}\<rparr>) (hdr (world s) dev))) \<Longrightarrow> Q r s') \<Longrightarrow>
     wp (RunCmdE E (luksRemoveKeyCmd dev prev)) Q s"
  using assms unfolding slot_law_def wp_RunCmdE by (simp_all add: asErr_cases split: option.split)

subsection \<open>Rotation\<close>

text \<open>
  What a call of \<^verbatim>\<open>rotate\<close> may do to a header: nothing but to the two slots, never leave none of
  them where one was, and on success leave the current key and not the previous one.
\<close>

definition rotated :: "keys \<Rightarrow> luks_hdr \<Rightarrow> goerr + outcome \<Rightarrow> luks_hdr \<Rightarrow> bool" where
  "rotated k h r h' \<longleftrightarrow> label h' = label h \<and> slots h' - {Current k, Previous k} = slots h - {Current k, Previous k}
     \<and> (slots h \<inter> {Current k, Previous k} \<noteq> {} \<longrightarrow> slots h' \<inter> {Current k, Previous k} \<noteq> {})
     \<and> (\<not> isl r \<longrightarrow> Current k \<in> slots h' \<and> (Previous k \<noteq> [] \<and> Previous k \<noteq> Current k \<longrightarrow> Previous k \<notin> slots h'))"

lemma rotated_same: "isl r \<or> Current k \<in> slots h \<and> (Previous k = [] \<or> Previous k = Current k \<or> Previous k \<notin> slots h) \<Longrightarrow> rotated k h r h"
  by (auto simp: rotated_def)

lemma swapSlots_wp:
  assumes law: "slot_law E hdr" and s: "hdr (world s) = m(dev \<mapsto> h)" and ne: "Previous k \<noteq> Current k"
    and Q: "\<And>r s' h'. hdr (world s') = m(dev \<mapsto> h') \<Longrightarrow> rotated k h r h' \<Longrightarrow> Q r s'"
  shows "wp (swapSlots E dev k (Current k \<in> slots h)) Q s"
proof -
  have remove: "wp (RunCmdE E (luksRemoveKeyCmd dev (Previous k))) (\<lambda>r s'. case r of Inl e \<Rightarrow> Q (Inl (Wrap ''luksRemoveKey'' e)) s'
      | Inr _ \<Rightarrow> Q (Inr oc) s') s1"
    if g: "hdr (world s1) = m(dev \<mapsto> h\<lparr>slots := insert (Current k) (slots h)\<rparr>)" for s1 oc
  proof (rule slot_wp(2) [OF law])
    fix r :: "goerr + string" and s' :: "('a, 'b) sys_scheme"
    assume w: "hdr (world s') = (if isl r then hdr (world s1) else
       (hdr (world s1))(dev := map_option (\<lambda>h. h\<lparr>slots := slots h - {Previous k}\<rparr>) (hdr (world s1) dev)))"
    let ?h' = "h\<lparr>slots := insert (Current k) (slots h) - (if isl r then {} else {Previous k})\<rparr>"
    have "hdr (world s') = m(dev \<mapsto> ?h')" using w g by simp
    moreover have "rotated k h (if isl r then Inl e else Inr oc) ?h'" for e using ne by (auto simp: rotated_def)
    ultimately show "case r of Inl e \<Rightarrow> Q (Inl (Wrap ''luksRemoveKey'' e)) s' | Inr _ \<Rightarrow> Q (Inr oc) s'"
      using Q [of s' ?h'] by (cases r) auto
  qed
  show ?thesis
  proof (cases "Current k \<in> slots h")
    case True
    then have "h = h\<lparr>slots := insert (Current k) (slots h)\<rparr>" by (simp add: insert_absorb)
    then show ?thesis using remove s True by (simp add: swapSlots_def wps cong: sum.case_cong)
  next
    case False
    have "wp (RunCmdE E (luksAddKeyCmd dev (Previous k) (Current k))) (\<lambda>r s'. case r of Inl e \<Rightarrow> Q (Inl (Wrap ''luksAddKey'' e)) s'
      | Inr _ \<Rightarrow> wp (RunCmdE E (luksRemoveKeyCmd dev (Previous k))) (\<lambda>r s'. case r of
          Inl e \<Rightarrow> Q (Inl (Wrap ''luksRemoveKey'' e)) s' | Inr _ \<Rightarrow> Q (Inr OutcomeRotated) s') s') s"
    proof (rule slot_wp(1) [OF law])
      fix r :: "goerr + string" and s' :: "('a, 'b) sys_scheme"
      assume "hdr (world s') = (if isl r then hdr (world s) else
       (hdr (world s))(dev := map_option (\<lambda>h. h\<lparr>slots := insert (Current k) (slots h)\<rparr>) (hdr (world s) dev)))"
      then show "case r of Inl e \<Rightarrow> Q (Inl (Wrap ''luksAddKey'' e)) s'
        | Inr _ \<Rightarrow> wp (RunCmdE E (luksRemoveKeyCmd dev (Previous k))) (\<lambda>r s'. case r of
            Inl e \<Rightarrow> Q (Inl (Wrap ''luksRemoveKey'' e)) s' | Inr _ \<Rightarrow> Q (Inr OutcomeRotated) s') s'"
        using s remove by (cases r) (auto intro!: Q rotated_same)
    qed
    then show ?thesis using False by (simp add: swapSlots_def wps cong: sum.case_cong)
  qed
qed

lemma rotate_wp:
  assumes law: "test_law E hdr" "slot_law E hdr" and h: "hdr (world s) = m(dev \<mapsto> h)"
    and Q: "\<And>r s' h'. hdr (world s') = m(dev \<mapsto> h') \<Longrightarrow> rotated k h r h' \<Longrightarrow> Q r s'"
  shows "wp (rotate E dev k) Q s"
proof -
  have same: "Q r s'" if "hdr (world s') = m(dev \<mapsto> h)"
    "isl r \<or> Current k \<in> slots h \<and> (Previous k = [] \<or> Previous k = Current k \<or> Previous k \<notin> slots h)" for r s'
    using Q [OF that(1) rotated_same [OF that(2)]] .
  have second: "wp (onErr (opens E dev (Previous k)) id (\<lambda>prev.
       if Current k \<notin> slots h \<and> \<not> prev then ret (Inl (Wrap dev (Sentinel ErrWrongKey)))
       else if \<not> prev then ret (Inr OutcomeNone) else swapSlots E dev k (Current k \<in> slots h))) Q s1"
    if s1: "hdr (world s1) = m(dev \<mapsto> h)" and ne: "Previous k \<noteq> Current k" for s1
    unfolding wp_onErr
  proof (rule opens_wp [OF law(1), of s1 dev h])
    fix r :: "goerr + bool" and s2 :: "('a, 'b) sys_scheme"
    assume s2: "hdr (world s2) = hdr (world s1)" and r: "\<And>b. r = Inr b \<Longrightarrow> b = (Previous k \<in> slots h)"
    have s2': "hdr (world s2) = m(dev \<mapsto> h)" using s1 s2 by simp
    have swap: "wp (swapSlots E dev k (Current k \<in> slots h)) Q s2" by (rule swapSlots_wp [OF law(2) s2' ne Q])
    show "case r of Inl e \<Rightarrow> Q (Inl (id e)) s2 | Inr prev \<Rightarrow>
      wp (if Current k \<notin> slots h \<and> \<not> prev then ret (Inl (Wrap dev (Sentinel ErrWrongKey)))
       else if \<not> prev then ret (Inr OutcomeNone) else swapSlots E dev k (Current k \<in> slots h)) Q s2"
      using swap same [OF s2'] r by (cases r) (auto simp: wp_ret)
  qed (simp add: s1)
  show ?thesis
    unfolding rotate_def wp_onErr
  proof (rule opens_wp [OF law(1), of s dev h])
    fix r :: "goerr + bool" and s1 :: "('a, 'b) sys_scheme"
    assume s1: "hdr (world s1) = hdr (world s)" and r: "\<And>b. r = Inr b \<Longrightarrow> b = (Current k \<in> slots h)"
    have s1': "hdr (world s1) = m(dev \<mapsto> h)" using s1 h by simp
    show "case r of Inl e \<Rightarrow> Q (Inl (id e)) s1 | Inr cur \<Rightarrow> wp (if Previous k = [] \<or> Previous k = Current k
     then ret (if \<not> cur then Inl (Wrap dev (Sentinel ErrWrongKey)) else Inr OutcomeNone)
     else onErr (opens E dev (Previous k)) id (\<lambda>prev.
       if \<not> cur \<and> \<not> prev then ret (Inl (Wrap dev (Sentinel ErrWrongKey)))
       else if \<not> prev then ret (Inr OutcomeNone)
       else swapSlots E dev k cur)) Q s1"
      using second [OF s1'] same [OF s1'] r by (cases r) (auto simp: wp_ret)
  qed (simp add: h)
qed

lemma rotate_run:
  assumes "test_law E hdr" "slot_law E hdr" "hdr (world s) dev = Some h" "run_state (rotate E dev k) s = (r, s')"
  shows "\<exists>h'. hdr (world s') = (hdr (world s))(dev \<mapsto> h') \<and> rotated k h r h'"
proof -
  have "hdr (world s) = (hdr (world s))(dev \<mapsto> h)" using assms(3) by auto
  then have "wp (rotate E dev k) (\<lambda>r s'. \<exists>h'. hdr (world s') = (hdr (world s))(dev \<mapsto> h') \<and> rotated k h r h') s"
    by (rule rotate_wp [OF assms(1,2)]) blast
  from wp_run [OF this assms(4)] show ?thesis .
qed

section \<open>Properties\<close>

text \<open>
  C3: Key rotation. On any outcome, crash points included, \<^verbatim>\<open>rotate\<close> touches only the slots of the
  two keys of the one device, and if one of the keys opened the volume before, one does after. On
  success the current key opens it and a different previous key no longer does.
\<close>

theorem rotate_never_locks_out:
  assumes "test_law E hdr" "slot_law E hdr" "hdr (world s) dev = Some h" "run_state (rotate E dev k) s = (r, s')"
  shows "\<exists>h'. hdr (world s') = (hdr (world s))(dev \<mapsto> h') \<and> label h' = label h
       \<and> slots h' - {Current k, Previous k} = slots h - {Current k, Previous k}
       \<and> (slots h \<inter> {Current k, Previous k} \<noteq> {} \<longrightarrow> slots h' \<inter> {Current k, Previous k} \<noteq> {})
       \<and> (\<not> isl r \<longrightarrow> Current k \<in> slots h' \<and> (Previous k \<noteq> [] \<and> Previous k \<noteq> Current k \<longrightarrow> Previous k \<notin> slots h'))"
  using rotate_run [OF assms] unfolding rotated_def .

text \<open>
  What reading a device promises: the bytes at the offset, at least one unless the end is
  reached or the read fails, and no change to the contents.
\<close>

definition read_law :: "'w host \<Rightarrow> ('w \<Rightarrow> string \<Rightarrow> string) \<Rightarrow> bool" where
  "read_law E data \<longleftrightarrow> (\<forall>p off n w. case h_read E p off n w of ((bs, err), w') \<Rightarrow>
       data w' = data w \<and> bs = take (length bs) (drop off (data w p))
     \<and> (0 < n \<and> (bs = [] \<and> err = None \<or> (\<exists>e. err = Some e \<and> error_is e EOF)) \<longrightarrow> length (data w p) \<le> off + length bs))
   \<and> (\<forall>p w. data (snd (h_open E p w)) = data w) \<and> (\<forall>dev w. data (cworld E (isLuksCmd dev) w) = data w)"

lemma read_lawD:
  assumes "read_law E data" "h_read E p off n w = ((bs, err), w')"
  shows "data w' = data w" "bs = take (length bs) (drop off (data w p))"
    "0 < n \<Longrightarrow> bs = [] \<and> err = None \<or> (\<exists>e. err = Some e \<and> error_is e EOF) \<Longrightarrow> length (data w p) \<le> off + length bs"
proof -
  have "case h_read E p off n w of ((bs, err), w') \<Rightarrow>
       data w' = data w \<and> bs = take (length bs) (drop off (data w p))
     \<and> (0 < n \<and> (bs = [] \<and> err = None \<or> (\<exists>e. err = Some e \<and> error_is e EOF)) \<longrightarrow> length (data w p) \<le> off + length bs)"
    using assms(1) unfolding read_law_def by (elim conjE) simp
  then show "data w' = data w" "bs = take (length bs) (drop off (data w p))"
    "0 < n \<Longrightarrow> bs = [] \<and> err = None \<or> (\<exists>e. err = Some e \<and> error_is e EOF) \<Longrightarrow> length (data w p) \<le> off + length bs"
    unfolding assms(2) by (simp_all only: prod.case)
qed

abbreviation zeros :: "string \<Rightarrow> bool" where
  "zeros bs \<equiv> list_all (\<lambda>c. c = CHR 0x00) bs"

lemma zeros_take: "zeros (take n bs) \<Longrightarrow> m \<le> n \<or> length bs \<le> n \<Longrightarrow> zeros (take m bs)"
  by (auto simp: list_all_length min_def split: if_splits)

lemma blankLoop_zeros:
  assumes law: "read_law E data" and "zeros (take rd (data (world s) dev))"
  shows "wp (blankLoop E dev rd) (\<lambda>r s'. r = Inr True \<longrightarrow> zeros (take blankCheckBytes (data (world s) dev))) s"
  using assms(2)
proof (induction rd arbitrary: s rule: measure_induct_rule [of "\<lambda>rd. blankCheckBytes - rd"])
  case (less rd)
  show ?case
  proof (cases "rd < blankCheckBytes")
    case False
    then show ?thesis using zeros_take [OF less.prems] by (simp add: blankLoop.simps [of E dev rd] wps)
  next
    case True
    let ?n = "min (2 ^ 20) (blankCheckBytes - rd)" and ?d = "data (world s) dev"
    obtain bs err w where rd: "h_read E dev rd ?n (world s) = ((bs, err), w)" by (metis prod.exhaust)
    note l = read_lawD [OF law rd]
    have step: "wp (blankLoop E dev rd) Q s = wp (if list_ex (\<lambda>c. c \<noteq> CHR 0x00) bs then ret (Inr False)
        else case err of Some e \<Rightarrow> ret (if error_is e EOF then Inr True else Inl (Wrap ''read'' e))
        | None \<Rightarrow> if bs = [] then ret (Inr True) else blankLoop E dev (rd + length bs)) Q (s\<lparr>world := w\<rparr>)" for Q
      using True rd by (simp add: blankLoop.simps [of E dev rd] wp_bind wp_sysc)
    show ?thesis
    proof (cases "zeros bs")
      case z: True
      have "take (rd + length bs) ?d = take rd ?d @ bs" using l(2) by (simp add: take_add)
      then have zs: "zeros (take (rd + length bs) ?d)" using less.prems z by simp
      have nz: "\<not> list_ex (\<lambda>c. c \<noteq> CHR 0x00) bs" using z by (auto simp: list_ex_iff list_all_iff)
      have pos: "0 < ?n" using True by simp
      have IH: "bs \<noteq> [] \<Longrightarrow> wp (blankLoop E dev (rd + length bs))
          (\<lambda>r s'. r = Inr True \<longrightarrow> zeros (take blankCheckBytes ?d)) (s\<lparr>world := w\<rparr>)"
        using less.IH [of "rd + length bs" "s\<lparr>world := w\<rparr>"] True zs l(1) by (simp add: diff_less_mono2)
      show ?thesis
        unfolding step using nz IH l(3) [OF pos] zeros_take [OF zs, of blankCheckBytes]
        by (cases err) (auto simp: wps)
    next
      case False
      then have "list_ex (\<lambda>c. c \<noteq> CHR 0x00) bs" by (auto simp: list_ex_iff list_all_iff)
      then show ?thesis unfolding step by (simp add: wps)
    qed
  qed
qed

text \<open>Which commands format: \<^verbatim>\<open>luksFormat\<close>.\<close>

definition formats :: "cmd \<Rightarrow> bool" where
  "formats c \<longleftrightarrow> cName c = ''cryptsetup'' \<and> cArgs c \<noteq> [] \<and> hd (cArgs c) = ''luksFormat''"

lemmas cmd_defs = luksFormatCmd_def openCmd_def luksDumpCmd_def relabelCmd_def luksAddKeyCmd_def luksRemoveKeyCmd_def
  testCmd_def isLuksCmd_def dumpJsonCmd_def closeCmd_def resizeCmd_def cryptsetup_def

lemma logs_RunCmdE [logged]: "P c \<Longrightarrow> logs P (RunCmdE E c)"
  unfolding RunCmdE_def by (intro logged)

lemma logs_Mkfs: "P (plain ''mkfs.ext4'' [''-q'', ''-F'', ''-b'', itoa (nat DefaultBlockSize), ''-m'', ''0'',
        ''-E'', ''lazy_itable_init=1,lazy_journal_init=1'', t]) \<Longrightarrow> logs P (Mkfs E t)"
  unfolding Mkfs_def by (intro logged)

lemma logs_isLuks: "P (isLuksCmd dev) \<Longrightarrow> logs P (isLuks E dev)"
  unfolding isLuks_def by (intro logged)

lemma logs_rotate:
  assumes "\<And>key. key \<in> {Current k, Previous k} \<Longrightarrow> P (testCmd dev key)"
    and "P (luksAddKeyCmd dev (Previous k) (Current k))" "P (luksRemoveKeyCmd dev (Previous k))"
  shows "logs P (rotate E dev k)"
  unfolding rotate_def opens_def swapSlots_def by (intro logged assms) simp_all

lemma logs_blankLoop: "logs P (blankLoop E dev rd)"
proof (induction E dev rd rule: blankLoop.induct)
  case (1 E d n)
  show ?case
    by (subst blankLoop.simps) (auto intro!: logs_pure logs_bind 1 split: option.split prod.split)
qed

lemma logs_isBlank: "logs P (isBlank E dev)"
  unfolding isBlank_def by (intro logged logs_blankLoop)

lemma isBlank_zeros:
  assumes law: "read_law E data"
  shows "wp (isBlank E dev) (\<lambda>r s'. r = Inr True \<longrightarrow> zeros (take blankCheckBytes (data (world s) dev))) s"
proof -
  define s1 where "s1 = s\<lparr>world := snd (h_open E dev (world s))\<rparr>"
  have "data (world s1) = data (world s)" using law by (simp add: s1_def read_law_def)
  then have "wp (blankLoop E dev 0) (\<lambda>r s'. r = Inr True \<longrightarrow> zeros (take blankCheckBytes (data (world s) dev))) s1"
    using blankLoop_zeros [OF law, of 0 s1 dev] by simp
  then show ?thesis
    unfolding isBlank_def wp_onErr wp_sysc s1_def
    by (auto simp: wps elim!: wp_mono split: sum.split prod.splits)
qed

lemma ensureLuks_blank:
  assumes law: "query_law E hdr" "read_law E data" and run: "run_state (ensureLuks E dev k f) s = (r, s')"
  shows "hdr (world s) dev = None \<and> zeros (take blankCheckBytes (data (world s) dev)) \<or> list_all (\<lambda>c. \<not> formats c) (newcalls s s')"
proof -
  obtain r0 s0 where i: "run_state (isLuks E dev) s = (r0, s0)" by fastforce
  have h0: "r0 = Inr False \<Longrightarrow> hdr (world s) dev = None"
    using wp_run [OF isLuks_wp [OF law(1), where Q = "\<lambda>r s'. \<forall>b. r = Inr b \<longrightarrow> b = (hdr (world s) dev \<noteq> None)"] i] by auto
  have d0: "data (world s0) = data (world s)"
    using i law(2) by (auto simp: isLuks_def run_RunCmdE read_law_def)
  obtain r1 s1 where b: "run_state (isBlank E dev) s0 = (r1, s1)" by fastforce
  have z: "r1 = Inr True \<Longrightarrow> zeros (take blankCheckBytes (data (world s) dev))"
    using wp_run [OF isBlank_zeros [OF law(2)] b] d0 by simp
  have nf: "\<not> formats (isLuksCmd dev)" by (simp add: formats_def cmd_defs)
  obtain cs cs' where cs: "calls s0 = calls s @ cs" "list_all (\<lambda>c. \<not> formats c) cs"
      "calls s1 = calls s0 @ cs'" "list_all (\<lambda>c. \<not> formats c) cs'"
    using logsD [OF logs_isLuks [of "\<lambda>c. \<not> formats c", OF nf] i] logsD [OF logs_isBlank [of "\<lambda>c. \<not> formats c"] b] by blast
  show ?thesis
  proof (cases "r0 = Inr False \<and> r1 = Inr True")
    case False
    then have "s' = s0 \<or> s' = s1"
      using run i b by (auto simp: ensureLuks_def run_onErr split: sum.splits if_splits)
    then show ?thesis using cs by (auto simp: newcalls_def)
  qed (use h0 z in blast)
qed

lemma logs_openMapped:
  assumes "\<And>key. key \<in> {Current k, Previous k} \<Longrightarrow> P (testCmd dev key)"
    "P (luksAddKeyCmd dev (Previous k) (Current k))" "P (luksRemoveKeyCmd dev (Previous k))"
    "P (openCmd dev name (Current k))" "P (luksDumpCmd dev)" "P (relabelCmd dev)" "P (closeCmd name)"
    "P (plain ''mkfs.ext4'' [''-q'', ''-F'', ''-b'', itoa (nat DefaultBlockSize), ''-m'', ''0'',
        ''-E'', ''lazy_itable_init=1,lazy_journal_init=1'', MapperPath name])"
  shows "logs P (openMapped E dev name k oc)"
  unfolding openMapped_def ensureFilesystem_def cryptClose_def
  by (intro logged logs_rotate logs_Mkfs assms) (use assms in simp_all)

text \<open>
  C4: Prepare never overwrites data. If it runs \<^verbatim>\<open>luksFormat\<close>, then the device had no LUKS header
  and its first 16 MiB (the whole device when it is smaller) were all zero.
\<close>

theorem Prepare_formats_only_blank:
  assumes law: "query_law E hdr" "read_law E data" and run: "run_state (Prepare E dev name k f) s = (r, s')"
    and fmt: "\<not> list_all (\<lambda>c. \<not> formats c) (newcalls s s')"
  shows "hdr (world s) dev = None \<and> list_all (\<lambda>c. c = CHR 0x00) (take blankCheckBytes (data (world s) dev))"
proof -
  obtain r0 s0 where e: "run_state (ensureLuks E dev k f) s = (r0, s0)" by fastforce
  have "logs (\<lambda>c. \<not> formats c) (openMapped E dev name k oc)" for oc
    by (rule logs_openMapped) (simp_all add: formats_def cmd_defs)
  then have "calls s' = calls s0 \<or> (\<exists>cs. calls s' = calls s0 @ cs \<and> list_all (\<lambda>c. \<not> formats c) cs)"
    using run e logsD by (fastforce simp: Prepare_def run_onErr split: sum.splits)
  moreover obtain cs where "calls s0 = calls s @ cs"
    using logsD [OF _ e, of "\<lambda>_. True"] by (auto simp: ensureLuks_def intro!: logged logs_isLuks logs_isBlank)
  ultimately have "list_all (\<lambda>c. \<not> formats c) (newcalls s s0) \<Longrightarrow> list_all (\<lambda>c. \<not> formats c) (newcalls s s')"
    by (auto simp: newcalls_def)
  then show ?thesis using ensureLuks_blank [OF law e] fmt by blast
qed

text \<open>The words that may appear on a command line or in an environment.\<close>

definition publicWords :: "string \<Rightarrow> string \<Rightarrow> format \<Rightarrow> string set" where
  "publicWords dev name f = {''cryptsetup'', ''mkfs.ext4'', ''DM_DISABLE_UDEV=1'', dev, name, MapperPath name, Cipher f, itoa (KeySize f),
     itoa (nat DefaultBlockSize), ''luksFormat'', ''--batch-mode'', ''--type'', ''luks2'', ''--cipher'', ''--key-size'', ''--sector-size'',
     ''--pbkdf'', ''pbkdf2'', ''--pbkdf-force-iterations'', pbkdfIterations, ''--label'', labelUnformatted, ''--key-file'',
     SecretFD 0, SecretFD 1, ''open'', ''--disable-keyring'', ''luksDump'', ''config'', labelFormatted, ''luksAddKey'', ''luksRemoveKey'',
     ''--test-passphrase'', ''isLuks'', ''close'', ''-q'', ''-F'', ''-b'', ''-m'', ''0'', ''-E'',
     ''lazy_itable_init=1,lazy_journal_init=1''}"

text \<open>
  C32: Keys stay out of process listings. Every word on the command line and in the environment of
  every command Prepare runs is a fixed option, a program name, the device, the mapping or part of
  the format; the keys themselves are only ever handed over as secrets.
\<close>

theorem Prepare_hides_keys:
  assumes "run_state (Prepare E dev name k f) s = (r, s')"
  shows "list_all (\<lambda>c. set (cName c # cArgs c @ cEnv c) \<subseteq> publicWords dev name f
            \<and> set (cSecrets c) \<subseteq> {Current k, Previous k}) (newcalls s s')"
proof (rule logs_new [OF _ assms])
  let ?P = "\<lambda>c. set (cName c # cArgs c @ cEnv c) \<subseteq> publicWords dev name f \<and> set (cSecrets c) \<subseteq> {Current k, Previous k}"
  have "logs ?P (openMapped E dev name k oc)" for oc
    by (rule logs_openMapped) (simp_all add: cmd_defs publicWords_def)
  moreover have "logs ?P (ensureLuks E dev k f)"
    unfolding ensureLuks_def by (intro logged logs_isLuks logs_isBlank) (simp_all add: cmd_defs publicWords_def)
  ultimately show "logs ?P (Prepare E dev name k f)"
    unfolding Prepare_def by (intro logged)
qed

subsection \<open>Convergence\<close>

lemma header_lawD:
  assumes "header_law E hdr"
  shows "cerr E (luksFormatCmd dev cur f) w = None \<Longrightarrow>
      hdr (cworld E (luksFormatCmd dev cur f) w) = (hdr w)(dev \<mapsto> \<lparr>slots = {cur}, label = labelUnformatted\<rparr>)"
    "hdr (cworld E (openCmd dev name cur) w) = hdr w" "hdr (cworld E (luksDumpCmd dev) w) = hdr w"
    "hdr w dev = Some h \<Longrightarrow> cerr E (luksDumpCmd dev) w = None \<Longrightarrow> luksLabel (fst (fst (cexec E (luksDumpCmd dev) w))) = label h"
    "cerr E (relabelCmd dev) w = None \<Longrightarrow>
      hdr (cworld E (relabelCmd dev) w) = (hdr w)(dev := map_option (\<lambda>h. h\<lparr>label := labelFormatted\<rparr>) (hdr w dev))"
    "dev \<noteq> MapperPath name \<Longrightarrow> hdr (cworld E (plain ''mkfs.ext4'' (as @ [MapperPath name])) w) dev = hdr w dev"
  using assms unfolding header_law_def by (elim conjE, simp)+

lemma labels_differ: "labelFormatted \<noteq> labelUnformatted"
  by (simp add: labelFormatted_def labelUnformatted_def)

lemma Mkfs_hdr:
  assumes "header_law E hdr" "dev \<noteq> MapperPath name" "run_state (Mkfs E (MapperPath name)) s = (r, s')"
  shows "hdr (world s') dev = hdr (world s) dev"
  using assms(3) header_lawD(6) [OF assms(1,2), of "[''-q'', ''-F'', ''-b'', itoa (nat DefaultBlockSize), ''-m'', ''0'',
        ''-E'', ''lazy_itable_init=1,lazy_journal_init=1'']" "world s"]
  by (auto simp: Mkfs_def run_onErr RunE_def Run_def run_RunCmd split: sum.splits)

lemma ensureFilesystem_hdr:
  assumes law: "header_law E hdr" and ne: "dev \<noteq> MapperPath name" and h: "hdr (world s) dev = Some h"
    and run: "run_state (ensureFilesystem E dev (MapperPath name)) s = (Inr (), s')"
  shows "\<exists>h'. hdr (world s') dev = Some h' \<and> slots h' = slots h \<and> label h' \<noteq> labelUnformatted"
proof -
  let ?w = "world s" and ?c = "luksDumpCmd dev"
  define s1 where "s1 = s\<lparr>calls := calls s @ [?c], world := cworld E ?c ?w\<rparr>"
  have ok: "cerr E ?c ?w = None" using run by (auto simp: ensureFilesystem_def run_onErr run_RunCmdE asErr_cases split: option.splits)
  have s1: "hdr (world s1) dev = Some h" using h header_lawD(3) [OF law] by (simp add: s1_def)
  have lab: "luksLabel (fst (fst (cexec E ?c ?w))) = label h" by (rule header_lawD(4) [OF law h ok])
  have dump: "run_state (RunCmdE E ?c) s = (Inr (fst (fst (cexec E ?c ?w))), s1)"
    using ok by (simp add: run_RunCmdE s1_def asErr_cases)
  show ?thesis
  proof (cases "label h = labelUnformatted")
    case False
    then show ?thesis using run dump lab s1 by (auto simp: ensureFilesystem_def run_onErr)
  next
    case True
    obtain m s2 where mk: "run_state (Mkfs E (MapperPath name)) s1 = (m, s2)" by fastforce
    with run dump lab True have m: "m = Inr ()" and rl: "cerr E (relabelCmd dev) (world s2) = None"
        "s' = s2\<lparr>calls := calls s2 @ [relabelCmd dev], world := cworld E (relabelCmd dev) (world s2)\<rparr>"
      by (auto simp: ensureFilesystem_def run_onErr run_RunCmdE asErr_cases split: sum.splits option.splits)
    have "hdr (world s2) dev = Some h" using Mkfs_hdr [OF law ne mk] s1 by simp
    then show ?thesis using header_lawD(5) [OF law rl(1)] rl(2) labels_differ by simp
  qed
qed

lemma ensureLuks_hdr:
  assumes law: "query_law E hdr" "header_law E hdr" and run: "run_state (ensureLuks E dev k f) s = (Inr oc, s')"
  shows "\<exists>h. hdr (world s') dev = Some h"
proof -
  obtain r0 s0 where i: "run_state (isLuks E dev) s = (r0, s0)" by fastforce
  have h0: "hdr (world s0) = hdr (world s)" "\<And>b. r0 = Inr b \<Longrightarrow> b = (hdr (world s) dev \<noteq> None)"
    using wp_run [OF isLuks_wp [OF law(1), where Q = "\<lambda>r s'. hdr (world s') = hdr (world s) \<and> (\<forall>b. r = Inr b \<longrightarrow> b = (hdr (world s) dev \<noteq> None))"] i] by auto
  show ?thesis
    using run i h0 header_lawD(1) [OF law(2)]
    by (cases "run_state (isBlank E dev) s0")
      (auto simp: ensureLuks_def run_onErr run_RunCmdE asErr_cases split: sum.splits if_splits option.splits)
qed

lemma Prepare_hdr:
  assumes law: "query_law E hdr" "header_law E hdr" "test_law E hdr" "slot_law E hdr"
    and ne: "dev \<noteq> MapperPath name" and run: "run_state (Prepare E dev name k f) s = (Inr x, s')"
  shows "\<exists>h. hdr (world s') dev = Some h \<and> Current k \<in> slots h \<and> label h \<noteq> labelUnformatted"
proof -
  obtain oc s0 where e: "run_state (ensureLuks E dev k f) s = (Inr oc, s0)" "run_state (openMapped E dev name k oc) s0 = (Inr x, s')"
    using run by (auto simp: Prepare_def run_onErr split: sum.splits prod.splits)
  obtain h0 where h0: "hdr (world s0) dev = Some h0" using ensureLuks_hdr [OF law(1,2) e(1)] by blast
  obtain ro s1 where ro: "run_state (rotate E dev k) s0 = (Inr ro, s1)"
    using e(2) by (auto simp: openMapped_def run_onErr split: sum.splits prod.splits)
  obtain h1 where h1: "hdr (world s1) dev = Some h1" "Current k \<in> slots h1"
    using rotate_run [OF law(3,4) h0 ro] by (auto simp: rotated_def)
  define s2 where "s2 = s1\<lparr>calls := calls s1 @ [openCmd dev name (Current k)], world := cworld E (openCmd dev name (Current k)) (world s1)\<rparr>"
  have "run_state (ensureFilesystem E dev (MapperPath name)) s2 = (Inr (), s')"
    using e(2) ro by (auto simp: openMapped_def run_onErr run_RunCmdE s2_def split: sum.splits prod.splits)
  moreover have "hdr (world s2) dev = Some h1" using h1(1) header_lawD(2) [OF law(2)] by (simp add: s2_def)
  ultimately show ?thesis using ensureFilesystem_hdr [OF law(2) ne] h1(2) by metis
qed

text \<open>Commands that write a header or a file system.\<close>

definition writes :: "cmd \<Rightarrow> bool" where
  "writes c \<longleftrightarrow> formats c \<or> cName c = ''mkfs.ext4''"

lemma ensureFilesystem_quiet:
  assumes "header_law E hdr" "hdr (world s) dev = Some h" "label h \<noteq> labelUnformatted"
    and "run_state (ensureFilesystem E dev p) s = (r, s')"
  shows "calls s' = calls s @ [luksDumpCmd dev]"
  using assms(3,4) header_lawD(4) [OF assms(1,2)]
  by (auto simp: ensureFilesystem_def run_onErr run_RunCmdE asErr_cases split: sum.splits option.splits)

lemma openMapped_quiet:
  assumes law: "header_law E hdr" "test_law E hdr" "slot_law E hdr" and h: "hdr (world s) dev = Some h" "label h \<noteq> labelUnformatted"
    and run: "run_state (openMapped E dev name k oc) s = (r, s')"
  shows "\<exists>cs. calls s' = calls s @ cs \<and> list_all (\<lambda>c. \<not> writes c) cs"
proof -
  obtain r1 s1 where ro: "run_state (rotate E dev k) s = (r1, s1)" by fastforce
  have "logs (\<lambda>c. \<not> writes c) (rotate E dev k)" by (rule logs_rotate) (simp_all add: writes_def formats_def cmd_defs)
  from logsD [OF this ro] obtain c1 where c1: "calls s1 = calls s @ c1" "list_all (\<lambda>c. \<not> writes c) c1" by blast
  obtain h1 where h1: "hdr (world s1) dev = Some h1" "label h1 \<noteq> labelUnformatted"
    using rotate_run [OF law(2,3) h(1) ro] h(2) by (auto simp: rotated_def)
  let ?c = "openCmd dev name (Current k)"
  define s2 where "s2 = s1\<lparr>calls := calls s1 @ [?c], world := cworld E ?c (world s1)\<rparr>"
  have o: "run_state (RunCmdE E ?c) s1 = (asErr (fst (cexec E ?c (world s1))), s2)" by (simp add: run_RunCmdE s2_def)
  obtain r3 s3 where fs: "run_state (ensureFilesystem E dev (MapperPath name)) s2 = (r3, s3)" by fastforce
  have c3: "calls s3 = calls s2 @ [luksDumpCmd dev]"
    using ensureFilesystem_quiet [OF law(1) _ h1(2) fs] h1(1) header_lawD(2) [OF law(1)] by (simp add: s2_def)
  have "calls s' \<in> {calls s1, calls s2, calls s3, calls s3 @ [closeCmd name]}"
    using run ro o fs
    by (cases r3) (auto simp: openMapped_def run_onErr cryptClose_def run_RunCmdE [of _ "closeCmd name"] split: sum.splits)
  then show ?thesis
    using c1 c3 by (auto simp: s2_def writes_def formats_def cmd_defs)
qed

lemma Prepare_quiet:
  assumes law: "query_law E hdr" "header_law E hdr" "test_law E hdr" "slot_law E hdr"
    and h: "hdr (world s) dev = Some h" "label h \<noteq> labelUnformatted" and run: "run_state (Prepare E dev name k f) s = (r, s')"
  shows "list_all (\<lambda>c. \<not> writes c) (newcalls s s')"
proof -
  obtain r0 s0 where i: "run_state (isLuks E dev) s = (r0, s0)" by fastforce
  have h0: "hdr (world s0) = hdr (world s)" "r0 = Inr False \<Longrightarrow> False"
    using wp_run [OF isLuks_wp [OF law(1), where Q = "\<lambda>r s'. hdr (world s') = hdr (world s) \<and> (\<forall>b. r = Inr b \<longrightarrow> b = (hdr (world s) dev \<noteq> None))"] i] h by auto
  have c0: "calls s0 = calls s @ [isLuksCmd dev]" using i by (auto simp: isLuks_def run_RunCmdE)
  have "calls s' = calls s0 \<or> (\<exists>oc. run_state (openMapped E dev name k oc) s0 = (r, s'))"
    using run i h0(2) by (auto simp: Prepare_def ensureLuks_def run_onErr split: sum.splits if_splits)
  then have "\<exists>cs. calls s' = calls s0 @ cs \<and> list_all (\<lambda>c. \<not> writes c) cs"
    using openMapped_quiet [OF law(2-4), of s0 dev h] h h0(1) by auto
  moreover have "\<not> writes (isLuksCmd dev)" by (simp add: writes_def formats_def cmd_defs)
  ultimately show ?thesis using c0 by (auto simp: newcalls_def)
qed

text \<open>A file system is made on the mapping only, never on the device that holds the header.\<close>

lemma Prepare_mkfs_target:
  assumes "run_state (Prepare E dev name k f) s = (r, s')"
  shows "list_all (\<lambda>c. cName c = ''mkfs.ext4'' \<longrightarrow> last (cArgs c) = MapperPath name) (newcalls s s')"
proof (rule logs_new [OF _ assms])
  let ?P = "\<lambda>c. cName c = ''mkfs.ext4'' \<longrightarrow> last (cArgs c) = MapperPath name"
  have "logs ?P (openMapped E dev name k oc)" for oc
    by (rule logs_openMapped) (simp_all add: cmd_defs)
  moreover have "logs ?P (ensureLuks E dev k f)"
    unfolding ensureLuks_def by (intro logged logs_isLuks logs_isBlank) (simp_all add: cmd_defs)
  ultimately show "logs ?P (Prepare E dev name k f)"
    unfolding Prepare_def by (intro logged)
qed

text \<open>
  C13: Prepare converges and formats once. After a successful Prepare the current key opens the
  header and its label says that the file system is there, and any \<^verbatim>\<open>mkfs.ext4\<close> it ran was on the
  mapping, not on the device with the header; as long as the header stays like that, no
  later Prepare, with whatever keys, runs \<^verbatim>\<open>luksFormat\<close> or \<^verbatim>\<open>mkfs.ext4\<close> on the volume again. Of
  \<^verbatim>\<open>mkfs.ext4\<close> it is assumed only that on a mapping it leaves the header below alone.
\<close>

theorem Prepare_formats_once:
  assumes law: "query_law E hdr" "header_law E hdr" "test_law E hdr" "slot_law E hdr"
    and ne: "dev \<noteq> MapperPath name" and run: "run_state (Prepare E dev name k f) s = (Inr x, s')"
    and later: "hdr (world t) dev = hdr (world s') dev" "run_state (Prepare E dev name' k' f') t = (r, t')"
  shows "(\<exists>h. hdr (world s') dev = Some h \<and> Current k \<in> slots h \<and> label h \<noteq> labelUnformatted)
       \<and> list_all (\<lambda>c. cName c = ''mkfs.ext4'' \<longrightarrow> last (cArgs c) = MapperPath name) (newcalls s s')
       \<and> list_all (\<lambda>c. \<not> writes c) (newcalls t t')"
  using Prepare_hdr [OF law ne run] Prepare_mkfs_target [OF run] Prepare_quiet [OF law _ _ later(2)] later(1) by auto

end
