(* ===== verification/Sim_Luks.thy ===== *)
theory Sim_Luks
  imports Crypt
begin

text \<open>
  A second small machine, with LUKS headers and the bytes of block devices: an instance of the
  \<^typ>\<open>'w host\<close> parameter on which \<^verbatim>\<open>cryptsetup\<close> does what its manual says and a file system made
  on a device destroys its header, for which the laws
  assumed in \<^verbatim>\<open>Crypt\<close> hold.
\<close>

record lsim =
  lHdr :: "string \<Rightarrow> luks_hdr option"
  lData :: "string \<Rightarrow> string"

abbreviation setHdr :: "string \<Rightarrow> (luks_hdr \<Rightarrow> luks_hdr) \<Rightarrow> lsim \<Rightarrow> lsim" where
  "setHdr d f w \<equiv> w\<lparr>lHdr := (lHdr w)(d := map_option f (lHdr w d))\<rparr>"

definition lOk :: "string \<Rightarrow> lsim \<Rightarrow> (string \<times> (int \<times> goerr) option) \<times> lsim" where
  "lOk out w = ((out, None), w)"

definition lFail :: "int \<Rightarrow> lsim \<Rightarrow> (string \<times> (int \<times> goerr) option) \<times> lsim" where
  "lFail x w = (([], Some (x, Msg ''exit status'')), w)"

definition lDump :: "string \<Rightarrow> lsim \<Rightarrow> (string \<times> (int \<times> goerr) option) \<times> lsim" where
  "lDump d w = (case lHdr w d of
       Some h \<Rightarrow> if luksLabel (''Label: '' @ label h) = label h then lOk (''Label: '' @ label h) w else lFail 1 w
     | None \<Rightarrow> lFail 1 w)"

definition lsimWait :: "cmd \<Rightarrow> lsim \<Rightarrow> (string \<times> (int \<times> goerr) option) \<times> lsim" where
  "lsimWait c w =
     (let d = last (cArgs c); key = hd (cSecrets c); verb = hd (cArgs c)
      in if cName c = ''mkfs.ext4'' \<and> \<not> hasPrefix d ''/dev/mapper/'' then lOk [] (w\<lparr>lHdr := (lHdr w)(d := None)\<rparr>)
         else if cName c \<noteq> ''cryptsetup'' then lOk [] w
         else if verb = ''isLuks'' then (if lHdr w d = None then lFail 1 w else lOk [] w)
         else if verb = ''open'' \<and> cArgs c ! 1 = ''--test-passphrase''
           then (case lHdr w d of Some h \<Rightarrow> if key \<in> slots h then lOk [] w else lFail 2 w | None \<Rightarrow> lFail 1 w)
         else if verb = ''luksFormat'' then lOk [] (w\<lparr>lHdr := (lHdr w)(d \<mapsto> \<lparr>slots = {key}, label = labelUnformatted\<rparr>)\<rparr>)
         else if verb = ''luksDump'' then lDump d w
         else if verb = ''config'' then lOk [] (setHdr d (\<lambda>h. h\<lparr>label := labelFormatted\<rparr>) w)
         else if verb = ''luksAddKey''
           then lOk [] (setHdr (last (butlast (cArgs c))) (\<lambda>h. h\<lparr>slots := insert (last (cSecrets c)) (slots h)\<rparr>) w)
         else if verb = ''luksRemoveKey'' then lOk [] (setHdr d (\<lambda>h. h\<lparr>slots := slots h - {key}\<rparr>) w)
         else lOk [] w)"

definition luksHost :: "lsim host" where
  "luksHost = \<lparr>
     h_pipe = (\<lambda>w. (Inr (3, 4), w)), h_closeFd = (\<lambda>fd w. ((), w)), h_writeFd = (\<lambda>fd b w. ((), w)),
     h_start = (\<lambda>c ex w. (Inr (), w)), h_wait = lsimWait,
     h_stat = (\<lambda>p w. (Inl (Sentinel ErrNotExist), w)), h_mkdirAll = (\<lambda>p w. (Inr (), w)),
     h_remove = (\<lambda>p w. (Inr (), w)), h_readDir = (\<lambda>p w. (Inr [], w)),
     h_readFile = (\<lambda>p w. (Inl (Sentinel ErrNotExist), w)),
     h_open = (\<lambda>p w. (Inr (), w)), h_openRW = (\<lambda>p w. (Inr (), w)), h_openTrunc = (\<lambda>p w. (Inr (), w)),
     h_ftruncate = (\<lambda>p n w. (Inr (), w)),
     h_read = (\<lambda>p off n w. ((take n (drop off (lData w p)),
                 if length (lData w p) \<le> off then Some (Sentinel EOF) else None), w)),
     h_readAt = (\<lambda>p off n w. (([], Some (Sentinel EOF)), w)),
     h_flock = (\<lambda>p w. (Inr (), w)), h_write = (\<lambda>p b w. (Inr (), w)), h_sync = (\<lambda>p w. (Inr (), w)),
     h_close = (\<lambda>p w. (Inr (), w)), h_rename = (\<lambda>p q w. (Inr (), w)), h_globDm = (\<lambda>p w. (Inr [], w)),
     h_statfs = (\<lambda>p w. (Inl (Sentinel ErrNotExist), w)), h_pagesize = 4096, h_now = (\<lambda>w. (0, w)),
     h_answers = (\<lambda>p w. (True, w)), h_ready = (\<lambda>p w. (True, w)), h_http = (\<lambda>rq w. (Inr (200, []), w))\<rparr>"

lemma luks_openPipes: "\<exists>xs ys. run_state (openPipes luksHost ss as bs) w = (Inr (xs, ys), w)"
  by (induction ss arbitrary: as bs) (simp_all add: luksHost_def run_onFail)

lemma luks_forEach: "(\<And>x. run_state (f x) w = ((), w)) \<Longrightarrow> run_state (forEach xs f) w = ((), w)"
  by (induction xs) simp_all

lemma luks_exec: "run_state (osRunCmd luksHost c) w =
    (case lsimWait c w of ((out, None), w') \<Rightarrow> ((out, None), w')
     | ((out, Some (x, e)), w') \<Rightarrow> ((out, Some (ExecError (cName c) (cArgs c) x out (Some e))), w'))"
proof -
  obtain xs ys where p: "run_state (openPipes luksHost (cSecrets c) [] []) w = (Inr (xs, ys), w)"
    using luks_openPipes by blast
  have "run_state (closeAll luksHost fds) w = ((), w)" "run_state (feedSecrets luksHost ys ss) w = ((), w)" for fds ss
    by (auto simp: closeAll_def feedSecrets_def luksHost_def intro!: luks_forEach)
  then show ?thesis
    by (simp add: osRunCmd_def p) (simp add: luksHost_def split: prod.splits option.splits)
qed

lemmas luks_eval = luks_exec lsimWait_def Let_def cmd_defs lOk_def lFail_def lDump_def

lemma luks_query_law: "query_law luksHost lHdr"
  unfolding query_law_def by (auto simp: luks_eval exitCode_def)

lemma luks_test_law: "test_law luksHost lHdr"
  unfolding test_law_def by (auto simp: luks_eval exitCode_def split: option.splits)

lemma luks_slot_law: "slot_law luksHost lHdr"
  unfolding slot_law_def by (auto simp: luks_eval)

lemma luks_header_law: "header_law luksHost lHdr"
  unfolding header_law_def by (auto simp: luks_eval MapperPath_def hasPrefix_iff split: option.splits)

lemma luks_read_law: "read_law luksHost lData"
  unfolding read_law_def luks_exec by (auto simp: luksHost_def lsimWait_def Let_def cmd_defs lOk_def lFail_def min_def split: if_splits)

end
