(* ===== verification/Store.thy ===== *)
theory Store
  imports Mount Sha256 "HOL-Library.Multiset"
begin

text \<open>
  \<^verbatim>\<open>pkg/store\<close>, the configuration of a backing store: its identifiers (\<^verbatim>\<open>store.go\<close>), parsing it
  from a StorageClass and carrying it in a volume context (\<^verbatim>\<open>parse.go\<close>), and the two mounters
  (\<^verbatim>\<open>mounter_nfs.go\<close>, \<^verbatim>\<open>mounter_local.go\<close>).
\<close>

section \<open>Configurations and their identifiers\<close>

definition TypeNFS :: string where
  "TypeNFS = ''nfs''"

definition TypeLocal :: string where
  "TypeLocal = ''local''"

record config =
  Type :: string
  NFSServer :: string
  NFSPath :: string
  NFSMountOptions :: string
  NFSSubDir :: string
  LocalPath :: string
  LocalShared :: bool

definition emptyConfig :: config where
  "emptyConfig = \<lparr>Type = [], NFSServer = [], NFSPath = [], NFSMountOptions = [], NFSSubDir = [],
     LocalPath = [], LocalShared = False\<rparr>"

definition optionWords :: "string \<Rightarrow> string list" where
  "optionWords opts = filter (\<lambda>p. p \<noteq> []) (map trimSpace (split (CHR '','') opts))"

definition canonicalOptions :: "string \<Rightarrow> string" where
  "canonicalOptions opts = join '','' (sort (optionWords opts))"

definition mountKey :: "config \<Rightarrow> string" where
  "mountKey c =
     (if Type c = TypeNFS then join ''|'' [''nfs'', NFSServer c, NFSPath c, canonicalOptions (NFSMountOptions c)]
      else if Type c = TypeLocal then join ''|'' [''local'', LocalPath c]
      else ''invalid|'' @ Type c)"

definition storeKey :: "config \<Rightarrow> string" where
  "storeKey c = (if NFSSubDir c = [] then mountKey c else mountKey c @ ''|'' @ NFSSubDir c)"

definition hashID :: "string \<Rightarrow> string" where
  "hashID key = take 12 (hexEncode (sha256 key))"

definition MountID :: "config \<Rightarrow> string" where
  "MountID c = hashID (mountKey c)"

definition StoreID :: "config \<Rightarrow> string" where
  "StoreID c = hashID (storeKey c)"

section \<open>Parameters\<close>

definition ParamType :: string where "ParamType = ''backingStore.type''"

definition ParamNFSServer :: string where "ParamNFSServer = ''backingStore.nfs.server''"

definition ParamNFSPath :: string where "ParamNFSPath = ''backingStore.nfs.path''"

definition ParamNFSMountOptions :: string where "ParamNFSMountOptions = ''backingStore.nfs.mountOptions''"

definition ParamNFSSubDir :: string where "ParamNFSSubDir = ''backingStore.nfs.subDir''"

definition ParamLocalPath :: string where "ParamLocalPath = ''backingStore.local.path''"

definition ParamLocalShared :: string where "ParamLocalShared = ''backingStore.local.shared''"

definition VolumeContextStoreID :: string where "VolumeContextStoreID = ''storeID''"

definition paramPVCName :: string where "paramPVCName = ''csi.storage.k8s.io/pvc/name''"

definition paramPVCNamespace :: string where "paramPVCNamespace = ''csi.storage.k8s.io/pvc/namespace''"

definition paramPVName :: string where "paramPVName = ''csi.storage.k8s.io/pv/name''"

definition tmplPVCName :: string where "tmplPVCName = ''${pvc.name}''"

definition tmplPVCNamespace :: string where "tmplPVCNamespace = ''${pvc.namespace}''"

definition tmplPVName :: string where "tmplPVName = ''${pv.name}''"

lemmas param_defs = ParamType_def ParamNFSServer_def ParamNFSPath_def ParamNFSMountOptions_def ParamNFSSubDir_def
  ParamLocalPath_def ParamLocalShared_def VolumeContextStoreID_def paramPVCName_def paramPVCNamespace_def paramPVName_def

text \<open>\<^verbatim>\<open>if v := params[key]; v != "" { sub = strings.ReplaceAll(sub, tmpl, v) }\<close>\<close>

definition substParam :: "smap \<Rightarrow> string \<Rightarrow> string \<Rightarrow> string \<Rightarrow> string" where
  "substParam params key tmpl sub = (let v = sget params key in if v \<noteq> [] then replaceAll sub tmpl v else sub)"

definition resolveSubDir :: "string \<Rightarrow> smap \<Rightarrow> goerr + string" where
  "resolveSubDir raw params =
     (if raw = [] then Inr []
      else
        let sub = substParam params paramPVCNamespace tmplPVCNamespace raw;
            sub = substParam params paramPVCName tmplPVCName sub;
            sub = substParam params paramPVName tmplPVName sub
        in if contains sub ''${'' then Inl (Msg ''backingStore.nfs.subDir contains unresolved template'')
           else if CHR 0x00 \<in> set sub then Inl (Msg ''backingStore.nfs.subDir must not contain NUL bytes'')
           else if isAbs sub then Inl (Msg ''backingStore.nfs.subDir must be relative to the export'')
           else if ''..'' \<in> set (split (CHR ''/'') sub) then Inl (Msg ''backingStore.nfs.subDir must not contain .. path elements'')
           else if clean sub = ''.'' then Inl (Msg ''backingStore.nfs.subDir must name a subdirectory of the export'')
           else Inr (clean sub))"

definition ConfigFromParams :: "smap \<Rightarrow> goerr + config" where
  "ConfigFromParams params =
     (let t = sget params ParamType in
      if t = TypeNFS then
        let c = emptyConfig\<lparr>Type := TypeNFS, NFSServer := sget params ParamNFSServer, NFSPath := sget params ParamNFSPath,
                  NFSMountOptions := sget params ParamNFSMountOptions\<rparr>
        in if NFSServer c = [] then Inl (Msg ''backingStore.nfs.server is required'')
           else if NFSPath c = [] then Inl (Msg ''backingStore.nfs.path is required'')
           else (case resolveSubDir (sget params ParamNFSSubDir) params of
                   Inl e \<Rightarrow> Inl e
                 | Inr sub \<Rightarrow> Inr (c\<lparr>NFSSubDir := sub\<rparr>))
      else if t = TypeLocal then
        let c = emptyConfig\<lparr>Type := TypeLocal, LocalPath := sget params ParamLocalPath,
                  LocalShared := (sget params ParamLocalShared = ''true'')\<rparr>
        in if LocalPath c = [] then Inl (Msg ''backingStore.local.path is required'')
           else if sget params ParamNFSSubDir \<noteq> [] then Inl (Msg ''backingStore.nfs.subDir is not supported when type=local'')
           else Inr c
      else if t = [] then Inl (Msg ''backingStore.type is required'')
      else Inl (Msg ''backingStore.type not supported''))"

definition ToVolumeContext :: "config \<Rightarrow> smap" where
  "ToVolumeContext c =
     (let vc = [(ParamType, Type c), (VolumeContextStoreID, StoreID c)] in
      if Type c = TypeNFS then
        let vc = gm_put ParamNFSServer (NFSServer c) vc;
            vc = gm_put ParamNFSPath (NFSPath c) vc;
            vc = (if NFSMountOptions c \<noteq> [] then gm_put ParamNFSMountOptions (NFSMountOptions c) vc else vc)
        in if NFSSubDir c \<noteq> [] then gm_put ParamNFSSubDir (NFSSubDir c) vc else vc
      else if Type c = TypeLocal then
        let vc = gm_put ParamLocalPath (LocalPath c) vc
        in if LocalShared c then gm_put ParamLocalShared ''true'' vc else vc
      else vc)"

definition ConfigFromVolumeContext :: "smap \<Rightarrow> goerr + config" where
  "ConfigFromVolumeContext vc = ConfigFromParams vc"

section \<open>Mounters\<close>

definition nfsMount :: "'w host \<Rightarrow> string \<Rightarrow> config \<Rightarrow> (('w, 'm) sys_scheme, goerr + unit) state" where
  "nfsMount E target cfg =
     (if Type cfg \<noteq> TypeNFS then ret (Inl (Msg ''NFSMounter: cfg.Type, want nfs''))
      else if NFSServer cfg = [] then ret (Inl (Msg ''NFSMounter: cfg.NFSServer is empty''))
      else if NFSPath cfg = [] then ret (Inl (Msg ''NFSMounter: cfg.NFSPath is empty''))
      else onErr (RunE E ''mount'' ([''-t'', ''nfs'']
             @ (if NFSMountOptions cfg \<noteq> [] then [''-o'', NFSMountOptions cfg] else [])
             @ [NFSServer cfg @ '':'' @ NFSPath cfg, target]))
           (Wrap ''mount -t nfs'') (\<lambda>_. ret (Inr ())))"

definition localMount :: "'w host \<Rightarrow> string \<Rightarrow> config \<Rightarrow> (('w, 'm) sys_scheme, goerr + unit) state" where
  "localMount E target cfg =
     (if Type cfg \<noteq> TypeLocal then ret (Inl (Msg ''LocalMounter: cfg.Type, want local''))
      else if LocalPath cfg = [] then ret (Inl (Msg ''LocalMounter: cfg.LocalPath is empty''))
      else BindMount E (LocalPath cfg) target False)"

lemma stable_mounters [kept]:
  assumes "stable I"
  shows "keeps I (nfsMount E t c)" "keeps I (localMount E t c)"
  unfolding nfsMount_def localMount_def by (intro kept stable_Run stable_mount assms)+

section \<open>Identifiers\<close>

lemma lowerHex_hashID: "list_all lowerHex (hashID k)"
proof -
  have "list_all lowerHex (hexEncode (sha256 k))"
    by (rule lowerHex_hexEncode) (simp add: list_all_iff sha256_bound)
  then show ?thesis
    unfolding hashID_def by (auto simp: list_all_iff dest: in_set_takeD)
qed

lemma length_hashID: "length (hashID k) = 12"
  by (simp add: hashID_def length_hexEncode length_sha256)

lemma canonicalOptions_perm:
  assumes "mset (optionWords a) = mset (optionWords b)"
  shows "canonicalOptions a = canonicalOptions b"
  unfolding canonicalOptions_def using assms by (metis properties_for_sort mset_sort sorted_sort)

section \<open>Clean relative paths\<close>

text \<open>A path of named elements only: what \<^verbatim>\<open>path.Clean\<close> leaves of a relative path without \<open>..\<close>.\<close>

definition plainPath :: "string \<Rightarrow> bool" where
  "plainPath p \<longleftrightarrow> list_all entry_name (split (CHR ''/'') p)"

text \<open>A cleaned absolute directory other than the root.\<close>

definition cleanDir :: "string \<Rightarrow> bool" where
  "cleanDir d \<longleftrightarrow> isAbs d \<and> plainPath (tl d)"

lemma plainPath_join:
  assumes "ws \<noteq> []" "list_all entry_name ws"
  shows "plainPath (join ''/'' ws)"
proof -
  have "split (CHR ''/'') (join ''/'' ws) = ws"
    using assms by (intro split_join) (auto simp: list_all_iff entry_name_def)
  then show ?thesis using assms(2) by (simp add: plainPath_def)
qed

lemma plainPath_props:
  assumes "plainPath p"
  shows "p \<noteq> []" "\<not> isAbs p" "''..'' \<notin> set (split (CHR ''/'') p)" "clean p = p" "p \<noteq> ''.''"
proof -
  let ?ws = "split (CHR ''/'') p"
  have ws: "list_all entry_name ?ws" using assms by (simp add: plainPath_def)
  show ne: "p \<noteq> []" using ws by (auto simp: entry_name_def)
  show abs: "\<not> isAbs p"
    using ws by (cases p) (auto simp: isAbs_def entry_name_def)
  show dd: "''..'' \<notin> set ?ws" using ws by (auto simp: list_all_iff entry_name_def)
  have "filter (\<lambda>w. w \<noteq> [] \<and> w \<noteq> ''.'') ?ws = ?ws"
    using ws by (intro filter_True) (auto simp: list_all_iff entry_name_def)
  then have "clean_segs False ?ws = ?ws" using clean_segs_plain [OF dd] by simp
  then show "clean p = p"
    using abs ne by (simp add: clean_def Let_def join_split)
  show "p \<noteq> ''.''" using ws by (auto simp: entry_name_def)
qed

lemma clean_plain:
  assumes "\<not> isAbs s" "''..'' \<notin> set (split (CHR ''/'') s)" "clean s \<noteq> ''.''"
  shows "plainPath (clean s)"
proof -
  let ?ws = "filter (\<lambda>w. w \<noteq> [] \<and> w \<noteq> ''.'') (split (CHR ''/'') s)"
  have c: "clean s = (if join ''/'' ?ws = [] then ''.'' else join ''/'' ?ws)"
    using assms(1) by (simp add: clean_def Let_def clean_segs_plain [OF assms(2)])
  then have "clean s = join ''/'' ?ws" "?ws \<noteq> []" using assms(3) by (auto split: if_splits)
  moreover have "list_all entry_name ?ws"
    using assms(2) by (auto simp: list_all_iff entry_name_def dest: split_no_sep)
  ultimately show ?thesis using plainPath_join by simp
qed

lemma join_append_sep: "a \<noteq> [] \<Longrightarrow> b \<noteq> [] \<Longrightarrow> join sep (a @ b) = join sep a @ sep @ join sep b"
proof (induction a)
  case (Cons x a)
  then show ?case by (cases "a = []") (simp_all add: join_Cons)
qed simp

lemma joinPath_under:
  assumes "cleanDir d" "plainPath p"
  shows "joinPath [d, p] = d @ ''/'' @ p"
proof -
  obtain q where d: "d = CHR ''/'' # q" using assms(1) by (cases d) (auto simp: cleanDir_def isAbs_def)
  have q: "plainPath q" using assms(1) d by (simp add: cleanDir_def)
  have ne: "d \<noteq> []" "p \<noteq> []" using d plainPath_props(1) [OF assms(2)] by auto
  let ?wq = "split (CHR ''/'') q" and ?wp = "split (CHR ''/'') p"
  have sp: "split (CHR ''/'') (d @ ''/'' @ p) = [] # ?wq @ ?wp"
    using d by (simp add: split_append)
  have all: "list_all entry_name (?wq @ ?wp)" using q assms(2) by (simp add: plainPath_def)
  have f: "filter (\<lambda>w. w \<noteq> [] \<and> w \<noteq> ''.'') (?wq @ ?wp) = ?wq @ ?wp"
    using all by (intro filter_True) (auto simp: list_all_iff entry_name_def)
  have "''..'' \<notin> set ([] # ?wq @ ?wp)" using all by (auto simp: list_all_iff entry_name_def)
  moreover have "filter (\<lambda>w. w \<noteq> [] \<and> w \<noteq> ''.'') ([] # ?wq @ ?wp) = ?wq @ ?wp"
    using f by (simp del: filter_append)
  ultimately have "clean_segs True ([] # ?wq @ ?wp) = ?wq @ ?wp" using clean_segs_plain by metis
  moreover have "isAbs (d @ ''/'' @ p)" using d by (simp add: isAbs_def)
  ultimately have "clean (d @ ''/'' @ p) = CHR ''/'' # join ''/'' (?wq @ ?wp)"
    by (simp only: clean_def sp Let_def if_True)
  also have "join ''/'' (?wq @ ?wp) = q @ ''/'' @ p"
    using join_append_sep [of ?wq ?wp "''/''"] by (simp add: join_split)
  finally show ?thesis using ne d by (simp add: joinPath_def)
qed

section \<open>Properties\<close>

lemma contains_segment:
  assumes "CHR ''/'' \<notin> set pat" "pat \<noteq> []" "contains (join ''/'' ws) pat"
  shows "\<exists>w \<in> set ws. contains w pat"
  using assms(3)
proof (induction ws)
  case (Cons w ws)
  show ?case
  proof (cases "ws = []")
    case False
    obtain u v where uv: "w @ CHR ''/'' # join ''/'' ws = u @ pat @ v"
      using Cons.prems False by (auto simp: contains_iff join_Cons)
    then consider (left) r where "w = u @ pat @ r"
      | (mid) "CHR ''/'' \<in> set pat"
      | (right) r where "join ''/'' ws = r @ pat @ v"
      using assms(2) by (auto simp: append_eq_append_conv2 append_eq_Cons_conv Cons_eq_append_conv)
    then show ?thesis
    proof cases
      case right
      then have "contains (join ''/'' ws) pat" by (auto simp: contains_iff)
      with Cons.IH show ?thesis by auto
    qed (use assms(1) in \<open>auto simp: contains_iff\<close>)
  qed (use Cons.prems in simp)
qed (use assms(2) in \<open>simp add: contains_iff\<close>)

lemma join_mem: "w \<in> set ws \<Longrightarrow> \<exists>u v. join sep ws = u @ w @ v"
proof (induction ws)
  case (Cons x ws)
  show ?case
  proof (cases "w = x")
    case True
    then show ?thesis by (cases ws) (auto intro: exI [of _ "[]"])
  next
    case False
    with Cons.prems have w: "w \<in> set ws" by simp
    then obtain u v where "join sep ws = u @ w @ v" using Cons.IH by blast
    moreover have "ws \<noteq> []" using w by auto
    ultimately have "join sep (x # ws) = (x @ sep @ u) @ w @ v" by (simp add: join_Cons)
    then show ?thesis by blast
  qed
qed simp

lemma contains_clean:
  assumes "\<not> isAbs s" "''..'' \<notin> set (split (CHR ''/'') s)" "clean s \<noteq> ''.''"
    and "CHR ''/'' \<notin> set pat" "pat \<noteq> []" "\<not> contains s pat"
  shows "\<not> contains (clean s) pat"
proof
  assume c: "contains (clean s) pat"
  let ?ws = "filter (\<lambda>w. w \<noteq> [] \<and> w \<noteq> ''.'') (split (CHR ''/'') s)"
  have "clean s = join ''/'' ?ws"
    using assms(1,3) by (auto simp: clean_def Let_def clean_segs_plain [OF assms(2)] split: if_splits)
  with c contains_segment [OF assms(4,5)] obtain w where w: "w \<in> set (split (CHR ''/'') s)" "contains w pat"
    by fastforce
  then obtain u v where "s = u @ w @ v" using join_mem [OF w(1), of "''/''"] by (auto simp: join_split)
  with w(2) assms(6) show False
    by (auto simp: contains_iff) (metis append.assoc)
qed

lemma resolveSubDir_plain:
  assumes "resolveSubDir raw params = Inr sub"
  shows "(raw = [] \<and> sub = []) \<or> (raw \<noteq> [] \<and> plainPath sub \<and> \<not> contains sub ''${'' \<and> CHR 0x00 \<notin> set sub)"
proof (cases "raw = []")
  case False
  define s where "s = substParam params paramPVName tmplPVName (substParam params paramPVCName tmplPVCName
    (substParam params paramPVCNamespace tmplPVCNamespace raw))"
  have s: "\<not> contains s ''${''" "CHR 0x00 \<notin> set s" "\<not> isAbs s" "''..'' \<notin> set (split (CHR ''/'') s)"
      "clean s \<noteq> ''.''" "sub = clean s"
    using assms False by (auto simp: resolveSubDir_def s_def Let_def split: if_splits)
  have "\<not> contains s [CHR 0x00]" using s(2) by (auto simp: contains_iff)
  then have "\<not> contains (clean s) [CHR 0x00]" using contains_clean [OF s(3,4,5)] by simp
  then have "CHR 0x00 \<notin> set sub" using s(6) split_list [of "CHR 0x00" sub] by (auto simp: contains_iff)
  moreover have "\<not> contains sub ''${''" using contains_clean [OF s(3,4,5) _ _ s(1)] s(6) by simp
  moreover have "plainPath sub" using clean_plain [OF s(3,4,5)] s(6) by simp
  ultimately show ?thesis using False by blast
qed (use assms in \<open>simp add: resolveSubDir_def\<close>)

text \<open>What a substitution leaves of a plain path when there is nothing to substitute.\<close>

lemma resolveSubDir_again:
  assumes "plainPath sub" "\<not> contains sub ''${''" "CHR 0x00 \<notin> set sub"
    and "sget vc paramPVCNamespace = []" "sget vc paramPVCName = []" "sget vc paramPVName = []"
  shows "resolveSubDir sub vc = Inr sub"
  using assms plainPath_props [OF assms(1)] by (simp add: resolveSubDir_def substParam_def Let_def)

text \<open>
  C22: A sub-directory accepted from a StorageClass cannot leave the export. Whatever the
  templates expand to, below any cleaned mount directory the store path is the mount path, a
  slash, and a list of proper names (no empty, \<open>.\<close> or \<open>..\<close> element), and it contains neither a
  NUL byte nor an unresolved template.
\<close>

theorem resolveSubDir_confined:
  assumes "resolveSubDir raw params = Inr sub" "raw \<noteq> []" "cleanDir d"
  shows "joinPath [d, sub] = d @ ''/'' @ sub \<and> list_all entry_name (split (CHR ''/'') sub)
       \<and> \<not> contains sub ''${'' \<and> CHR 0x00 \<notin> set sub"
  using resolveSubDir_plain [OF assms(1)] assms(2) joinPath_under [OF assms(3)] by (auto simp: plainPath_def)

lemma ConfigFromParams_cong:
  assumes "\<And>k. k \<in> set [ParamType, ParamNFSServer, ParamNFSPath, ParamNFSMountOptions, ParamNFSSubDir, ParamLocalPath, ParamLocalShared,
      paramPVCName, paramPVCNamespace, paramPVName] \<Longrightarrow> sget a k = sget b k"
  shows "ConfigFromParams a = ConfigFromParams b"
proof -
  have e: "sget a ParamType = sget b ParamType" "sget a ParamNFSServer = sget b ParamNFSServer" "sget a ParamNFSPath = sget b ParamNFSPath"
    "sget a ParamNFSMountOptions = sget b ParamNFSMountOptions" "sget a ParamNFSSubDir = sget b ParamNFSSubDir"
    "sget a ParamLocalPath = sget b ParamLocalPath" "sget a ParamLocalShared = sget b ParamLocalShared"
    "sget a paramPVCName = sget b paramPVCName" "sget a paramPVCNamespace = sget b paramPVCNamespace" "sget a paramPVName = sget b paramPVName"
    by (simp_all add: assms)
  have r: "resolveSubDir raw a = resolveSubDir raw b" for raw
    unfolding resolveSubDir_def substParam_def e by (rule refl)
  show ?thesis unfolding ConfigFromParams_def e r by (rule refl)
qed

lemma config_context:
  assumes "ConfigFromParams params = Inr c"
  shows "ConfigFromVolumeContext (ToVolumeContext c) = Inr c"
proof (cases "sget params ParamType = TypeNFS")
  case True
  then obtain sub where sub: "resolveSubDir (sget params ParamNFSSubDir) params = Inr sub"
    and c: "c = emptyConfig\<lparr>Type := TypeNFS, NFSServer := sget params ParamNFSServer, NFSPath := sget params ParamNFSPath,
          NFSMountOptions := sget params ParamNFSMountOptions, NFSSubDir := sub\<rparr>"
    and ne: "NFSServer c \<noteq> []" "NFSPath c \<noteq> []"
    using assms by (auto simp: ConfigFromParams_def Let_def split: if_splits sum.splits)
  let ?vc = "ToVolumeContext c"
  have vc: "sget ?vc ParamType = TypeNFS" "sget ?vc ParamNFSServer = NFSServer c" "sget ?vc ParamNFSPath = NFSPath c"
    "sget ?vc ParamNFSMountOptions = NFSMountOptions c" "sget ?vc ParamNFSSubDir = sub"
    "sget ?vc paramPVCNamespace = []" "sget ?vc paramPVCName = []" "sget ?vc paramPVName = []"
    using c by (simp_all add: ToVolumeContext_def Let_def sget_put param_defs) (simp_all add: sget_def)
  have "resolveSubDir sub ?vc = Inr sub"
    using resolveSubDir_plain [OF sub] resolveSubDir_again [OF _ _ _ vc(6-8)]
    by (cases "sub = []") (auto simp: resolveSubDir_def [of "[]"])
  then show ?thesis
    using vc(1-5) ne c by (simp add: ConfigFromVolumeContext_def ConfigFromParams_def Let_def)
next
  case False
  then have c: "c = emptyConfig\<lparr>Type := TypeLocal, LocalPath := sget params ParamLocalPath,
                  LocalShared := (sget params ParamLocalShared = ''true'')\<rparr>" "LocalPath c \<noteq> []"
    using assms by (auto simp: ConfigFromParams_def Let_def split: if_splits)
  let ?vc = "ToVolumeContext c"
  have t: "TypeLocal \<noteq> TypeNFS" by (simp add: TypeLocal_def TypeNFS_def)
  have "sget ?vc ParamType = TypeLocal" "sget ?vc ParamLocalPath = LocalPath c" "sget ?vc ParamNFSSubDir = []"
    "sget ?vc ParamLocalShared = (if LocalShared c then ''true'' else [])"
    using c t by (simp_all add: ToVolumeContext_def Let_def sget_put param_defs) (simp_all add: sget_def)
  then show ?thesis
    using c t by (simp add: ConfigFromVolumeContext_def ConfigFromParams_def Let_def)
qed

text \<open>
  The node reconstructs the controller's configuration. A configuration accepted from a
  StorageClass, written into the volume context and parsed back, is the same configuration,
  although the context lacks the metadata the templates were expanded from.
\<close>

theorem volume_context_roundtrip:
  assumes "ConfigFromParams params = Inr c"
  shows "ConfigFromVolumeContext (ToVolumeContext c) = Inr c"
  by (rule config_context [OF assms])

text \<open>
  C30: Store identifiers. Both identifiers are twelve lower-case hexadecimal digits; the
  identifier of the mount ignores the sub-directory and the order, spacing and empty entries of
  the mount options; without a sub-directory the two coincide.
\<close>

theorem store_ids:
  "length (StoreID c) = 12 \<and> list_all lowerHex (StoreID c) \<and> length (MountID c) = 12 \<and> list_all lowerHex (MountID c)
   \<and> MountID (c\<lparr>NFSSubDir := d\<rparr>) = MountID c
   \<and> StoreID (c\<lparr>NFSSubDir := []\<rparr>) = MountID c
   \<and> (mset (optionWords a) = mset (optionWords b) \<longrightarrow>
        MountID (c\<lparr>NFSMountOptions := a\<rparr>) = MountID (c\<lparr>NFSMountOptions := b\<rparr>)
      \<and> StoreID (c\<lparr>NFSMountOptions := a\<rparr>) = StoreID (c\<lparr>NFSMountOptions := b\<rparr>))"
  by (auto simp: StoreID_def MountID_def storeKey_def mountKey_def length_hashID lowerHex_hashID
      dest: canonicalOptions_perm)

text \<open>The words between the bars of a key.\<close>

definition noBar :: "config \<Rightarrow> bool" where
  "noBar c \<longleftrightarrow> CHR ''|'' \<notin> set (NFSServer c @ NFSPath c @ NFSMountOptions c @ NFSSubDir c @ LocalPath c)"

lemma join_chars: "set (join sep ws) \<subseteq> set sep \<union> \<Union> (set ` set ws)"
  by (induction sep ws rule: join.induct) auto

lemma canonicalOptions_noBar: "c \<notin> set opts \<Longrightarrow> c \<noteq> CHR '','' \<Longrightarrow> c \<notin> set (canonicalOptions opts)"
proof -
  assume c: "c \<notin> set opts" "c \<noteq> CHR '',''"
  have "c \<notin> set w" if "w \<in> set (split (CHR '','') opts)" for w
    using join_mem [OF that, of "'',''"] c(1) by (auto simp: join_split)
  then have "c \<notin> \<Union> (set ` set (sort (optionWords opts)))"
    using set_trimSpace by (fastforce simp: optionWords_def)
  then show ?thesis
    unfolding canonicalOptions_def using join_chars [of "'',''"] c(2) by fastforce
qed

lemma storeKey_words:
  assumes "Type c \<in> {TypeNFS, TypeLocal}" "noBar c" "Type c = TypeLocal \<longrightarrow> NFSSubDir c = []"
  shows "split (CHR ''|'') (storeKey c) =
    (if Type c = TypeNFS then [''nfs'', NFSServer c, NFSPath c, canonicalOptions (NFSMountOptions c)] @
       (if NFSSubDir c = [] then [] else [NFSSubDir c])
     else [''local'', LocalPath c])" (is "_ = ?ws")
proof -
  have "storeKey c = join ''|'' ?ws"
    using assms(1,3) by (auto simp: storeKey_def mountKey_def TypeNFS_def TypeLocal_def)
  moreover have "CHR ''|'' \<notin> set (canonicalOptions (NFSMountOptions c))"
    using assms(2) by (intro canonicalOptions_noBar) (simp_all add: noBar_def)
  then have "\<And>w. w \<in> set ?ws \<Longrightarrow> CHR ''|'' \<notin> set w"
    using assms(2) by (auto simp: noBar_def split: if_splits)
  then have "split (CHR ''|'') (join ''|'' ?ws) = ?ws"
    by (intro split_join) simp_all
  ultimately show ?thesis by simp
qed

text \<open>
  Different stores have different keys. Two configurations without a bar in their fields
  have the same store key only if they name the same server, path, canonical options and
  sub-directory, or the same local path; so their identifiers can agree only by a collision
  of the hash.
\<close>

theorem storeKey_injective:
  assumes "Type a \<in> {TypeNFS, TypeLocal}" "noBar a" "Type a = TypeLocal \<longrightarrow> NFSSubDir a = []"
    and "Type b \<in> {TypeNFS, TypeLocal}" "noBar b" "Type b = TypeLocal \<longrightarrow> NFSSubDir b = []"
    and "storeKey a = storeKey b"
  shows "Type a = Type b \<and>
    (if Type a = TypeNFS
     then NFSServer a = NFSServer b \<and> NFSPath a = NFSPath b \<and> NFSSubDir a = NFSSubDir b
        \<and> canonicalOptions (NFSMountOptions a) = canonicalOptions (NFSMountOptions b)
     else LocalPath a = LocalPath b)"
proof -
  have "''nfs'' \<noteq> ''local''" by simp
  then show ?thesis
    using storeKey_words [OF assms(1-3)] storeKey_words [OF assms(4-6)] assms(1,4,7)
    by (auto split: if_splits)
qed

text \<open>
  With a bar in the path the keys of two accepted configurations can coincide, for a store at
  the root of one export and one in a sub-directory of another.
\<close>

lemma storeKey_collision:
  "storeKey (emptyConfig\<lparr>Type := TypeNFS, NFSServer := ''s'', NFSPath := ''/p|'', NFSMountOptions := ''x''\<rparr>)
   = storeKey (emptyConfig\<lparr>Type := TypeNFS, NFSServer := ''s'', NFSPath := ''/p'', NFSSubDir := ''x''\<rparr>)"
  by (simp add: storeKey_def mountKey_def emptyConfig_def TypeNFS_def canonicalOptions_def optionWords_def trimSpace_ascii isSpace_def)

end
