(* ===== verification/Registry.thy ===== *)
theory Registry
  imports Store
begin

text \<open>
  \<^verbatim>\<open>pkg/store/registry.go\<close>: each backing-store configuration is mounted once per process and
  its path handed out, after checking that the mount is still there.

  Calls are sequential here (the per-mount mutex makes them so for one mount). A check that
  runs in its own goroutine is run at the place where it is started; \<open>h_answers\<close> says whether
  its answer arrives before the timer, \<open>h_ready\<close> whether the answer of an abandoned check is
  waiting in its channel.
\<close>

section \<open>State\<close>

text \<open>The fields fixed at construction; a \<open>False\<close> is a nil interface value.\<close>

record registry =
  r_root :: string
  r_nfsM :: bool
  r_localM :: bool
  r_mp :: bool

text \<open>The maps. Of \<^verbatim>\<open>storeMu\<close> and \<^verbatim>\<open>checking\<close> only the keys are kept.\<close>

record 'w reg_st = "'w sys" +
  mounted :: "(string, string) gomap"
  stores :: "(string, string) gomap"
  configs :: "(string, config) gomap"
  storeMu :: "string list"
  checks :: "string list"

definition storeIDPattern :: "string \<Rightarrow> bool" where
  "storeIDPattern s \<longleftrightarrow> length s = 12 \<and> list_all lowerHex s"

section \<open>Operations\<close>

definition NewRegistry :: "(('w, 'm) reg_st_scheme, unit) state" where
  "NewRegistry = modify (\<lambda>s. s\<lparr>mounted := [], stores := [], configs := [], storeMu := [], checks := []\<rparr>)"

definition clearCheck :: "string \<Rightarrow> (('w, 'm) reg_st_scheme, unit) state" where
  "clearCheck i = modify (\<lambda>s. s\<lparr>checks := filter (\<lambda>j. j \<noteq> i) (checks s)\<rparr>)"

definition lockStore :: "string \<Rightarrow> (('w, 'm) reg_st_scheme, unit) state" where
  "lockStore i = modify (\<lambda>s. if i \<in> set (storeMu s) then s else s\<lparr>storeMu := storeMu s @ [i]\<rparr>)"

definition checkMountPoint :: "'w host \<Rightarrow> string \<Rightarrow> string \<Rightarrow> (('w, 'm) reg_st_scheme, (goerr + bool) option) state" where
  "checkMountPoint E i path = do {
     inFlight \<leftarrow> gets (\<lambda>s. i \<in> set (checks s));
     if inFlight then do {
       ready \<leftarrow> sysc (h_ready E i);
       (if ready then clearCheck i else ret ());
       ret None
     }
     else do {
       modify (\<lambda>s. s\<lparr>checks := checks s @ [i]\<rparr>);
       inTime \<leftarrow> sysc (h_answers E path);
       res \<leftarrow> IsMountPoint E path;
       if inTime then do { clearCheck i; ret (Some res) }
       else ret None
     }
   }"

definition stillMounted :: "'w host \<Rightarrow> registry \<Rightarrow> string \<Rightarrow> string \<Rightarrow> (('w, 'm) reg_st_scheme, bool) state" where
  "stillMounted E R i path =
     (if \<not> r_mp R then ret True
      else do {
        res \<leftarrow> checkMountPoint E i path;
        ret (case res of None \<Rightarrow> True | Some (Inl e) \<Rightarrow> True | Some (Inr b) \<Rightarrow> b)
      })"

definition evictStores :: "string \<Rightarrow> (string, string) gomap \<Rightarrow> (string, string) gomap" where
  "evictStores path m = filter (\<lambda>(i, p). \<not> (p = path \<or> hasPrefix p (path @ ''/''))) m"

definition mounterFor :: "'w host \<Rightarrow> registry \<Rightarrow> string \<Rightarrow>
    goerr + (string \<Rightarrow> config \<Rightarrow> (('w, 'm) sys_scheme, goerr + unit) state)" where
  "mounterFor E R t =
     (if t = TypeNFS then (if \<not> r_nfsM R then Inl (Msg ''nfs mounter not available'') else Inr (nfsMount E))
      else if t = TypeLocal then (if \<not> r_localM R then Inl (Msg ''local mounter not available'') else Inr (localMount E))
      else Inl (Msg ''unknown backing-store type''))"

text \<open>
  \<^verbatim>\<open>Get\<close> in its three parts: the cached mount if it may still be handed out, a new mount
  otherwise, and the store path inside it.
\<close>

definition regCached :: "'w host \<Rightarrow> registry \<Rightarrow> string \<Rightarrow> (('w, 'm) reg_st_scheme, string option) state" where
  "regCached E R mountID = do {
     path \<leftarrow> gets (\<lambda>s. gm_get (mounted s) mountID);
     case path of
       None \<Rightarrow> ret None
     | Some p \<Rightarrow> do {
         ok \<leftarrow> stillMounted E R mountID p;
         if ok then ret (Some p)
         else do {
           modify (\<lambda>s. s\<lparr>mounted := gm_del mountID (mounted s), stores := evictStores p (stores s)\<rparr>);
           ret None
         }
       }
   }"

definition regMountNew :: "'w host \<Rightarrow> registry \<Rightarrow> config \<Rightarrow> (('w, 'm) reg_st_scheme, goerr + string) state" where
  "regMountNew E R cfg =
     (let target = joinPath [r_root R, MountID cfg] in
      onErr (sysc (h_mkdirAll E target)) (Wrap ''mkdir'') (\<lambda>_.
        case mounterFor E R (Type cfg) of
          Inl e \<Rightarrow> ret (Inl e)
        | Inr mnt \<Rightarrow> onErr (mnt target cfg) id (\<lambda>_. do {
            modify (\<lambda>s. s\<lparr>mounted := gm_put (MountID cfg) target (mounted s)\<rparr>);
            ret (Inr target)
          })))"

definition regMount :: "'w host \<Rightarrow> registry \<Rightarrow> config \<Rightarrow> (('w, 'm) reg_st_scheme, goerr + string) state" where
  "regMount E R cfg = do {
     lockStore (MountID cfg);
     cached \<leftarrow> regCached E R (MountID cfg);
     case cached of Some p \<Rightarrow> ret (Inr p) | None \<Rightarrow> regMountNew E R cfg
   }"

definition regStore :: "'w host \<Rightarrow> config \<Rightarrow> string \<Rightarrow> (('w, 'm) reg_st_scheme, goerr + string) state" where
  "regStore E cfg path =
     (let storeID = StoreID cfg;
          sub = (if NFSSubDir cfg \<noteq> [] then joinPath [path, NFSSubDir cfg] else path)
      in onErr (if NFSSubDir cfg \<noteq> [] then do {
                  seen \<leftarrow> gets (\<lambda>s. gm_get (stores s) storeID);
                  case seen of None \<Rightarrow> sysc (h_mkdirAll E sub) | Some _ \<Rightarrow> ret (Inr ())
                }
                else ret (Inr ())) (Wrap ''mkdir'') (\<lambda>_. do {
           modify (\<lambda>s. s\<lparr>stores := gm_put storeID sub (stores s), configs := gm_put storeID cfg (configs s)\<rparr>);
           ret (Inr sub)
         }))"

definition regGet :: "'w host \<Rightarrow> registry \<Rightarrow> config \<Rightarrow> (('w, 'm) reg_st_scheme, goerr + string) state" where
  "regGet E R cfg = onErr (regMount E R cfg) id (regStore E cfg)"

definition ConfigByStoreID :: "string \<Rightarrow> (('w, 'm) reg_st_scheme, config option) state" where
  "ConfigByStoreID i = gets (\<lambda>s. gm_get (configs s) i)"

text \<open>Values in order, each once, the first occurrence kept.\<close>

fun dedup :: "string list \<Rightarrow> string list \<Rightarrow> string list" where
  "dedup seen [] = []"
| "dedup seen (p # ps) = (if p \<in> set seen then dedup seen ps else p # dedup (p # seen) ps)"

definition MountedPaths :: "(('w, 'm) reg_st_scheme, string list) state" where
  "MountedPaths = gets (\<lambda>s. dedup [] (map snd (stores s) @ map snd (mounted s)))"

definition adoptEntry :: "'w host \<Rightarrow> registry \<Rightarrow> string \<times> bool \<Rightarrow> (('w, 'm) reg_st_scheme, unit) state" where
  "adoptEntry E R e = (case e of (i, isDir) \<Rightarrow>
     if \<not> isDir \<or> \<not> storeIDPattern i then ret ()
     else do {
       let target = joinPath [r_root R, i];
       r \<leftarrow> IsMountPoint E target;
       case r of
         Inr True \<Rightarrow> modify (\<lambda>s. s\<lparr>mounted := gm_put i target (mounted s)\<rparr>)
       | _ \<Rightarrow> ret ()
     })"

definition AdoptExisting :: "'w host \<Rightarrow> registry \<Rightarrow> (('w, 'm) reg_st_scheme, goerr + unit) state" where
  "AdoptExisting E R = do {
     es \<leftarrow> sysc (h_readDir E (r_root R));
     case es of
       Inl e \<Rightarrow> ret (if error_is e ErrNotExist then Inr () else Inl (Wrap ''read stores root'' e))
     | Inr entries \<Rightarrow> do { forEach entries (adoptEntry E R); ret (Inr ()) }
   }"

section \<open>Interfaces\<close>

text \<open>
  What \<^verbatim>\<open>Get\<close> needs of its \<^verbatim>\<open>MountChecker\<close>: asking does not change the mount table, and a live mount is
  never reported as not mounted.
\<close>

locale live_checker =
  fixes ok :: bool
    and live :: "'w \<Rightarrow> string list"
    and check :: "string \<Rightarrow> (('w, 'm) sys_scheme, goerr + bool) state"
  assumes check_table: "ok \<Longrightarrow> live (world (snd (run_state (check t) s))) = live (world s)"
    and check_live: "ok \<Longrightarrow> t \<in> set (live (world s)) \<Longrightarrow> fst (run_state (check t) s) \<noteq> Inr False"
begin

lemma check_keeps: "ok \<Longrightarrow> t \<in> set (live (world s)) \<Longrightarrow> run_state (check t) s = (r, s') \<Longrightarrow>
    (case r of Inl e \<Rightarrow> True | Inr b \<Rightarrow> b) \<and> t \<in> set (live (world s'))"
  using check_table [of t s] check_live [of t s] by (auto split: sum.split)

end

interpretation lc: live_checker "live_law E mounts" mounts "IsMountPoint E" for E :: "'w host" and mounts
  by unfold_locales (simp_all add: IsMountPoint_live)

text \<open>
  \<^verbatim>\<open>MountChecker\<close>: an answer, when there is one, is the truth about the mount table, and asking
  changes nothing but the history, where it leaves \<^verbatim>\<open>findmnt\<close> calls only.
\<close>

locale mount_checker =
  fixes ok :: bool
    and live :: "'w \<Rightarrow> string list"
    and check :: "string \<Rightarrow> (('w, 'm) sys_scheme, goerr + bool) state"
  assumes check_law: "ok \<Longrightarrow> \<exists>cs r. run_state (check t) s = (r, s\<lparr>calls := calls s @ cs\<rparr>)
      \<and> (\<forall>c \<in> set cs. cName c = ''findmnt'') \<and> (\<forall>b. r = Inr b \<longrightarrow> b = (t \<in> set (live (world s))))"
begin

lemma check_true: "ok \<Longrightarrow> fst (run_state (check t) s) = Inr True \<Longrightarrow> t \<in> set (live (world s))"
  using check_law [of t s] by auto

lemma check_calls:
  assumes "ok"
  shows "\<exists>cs. snd (run_state (check t) s) = s\<lparr>calls := calls s @ cs\<rparr> \<and> (\<forall>c \<in> set cs. cName c = ''findmnt'')"
  using check_law [OF assms, of t s] by auto

end

sublocale mount_checker < live_checker
proof
  fix t s
  assume "ok"
  from check_law [OF this, of t s]
  show "live (world (snd (run_state (check t) s))) = live (world s)"
    and "t \<in> set (live (world s)) \<Longrightarrow> fst (run_state (check t) s) \<noteq> Inr False" by auto
qed

interpretation mp: mount_checker "findmnt_law E mounts" mounts "IsMountPoint E" for E :: "'w host" and mounts
proof
  fix t :: string and s :: "('w, 'a) sys_scheme"
  assume law: "findmnt_law E mounts"
  let ?r = "case fst (h_stat E t (world s)) of
      Inl e \<Rightarrow> if error_is e ErrNotExist then Inr False else Inl e
    | Inr _ \<Rightarrow> Inr (t \<in> set (mounts (world s)))"
  obtain cs where cs: "run_state (IsMountPoint E t) s = (?r, s\<lparr>calls := calls s @ cs\<rparr>)" "\<forall>c \<in> set cs. cName c = ''findmnt''"
    using IsMountPoint_correct [OF law, of t s] by blast
  have b: "b = (t \<in> set (mounts (world s)))" if "?r = Inr b" for b
    using that findmnt_lawD(2) [OF law, of t "world s"] by (auto split: sum.splits if_splits)
  show "\<exists>cs r. run_state (IsMountPoint E t) s = (r, s\<lparr>calls := calls s @ cs\<rparr>)
      \<and> (\<forall>c \<in> set cs. cName c = ''findmnt'') \<and> (\<forall>b. r = Inr b \<longrightarrow> b = (t \<in> set (mounts (world s))))"
    by (intro exI [of _ cs] exI [of _ ?r] conjI) (fact cs, fact cs, intro allI impI b)
qed

text \<open>
  \<^verbatim>\<open>Mounter\<close>: it refuses a configuration of another type without running anything, runs only
  \<^verbatim>\<open>mount\<close>, and a success means that it did.
\<close>

locale mounter =
  fixes kind :: string
    and mnt :: "string \<Rightarrow> config \<Rightarrow> (('w, 'm) sys_scheme, goerr + unit) state"
  assumes mnt_kind: "Type c \<noteq> kind \<Longrightarrow> \<exists>e. run_state (mnt t c) s = (Inl e, s)"
    and mnt_logs: "logs (\<lambda>x. cName x = ''mount'') (mnt t c)"
    and mnt_keeps: "stable I \<Longrightarrow> keeps I (mnt t c)"
    and mnt_ran: "run_state (mnt t c) s = (Inr (), s') \<Longrightarrow> newcalls s s' \<noteq> []"
begin

lemma mnt_success:
  assumes "run_state (mnt t c) s = (Inr (), s')"
  shows "Type c = kind \<and> (\<exists>x \<in> set (newcalls s s'). cName x = ''mount'')"
proof -
  have "Type c = kind" using mnt_kind [of c t s] assms by (cases "Type c = kind") auto
  then show ?thesis
    using mnt_ran [OF assms] logs_new [OF mnt_logs assms] by (cases "newcalls s s'") auto
qed

end

interpretation nfsM: mounter TypeNFS "nfsMount E" for E :: "'w host"
proof (unfold_locales, goal_cases)
  case (2 t c)
  show ?case unfolding nfsMount_def by (intro logged) simp_all
next
  case (4 t c s s')
  then show ?case
    by (auto simp: nfsMount_def run_onErr RunE_def Run_def run_RunCmd newcalls_def split: sum.splits if_splits)
qed (simp_all add: nfsMount_def stable_mounters [unfolded nfsMount_def])

interpretation localM: mounter TypeLocal "localMount E" for E :: "'w host"
proof (unfold_locales, goal_cases)
  case (2 t c)
  show ?case unfolding localMount_def BindMount_def by (intro logged) simp_all
next
  case (4 t c s s')
  then show ?case
    by (auto simp: localMount_def BindMount_def run_onErr RunE_def Run_def run_RunCmd newcalls_def split: sum.splits if_splits)
qed (simp_all add: localMount_def stable_mounters [unfolded localMount_def])

text \<open>So a new mount of a store is the work of the mounter of its type, and it was really made.\<close>

lemma regMountNew_mounts:
  assumes "run_state (regMountNew E R cfg) s = (Inr p, s')"
  shows "Type cfg \<in> {TypeNFS, TypeLocal} \<and> (\<exists>c \<in> set (newcalls s s'). cName c = ''mount'')"
proof -
  obtain mnt :: "string \<Rightarrow> config \<Rightarrow> (('a, 'b) reg_st_scheme, goerr + unit) state" where m: "mounterFor E R (Type cfg) = Inr mnt"
    using assms by (auto simp: regMountNew_def Let_def run_onErr split: sum.splits prod.splits)
  obtain t t' where t: "run_state (mnt (joinPath [r_root R, MountID cfg]) cfg) t = (Inr (), t')" "calls t = calls s" "calls s' = calls t'"
    using assms m by (auto simp: regMountNew_def Let_def run_onErr run_sysc split: sum.splits prod.splits)
  have "Type cfg \<in> {TypeNFS, TypeLocal} \<and> (mnt = nfsMount E \<or> mnt = localMount E)"
    using m by (auto simp: mounterFor_def split: if_splits)
  moreover have "\<exists>c \<in> set (newcalls t t'). cName c = ''mount''"
    using calculation t(1) nfsM.mnt_success localM.mnt_success by blast
  ultimately show ?thesis using t(2,3) by (simp add: newcalls_def)
qed

section \<open>The invariant of the maps\<close>

definition cfg_ok :: "config \<Rightarrow> bool" where
  "cfg_ok c \<longleftrightarrow> NFSSubDir c = [] \<or> plainPath (NFSSubDir c)"

definition storePath :: "string \<Rightarrow> config \<Rightarrow> string" where
  "storePath root c = (let p = joinPath [root, MountID c] in
     if NFSSubDir c = [] then p else joinPath [p, NFSSubDir c])"

text \<open>
  A mount sits in the directory named after its identifier; a configuration is filed under its
  own identifier; a store is one of a known configuration, at the path that configuration
  determines, on a mount that is still recorded.
\<close>

definition reg_inv :: "registry \<Rightarrow> ('w, 'm) reg_st_scheme \<Rightarrow> bool" where
  "reg_inv R s \<longleftrightarrow> gm_wf (mounted s) \<and> gm_wf (stores s) \<and> gm_wf (configs s)
   \<and> (\<forall>i p. gm_get (mounted s) i = Some p \<longrightarrow> storeIDPattern i \<and> p = joinPath [r_root R, i])
   \<and> (\<forall>i c. gm_get (configs s) i = Some c \<longrightarrow> i = StoreID c \<and> cfg_ok c)
   \<and> (\<forall>i p. gm_get (stores s) i = Some p \<longrightarrow>
        (\<exists>c. gm_get (configs s) i = Some c \<and> p = storePath (r_root R) c \<and> gm_get (mounted s) (MountID c) \<noteq> None))"

lemma reg_invD:
  assumes "reg_inv R s"
  shows "gm_wf (mounted s)" "gm_wf (stores s)" "gm_wf (configs s)"
    "gm_get (mounted s) i = Some p \<Longrightarrow> storeIDPattern i \<and> p = joinPath [r_root R, i]"
    "gm_get (configs s) i = Some c \<Longrightarrow> i = StoreID c \<and> cfg_ok c"
    "gm_get (stores s) i = Some p \<Longrightarrow>
       \<exists>c. gm_get (configs s) i = Some c \<and> p = storePath (r_root R) c \<and> gm_get (mounted s) (MountID c) \<noteq> None"
  using assms unfolding reg_inv_def by (elim conjE, simp)+

lemma reg_invI:
  assumes "gm_wf (mounted s)" "gm_wf (stores s)" "gm_wf (configs s)"
    and "\<And>i p. gm_get (mounted s) i = Some p \<Longrightarrow> storeIDPattern i \<and> p = joinPath [r_root R, i]"
    and "\<And>i c. gm_get (configs s) i = Some c \<Longrightarrow> i = StoreID c \<and> cfg_ok c"
    and "\<And>i p. gm_get (stores s) i = Some p \<Longrightarrow>
       \<exists>c. gm_get (configs s) i = Some c \<and> p = storePath (r_root R) c \<and> gm_get (mounted s) (MountID c) \<noteq> None"
  shows "reg_inv R s"
  unfolding reg_inv_def using assms by auto

lemma cfg_ok_parsed: "ConfigFromParams params = Inr c \<Longrightarrow> cfg_ok c"
  by (auto simp: ConfigFromParams_def cfg_ok_def Let_def emptyConfig_def split: if_splits sum.splits dest: resolveSubDir_plain)

lemma hex_entry: "storeIDPattern i \<Longrightarrow> plainPath i"
proof -
  assume i: "storeIDPattern i"
  have "CHR ''/'' \<notin> set i" using i by (auto simp: storeIDPattern_def list_all_iff lowerHex_def)
  moreover have "i \<noteq> []" "i \<noteq> ''.''" "i \<noteq> ''..''" using i by (auto simp: storeIDPattern_def)
  ultimately show ?thesis by (simp add: plainPath_def split_word entry_name_def)
qed

lemma pattern_MountID [simp]: "storeIDPattern (MountID c)"
  by (simp add: storeIDPattern_def MountID_def length_hashID lowerHex_hashID)

lemma cleanDir_join:
  assumes "cleanDir d" "plainPath p"
  shows "cleanDir (joinPath [d, p])"
proof -
  obtain q where d: "d = CHR ''/'' # q" using assms(1) by (cases d) (auto simp: cleanDir_def isAbs_def)
  then show ?thesis
    using assms joinPath_under [OF assms] by (simp add: cleanDir_def isAbs_def plainPath_def split_append)
qed

lemma storePath_evicted:
  assumes "cleanDir root" "cfg_ok c" "p = joinPath [root, MountID c]"
  shows "storePath root c = p \<or> hasPrefix (storePath root c) (p @ ''/'')"
proof (cases "NFSSubDir c = []")
  case False
  then have "plainPath (NFSSubDir c)" using assms(2) by (simp add: cfg_ok_def)
  then have "storePath root c = p @ ''/'' @ NFSSubDir c"
    using False joinPath_under [OF cleanDir_join [OF assms(1) hex_entry [OF pattern_MountID]]] assms(3)
    by (simp add: storePath_def Let_def)
  then show ?thesis by (simp add: hasPrefix_iff)
qed (simp add: storePath_def assms(3))

text \<open>Steps that leave the three maps alone.\<close>

definition rstable :: "(('w, 'm) reg_st_scheme \<Rightarrow> bool) \<Rightarrow> bool" where
  "rstable I \<longleftrightarrow> stable I \<and> (\<forall>s x. I s \<longrightarrow> I (s\<lparr>checks := x\<rparr>)) \<and> (\<forall>s x. I s \<longrightarrow> I (s\<lparr>storeMu := x\<rparr>))"

lemma rstableD:
  assumes "rstable I"
  shows "stable I" "I s \<Longrightarrow> I (s\<lparr>checks := x\<rparr>)" "I s \<Longrightarrow> I (s\<lparr>storeMu := x\<rparr>)"
  using assms by (simp_all add: rstable_def)

lemma rstable_checks [kept]:
  assumes "rstable I"
  shows "keeps I (clearCheck i)" "keeps I (lockStore i)" "keeps I (modify (\<lambda>s. s\<lparr>checks := f s\<rparr>))"
  unfolding clearCheck_def lockStore_def using rstableD [OF assms] by (simp_all add: keeps_def)

lemma rstable_ops [kept]:
  assumes "rstable I"
  shows "keeps I (checkMountPoint E i p)" "keeps I (stillMounted E R i p)"
  unfolding stillMounted_def checkMountPoint_def
  by (intro kept rstable_checks stable_sysc stable_mount rstableD(1) assms)+

lemma rstable_inv: "rstable (reg_inv R)" "rstable (\<lambda>s. mounted s = m \<and> stores s = st \<and> configs s = cf)"
  by (simp_all add: rstable_def stable_def reg_inv_def)

lemma rstable_conj: "rstable I \<Longrightarrow> rstable J \<Longrightarrow> rstable (\<lambda>s. I s \<and> J s)"
  by (simp add: rstable_def stable_def)

lemma reg_inv_evict:
  assumes "reg_inv R s" "cleanDir (r_root R)" "p = joinPath [r_root R, i]"
  shows "reg_inv R (s\<lparr>mounted := gm_del i (mounted s), stores := evictStores p (stores s)\<rparr>)"
proof -
  have ev: "gm_get (evictStores p (stores s)) k = (case gm_get (stores s) k of None \<Rightarrow> None
      | Some q \<Rightarrow> if \<not> (q = p \<or> hasPrefix q (p @ ''/'')) then Some q else None)" for k
    unfolding evictStores_def using assms(1) by (intro gm_get_filter) (simp add: reg_inv_def)
  have "gm_wf (evictStores p (stores s))"
    using assms(1) by (simp add: evictStores_def reg_inv_def gm_wf_filter)
  moreover have "\<exists>c. gm_get (configs s) k = Some c \<and> q = storePath (r_root R) c \<and> gm_get (gm_del i (mounted s)) (MountID c) \<noteq> None"
    if "gm_get (evictStores p (stores s)) k = Some q" for k q
  proof -
    have st: "gm_get (stores s) k = Some q" "\<not> (q = p \<or> hasPrefix q (p @ ''/''))"
      using that by (auto simp: ev split: option.splits if_splits)
    then obtain c where c: "gm_get (configs s) k = Some c" "q = storePath (r_root R) c" "gm_get (mounted s) (MountID c) \<noteq> None"
      using reg_invD(6) [OF assms(1)] by blast
    moreover have "cfg_ok c" using reg_invD(5) [OF assms(1) c(1)] by simp
    then have "MountID c \<noteq> i" using storePath_evicted [OF assms(2), of c p] assms(3) st(2) c(2) by auto
    ultimately show ?thesis by (auto simp: gm_get_del)
  qed
  ultimately show ?thesis
    using assms(1) by (intro reg_invI) (auto simp: gm_get_del reg_invD split: if_splits dest: reg_invD(4,5) [OF assms(1)])
qed

lemma reg_inv_mounted:
  assumes "reg_inv R s" "storeIDPattern i" "p = joinPath [r_root R, i]"
  shows "reg_inv R (s\<lparr>mounted := gm_put i p (mounted s)\<rparr>)"
proof (rule reg_invI)
  fix k q
  assume "gm_get (stores (s\<lparr>mounted := gm_put i p (mounted s)\<rparr>)) k = Some q"
  then show "\<exists>c. gm_get (configs (s\<lparr>mounted := gm_put i p (mounted s)\<rparr>)) k = Some c \<and> q = storePath (r_root R) c
      \<and> gm_get (mounted (s\<lparr>mounted := gm_put i p (mounted s)\<rparr>)) (MountID c) \<noteq> None"
    using reg_invD(6) [OF assms(1), of k q] by (auto simp: gm_get_put)
qed (use assms in \<open>auto simp: gm_get_put reg_invD split: if_splits\<close>)

lemma reg_inv_store:
  assumes "reg_inv R s" "cfg_ok c" "gm_get (mounted s) (MountID c) \<noteq> None" "q = storePath (r_root R) c"
  shows "reg_inv R (s\<lparr>stores := gm_put (StoreID c) q (stores s), configs := gm_put (StoreID c) c (configs s)\<rparr>)"
proof -
  have "\<exists>d. gm_get (gm_put (StoreID c) c (configs s)) i = Some d \<and> p = storePath (r_root R) d \<and> gm_get (mounted s) (MountID d) \<noteq> None"
    if "gm_get (gm_put (StoreID c) q (stores s)) i = Some p" for i p
  proof (cases "i = StoreID c")
    case True
    then show ?thesis using that assms by (simp add: gm_get_put)
  next
    case False
    then show ?thesis using that assms(1) by (simp add: gm_get_put reg_inv_def)
  qed
  then show ?thesis
    using assms(1,2) by (intro reg_invI) (auto simp: gm_get_put reg_invD split: if_splits dest: reg_invD(4,5) [OF assms(1)])
qed

subsection \<open>Get\<close>

lemma keeps_mounterFor: "stable I \<Longrightarrow> mounterFor E R t = Inr m \<Longrightarrow> keeps I (m target cfg)"
  by (auto simp: mounterFor_def stable_mounters split: if_splits)

lemma regMountNew_inv:
  assumes "reg_inv R s"
  shows "wp (regMountNew E R cfg) (\<lambda>r s'. reg_inv R s' \<and> (\<forall>p. r = Inr p \<longrightarrow>
    p = joinPath [r_root R, MountID cfg] \<and> gm_get (mounted s') (MountID cfg) = Some p)) s"
proof -
  let ?i = "MountID cfg" and ?t = "joinPath [r_root R, MountID cfg]"
  let ?Q = "\<lambda>r s'. reg_inv R s' \<and> (\<forall>p. r = Inr p \<longrightarrow> p = ?t \<and> gm_get (mounted s') ?i = Some p)"
  have mnt: "wp (m ?t cfg) (\<lambda>r s'. case r of Inl e \<Rightarrow> reg_inv R s'
      | Inr _ \<Rightarrow> ?Q (Inr ?t) (s'\<lparr>mounted := gm_put ?i ?t (mounted s')\<rparr>)) s1"
    if "reg_inv R s1" "mounterFor E R (Type cfg) = Inr m" for s1 :: "('a, 'b) reg_st_scheme" and m
  proof (rule wp_mono [OF keeps_wp [OF keeps_mounterFor [OF rstableD(1) [OF rstable_inv(1)] that(2)] that(1)]])
    fix r :: "goerr + unit" and s' :: "('a, 'b) reg_st_scheme"
    assume "reg_inv R s'"
    then show "case r of Inl e \<Rightarrow> reg_inv R s' | Inr _ \<Rightarrow> ?Q (Inr ?t) (s'\<lparr>mounted := gm_put ?i ?t (mounted s')\<rparr>)"
      using reg_inv_mounted [of R s' ?i ?t] by (simp add: gm_get_put split: sum.split)
  qed
  have "reg_inv R (s\<lparr>world := w\<rparr>)" for w using assms by (simp add: reg_inv_def)
  then show ?thesis
    using mnt by (cases "mounterFor E R (Type cfg)")
      (auto simp: regMountNew_def Let_def wps cong: sum.case_cong split: prod.splits sum.splits)
qed

lemma regCached_inv:
  assumes "reg_inv R s" "cleanDir (r_root R)"
  shows "wp (regCached E R i) (\<lambda>r s'. reg_inv R s' \<and> (\<forall>p. r = Some p \<longrightarrow>
    p = joinPath [r_root R, i] \<and> gm_get (mounted s') i = Some p)) s"
proof (cases "gm_get (mounted s) i")
  case None
  then show ?thesis using assms(1) by (simp add: regCached_def wps)
next
  case (Some p)
  have p: "p = joinPath [r_root R, i]" using reg_invD(4) [OF assms(1) Some] by simp
  have rs: "rstable (\<lambda>s' :: ('a, 'b) reg_st_scheme. reg_inv R s' \<and> mounted s' = mounted s)"
    by (intro rstable_conj rstable_inv) (simp add: rstable_def stable_def)
  have "wp (stillMounted E R i p) (\<lambda>_ s'. reg_inv R s' \<and> mounted s' = mounted s) s"
    using keeps_wp [OF rstable_ops(2) [OF rs]] assms(1) by simp
  moreover have "reg_inv R (s'\<lparr>mounted := gm_del i (mounted s), stores := evictStores p (stores s')\<rparr>)"
    if "reg_inv R s'" "mounted s' = mounted s" for s' :: "('a, 'b) reg_st_scheme"
    using reg_inv_evict [OF that(1) assms(2) p] that(2) by simp
  ultimately show ?thesis
    using p Some by (auto simp: regCached_def wps elim!: wp_mono)
qed

lemma regMount_inv:
  assumes "reg_inv R s" "cleanDir (r_root R)"
  shows "wp (regMount E R cfg) (\<lambda>r s'. reg_inv R s' \<and> (\<forall>p. r = Inr p \<longrightarrow>
    p = joinPath [r_root R, MountID cfg] \<and> gm_get (mounted s') (MountID cfg) = Some p)) s"
proof -
  define s0 where "s0 = snd (run_state (lockStore (MountID cfg)) s)"
  have s0: "reg_inv R s0" unfolding s0_def by (rule keeps_snd [OF rstable_checks(2) [OF rstable_inv(1)] assms(1)])
  have lock: "wp (lockStore (MountID cfg)) P s = P () s0" for P
    by (simp add: wp_def s0_def lockStore_def)
  show ?thesis
    unfolding regMount_def wp_bind lock
    by (rule wp_mono [OF regCached_inv [OF s0 assms(2)]]) (auto simp: wps regMountNew_inv split: option.split)
qed

lemma regStore_inv:
  assumes "reg_inv R s" "cfg_ok cfg" "gm_get (mounted s) (MountID cfg) \<noteq> None" "path = joinPath [r_root R, MountID cfg]"
  shows "wp (regStore E cfg path) (\<lambda>r s'. reg_inv R s' \<and> (\<forall>p. r = Inr p \<longrightarrow> p = storePath (r_root R) cfg
    \<and> gm_get (stores s') (StoreID cfg) = Some p \<and> gm_get (configs s') (StoreID cfg) = Some cfg)) s"
proof -
  let ?J = "\<lambda>s' :: ('a, 'b) reg_st_scheme. reg_inv R s' \<and> mounted s' = mounted s"
  let ?mk = "if NFSSubDir cfg \<noteq> [] then do {
                  seen \<leftarrow> gets (\<lambda>s. gm_get (stores s) (StoreID cfg));
                  case seen of None \<Rightarrow> sysc (h_mkdirAll E (storePath (r_root R) cfg)) | Some _ \<Rightarrow> ret (Inr ())
                } else ret (Inr ())"
  have "rstable ?J" by (intro rstable_conj rstable_inv) (simp add: rstable_def stable_def)
  then have "wp ?mk (\<lambda>_. ?J) s"
    by (intro keeps_wp kept stable_sysc) (simp_all add: rstableD(1) assms(1))
  moreover have "(if NFSSubDir cfg \<noteq> [] then joinPath [path, NFSSubDir cfg] else path) = storePath (r_root R) cfg"
    using assms(4) by (simp add: storePath_def)
  moreover have "reg_inv R (s1\<lparr>stores := gm_put (StoreID cfg) (storePath (r_root R) cfg) (stores s1),
      configs := gm_put (StoreID cfg) cfg (configs s1)\<rparr>)" if "?J s1" for s1
    using reg_inv_store [of R s1 cfg] that assms(2,3) by simp
  ultimately show ?thesis
    unfolding regStore_def Let_def by (simp only: wp_onErr) (auto simp: wps gm_get_put elim!: wp_mono split: sum.split)
qed

lemma regGet_inv:
  assumes "reg_inv R s" "cleanDir (r_root R)" "cfg_ok cfg"
  shows "wp (regGet E R cfg) (\<lambda>r s'. reg_inv R s' \<and> (\<forall>p. r = Inr p \<longrightarrow> p = storePath (r_root R) cfg
    \<and> gm_get (stores s') (StoreID cfg) = Some p \<and> gm_get (configs s') (StoreID cfg) = Some cfg)) s"
  unfolding regGet_def wp_onErr
  by (rule wp_mono [OF regMount_inv [OF assms(1,2)]]) (auto simp: regStore_inv assms(3) split: sum.split)

subsection \<open>Adoption and reachability\<close>

lemma keeps_adoptEntry: "keeps (reg_inv R) (adoptEntry E R e)"
proof -
  have "keeps (reg_inv R) (modify (\<lambda>s. s\<lparr>mounted := gm_put i (joinPath [r_root R, i]) (mounted s)\<rparr>))"
    if "storeIDPattern i" for i
    using that by (simp add: keeps_def reg_inv_mounted)
  then have "storeIDPattern i \<Longrightarrow> keeps (reg_inv R) (IsMountPoint E (joinPath [r_root R, i]) \<bind> (\<lambda>r. case r of
         Inr True \<Rightarrow> modify (\<lambda>s. s\<lparr>mounted := gm_put i (joinPath [r_root R, i]) (mounted s)\<rparr>) | _ \<Rightarrow> ret ()))" for i
    by (intro keeps_bind stable_mount rstableD(1) rstable_inv)
      (auto intro: keeps_ret split: sum.split bool.split)
  then show ?thesis
    unfolding adoptEntry_def by (auto simp: Let_def keeps_ret split: prod.split)
qed

lemma keeps_AdoptExisting: "keeps (reg_inv R) (AdoptExisting E R)"
  unfolding AdoptExisting_def
  by (intro kept stable_sysc keeps_adoptEntry rstableD(1) rstable_inv)

text \<open>
  The states of a process that starts with an empty registry, hands out stores for parsed
  configurations and adopts mounts, while anything else happens to the machine.
\<close>

inductive reg_reach :: "'w host \<Rightarrow> registry \<Rightarrow> ('w, 'm) reg_st_scheme \<Rightarrow> bool" for E R where
  reg_new: "reg_reach E R (snd (run_state NewRegistry s))"
| reg_get: "reg_reach E R s \<Longrightarrow> ConfigFromParams params = Inr cfg \<Longrightarrow> reg_reach E R (snd (run_state (regGet E R cfg) s))"
| reg_adopt: "reg_reach E R s \<Longrightarrow> reg_reach E R (snd (run_state (AdoptExisting E R) s))"
| reg_env: "reg_reach E R s \<Longrightarrow> reg_reach E R (s\<lparr>world := w, calls := cs\<rparr>)"

lemma reg_reach_inv:
  assumes "reg_reach E R s" "cleanDir (r_root R)"
  shows "reg_inv R s"
  using assms(1)
proof induction
  case (reg_get s params cfg)
  from wp_run [OF regGet_inv [OF reg_get.IH assms(2) cfg_ok_parsed [OF reg_get.hyps(2)]] prod.collapse [symmetric]]
  show ?case by blast
next
  case (reg_adopt s)
  from keeps_snd [OF keeps_AdoptExisting reg_adopt.IH] show ?case .
qed (simp_all add: NewRegistry_def reg_inv_def)

lemma set_dedup: "set (dedup seen xs) = set xs - set seen"
  by (induction seen xs rule: dedup.induct) auto

lemma distinct_dedup: "distinct (dedup seen xs)"
  by (induction seen xs rule: dedup.induct) (auto simp: set_dedup)

lemma reg_inv_under:
  assumes "reg_inv R s" "cleanDir (r_root R)" "p \<in> snd ` set (stores s) \<union> snd ` set (mounted s)"
  shows "hasPrefix p (r_root R @ ''/'')"
proof -
  have m: "hasPrefix (joinPath [r_root R, i]) (r_root R @ ''/'')" if "storeIDPattern i" for i
    using joinPath_under [OF assms(2) hex_entry [OF that]] by (simp add: hasPrefix_iff)
  consider (st) i where "(i, p) \<in> set (stores s)" | (mo) i where "(i, p) \<in> set (mounted s)"
    using assms(3) by force
  then show ?thesis
  proof cases
    case st
    then obtain c where c: "gm_get (configs s) i = Some c" "p = storePath (r_root R) c"
      using reg_invD(2,6) [OF assms(1)] gm_get_set [of "stores s" i p] by blast
    have "storePath (r_root R) c = joinPath [r_root R, MountID c] \<or>
        hasPrefix (storePath (r_root R) c) (joinPath [r_root R, MountID c] @ ''/'')"
      using storePath_evicted [OF assms(2) _ refl] reg_invD(5) [OF assms(1) c(1)] by blast
    then show ?thesis using m [of "MountID c"] c(2) by (auto simp: hasPrefix_iff)
  next
    case mo
    then show ?thesis
      using reg_invD(1,4) [OF assms(1)] gm_get_set [of "mounted s" i p] m by blast
  qed
qed

section \<open>Properties\<close>

text \<open>
  C7: The registry's maps agree in every reachable state: mounts are filed under their own
  directory below the stores root, configurations under their own identifier, and every store
  belongs to a known configuration and a recorded mount. So the paths handed to ListVolumes
  are distinct and lie below the root.
\<close>

theorem registry_invariant:
  assumes "reg_reach E R s" "cleanDir (r_root R)"
  shows "reg_inv R s \<and> distinct (fst (run_state MountedPaths s))
       \<and> list_all (\<lambda>p. hasPrefix p (r_root R @ ''/'')) (fst (run_state MountedPaths s))"
  using reg_reach_inv [OF assms] reg_inv_under [OF _ assms(2), of s]
  by (auto simp: MountedPaths_def distinct_dedup set_dedup list_all_iff)

text \<open>
  C31: What Get returns. From any reachable state, a successful Get for an accepted
  configuration returns the path that configuration determines (the mount directory, or the
  sub-directory in it), and its store identifier resolves to the configuration afterwards.
\<close>

theorem regGet_returns:
  assumes "reg_reach E R s" "cleanDir (r_root R)" "ConfigFromParams params = Inr cfg"
    and "run_state (regGet E R cfg) s = (Inr p, s')"
  shows "p = storePath (r_root R) cfg \<and> fst (run_state (ConfigByStoreID (StoreID cfg)) s') = Some cfg
       \<and> p \<in> set (fst (run_state MountedPaths s'))"
proof -
  have "gm_get (stores s') (StoreID cfg) = Some p" "gm_get (configs s') (StoreID cfg) = Some cfg" "p = storePath (r_root R) cfg"
    using wp_run [OF regGet_inv [OF reg_reach_inv [OF assms(1,2)] assms(2) cfg_ok_parsed [OF assms(3)]] assms(4)] by auto
  then show ?thesis
    by (force simp: ConfigByStoreID_def MountedPaths_def set_dedup dest: map_of_SomeD)
qed

text \<open>Asking for the time and reading a directory do not change the mount table.\<close>

definition quiet_law :: "'w host \<Rightarrow> ('w \<Rightarrow> string list) \<Rightarrow> bool" where
  "quiet_law E mounts \<longleftrightarrow> (\<forall>q w. mounts (snd (h_answers E q w)) = mounts w) \<and> (\<forall>q w. mounts (snd (h_readDir E q w)) = mounts w)"

lemma logs_IsMountPoint: "logs (\<lambda>c. cName c = ''findmnt'') (IsMountPoint E t)"
  unfolding IsMountPoint_def by (intro logged) simp_all

lemma logs_stillMounted: "logs (\<lambda>c. cName c = ''findmnt'') (stillMounted E R i p)"
  unfolding stillMounted_def checkMountPoint_def clearCheck_def
  by (intro logged logs_IsMountPoint) simp_all

lemma stillMounted_live:
  assumes "live_law E mounts" "quiet_law E mounts" "p \<in> set (mounts (world s))"
  shows "fst (run_state (stillMounted E R i p) s)"
proof -
  define s1 where "s1 = s\<lparr>checks := checks s @ [i], world := snd (h_answers E p (world s))\<rparr>"
  have "p \<in> set (mounts (world s1))" using assms(2,3) by (simp add: s1_def quiet_law_def)
  moreover obtain r s2 where r: "run_state (IsMountPoint E p) s1 = (r, s2)" by fastforce
  ultimately have "case r of Inl e \<Rightarrow> True | Inr b \<Rightarrow> b" using lc.check_keeps [OF assms(1)] by blast
  then show ?thesis
    using r by (auto simp: stillMounted_def checkMountPoint_def clearCheck_def run_sysc s1_def split: sum.splits)
qed

text \<open>
  Where the checker does report a live mount as missing, the cached path is dropped and the
  store is mounted again, over the mount that is there.
\<close>

lemma regCached_evicts:
  assumes "r_mp R" "MountID cfg \<notin> set (checks s)" "gm_get (mounted s) (MountID cfg) = Some p"
    and "h_answers E p (world s) = (True, w1)" "h_stat E p w1 = (Inr fi, w2)" "p \<noteq> []"
    and "exec E ''findmnt'' [''-n'', ''-o'', ''TARGET'', ''--target'', p] w2 = ((out, None), w3)"
    and "exec E ''findmnt'' [''-n'', ''-o'', ''TARGET'', p] w3 = (([], Some e), w4)"
  shows "\<exists>s'. run_state (regCached E R (MountID cfg)) s = (None, s') \<and> gm_get (mounted s') (MountID cfg) = None"
proof -
  let ?i = "MountID cfg"
  define s1 where "s1 = s\<lparr>checks := checks s @ [?i], world := w1\<rparr>"
  obtain r s2 where q: "run_state (IsMountPoint E p) s1 = (r, s2)" by fastforce
  then have "r = Inr False"
    using IsMountPoint_drops_error [of E p s1 fi w2 out w3 e w4] assms by (simp add: s1_def)
  then have "fst (run_state (stillMounted E R ?i p) s) = False"
    using assms(1,2,4) q by (auto simp: stillMounted_def checkMountPoint_def clearCheck_def run_sysc s1_def)
  then obtain t where "run_state (stillMounted E R ?i p) s = (False, t)" by (cases "run_state (stillMounted E R ?i p) s") auto
  then show ?thesis using assms(3) by (simp add: regCached_def gm_get_del)
qed

text \<open>
  C23: Get never stacks a mount. When the mount of a configuration is cached and is in the
  kernel's mount table, then whatever the staleness check does (find it, fail in its stat or
  its first query, time out, be in flight already) Get runs no \<^verbatim>\<open>mount\<close>: its only commands are
  \<^verbatim>\<open>findmnt\<close> queries, and the cached mounts stay as they are. Excluded by \<open>live_law\<close> is that \<^verbatim>\<open>stat\<close>
  or \<^verbatim>\<open>findmnt\<close> deny a live mount, and that the second query prints nothing after the first
  one has answered.
\<close>

theorem regGet_never_stacks:
  assumes "live_law E mounts" "quiet_law E mounts"
    and "gm_get (mounted s) (MountID cfg) = Some p" "p \<in> set (mounts (world s))"
    and "run_state (regGet E R cfg) s = (r, s')"
  shows "list_all (\<lambda>c. cName c = ''findmnt'') (newcalls s s') \<and> mounted s' = mounted s"
proof -
  let ?i = "MountID cfg"
  define s0 where "s0 = snd (run_state (lockStore ?i) s)"
  have s0: "mounted s0 = mounted s" "world s0 = world s" "calls s0 = calls s"
    by (simp_all add: s0_def lockStore_def)
  obtain ok s1 where st: "run_state (stillMounted E R ?i p) s0 = (ok, s1)" by fastforce
  have ok: "ok" using stillMounted_live [OF assms(1,2), of p s0 R ?i] assms(4) st s0 by simp
  have m1: "mounted s1 = mounted s0"
    using keeps_run [OF rstable_ops(2) [OF rstable_inv(2) [of "mounted s0" "stores s0" "configs s0"]] _ st] by simp
  have lock: "run_state (lockStore ?i) s = ((), s0)" by (simp add: s0_def lockStore_def)
  have "run_state (regMount E R cfg) s = (Inr p, s1)"
    using assms(3) s0 st ok by (simp add: regMount_def lock regCached_def)
  then have g: "run_state (regStore E cfg p) s1 = (r, s')"
    using assms(5) by (simp add: regGet_def run_onErr)
  have "logs (\<lambda>c. cName c = ''findmnt'') (regStore E cfg p)"
    unfolding regStore_def by (intro logged) simp_all
  from logsD [OF this g] logsD [OF logs_stillMounted st] have
    "list_all (\<lambda>c. cName c = ''findmnt'') (newcalls s s')"
    using s0 by (auto simp: newcalls_def)
  moreover have "mounted s' = mounted s1"
    using g by (auto simp: regStore_def run_onErr run_sysc Let_def split: if_splits option.splits sum.splits prod.splits)
  ultimately show ?thesis using m1 s0 by simp
qed

text \<open>
  Adoption is conservative. AdoptExisting runs nothing but \<^verbatim>\<open>findmnt\<close>, and every mount it
  adds to the cache is one in the kernel's mount table, in a directory named like a store.
\<close>

theorem AdoptExisting_adopts_mounts:
  assumes law: "findmnt_law E mounts" "quiet_law E mounts" and run: "run_state (AdoptExisting E R) s = (r, s')"
  shows "list_all (\<lambda>c. cName c = ''findmnt'') (newcalls s s')
       \<and> (\<forall>i p. gm_get (mounted s') i = Some p \<longrightarrow>
            gm_get (mounted s) i = Some p \<or> storeIDPattern i \<and> p = joinPath [r_root R, i] \<and> p \<in> set (mounts (world s)))"
proof
  have "logs (\<lambda>c. cName c = ''findmnt'') (AdoptExisting E R)"
    unfolding AdoptExisting_def adoptEntry_def
    by (intro logged logs_IsMountPoint logs_modify) (auto intro: logged split: prod.split bool.split)
  from logs_new [OF this run] show "list_all (\<lambda>c. cName c = ''findmnt'') (newcalls s s')" .
  let ?J = "\<lambda>t. mounts (world t) = mounts (world s) \<and> (\<forall>i p. gm_get (mounted t) i = Some p \<longrightarrow>
      gm_get (mounted s) i = Some p \<or> storeIDPattern i \<and> p = joinPath [r_root R, i] \<and> p \<in> set (mounts (world s)))"
  have entry: "keeps ?J (adoptEntry E R e)" for e
  proof (rule keepsI, rule wpI)
    fix t u t'
    assume J: "?J t" and a: "run_state (adoptEntry E R e) t = (u, t')"
    obtain i d where e: "e = (i, d)" by (cases e)
    obtain q cs where q: "run_state (IsMountPoint E (joinPath [r_root R, i])) t = (q, t\<lparr>calls := calls t @ cs\<rparr>)"
        "\<And>b. q = Inr b \<Longrightarrow> b = (joinPath [r_root R, i] \<in> set (mounts (world t)))"
      using mp.check_law [OF law(1), of "joinPath [r_root R, i]" t] by blast
    have "world t' = world t" using a q by (cases q) (auto simp: adoptEntry_def e Let_def split: if_splits bool.splits)
    moreover have "gm_get (mounted t') k = gm_get (mounted t) k \<or> k = i \<and> storeIDPattern i
        \<and> gm_get (mounted t') k = Some (joinPath [r_root R, i]) \<and> joinPath [r_root R, i] \<in> set (mounts (world t))" for k
      using a q by (cases q) (auto simp: adoptEntry_def e gm_get_put Let_def split: if_splits bool.splits)
    ultimately show "?J t'" using J by (metis option.inject)
  qed
  have loop: "keeps ?J (forEach es (adoptEntry E R))" for es
    by (rule keeps_forEach) (rule entry)
  define s1 where "s1 = s\<lparr>world := snd (h_readDir E (r_root R) (world s))\<rparr>"
  have s1: "?J s1" using law(2) by (simp add: s1_def quiet_law_def)
  then have "?J s'"
  proof (cases "fst (h_readDir E (r_root R) (world s))")
    case (Inr es)
    then have "s' = snd (run_state (forEach es (adoptEntry E R)) s1)"
      using run by (auto simp: AdoptExisting_def run_sysc s1_def split: prod.splits)
    with keeps_snd [OF loop s1] show ?thesis by simp
  qed (use run s1 in \<open>simp add: AdoptExisting_def run_sysc s1_def\<close>)
  then show "\<forall>i p. gm_get (mounted s') i = Some p \<longrightarrow>
      gm_get (mounted s) i = Some p \<or> storeIDPattern i \<and> p = joinPath [r_root R, i] \<and> p \<in> set (mounts (world s))"
    by blast
qed

end
