(* ===== verification/Loop.thy ===== *)
theory Loop
  imports Registry Crypt
begin

text \<open>
  \<^verbatim>\<open>pkg/loop\<close>: loop devices through losetup(8) (\<^verbatim>\<open>losetup.go\<close>), the persistent table of staged
  volumes (\<^verbatim>\<open>state.go\<close>), and the reconciliation of the two with the open mappings at start-up
  (\<^verbatim>\<open>reconcile.go\<close>).
\<close>

section \<open>losetup\<close>

definition noSuchDevice :: "goerr \<Rightarrow> bool" where
  "noSuchDevice e = (case as_exec e of Some x \<Rightarrow> contains (toLower (ee_output x)) ''no such device'' | None \<Rightarrow> False)"

definition loAttach :: "'w host \<Rightarrow> string \<Rightarrow> int \<Rightarrow> (('w, 'm) sys_scheme, goerr + string) state" where
  "loAttach E imagePath sectorSize = do {
     r \<leftarrow> RunE E ''losetup'' [''--find'', ''--show'', ''--sector-size'', itoa (nat sectorSize), imagePath];
     ret (case r of
            Inl e \<Rightarrow> if noSuchDevice e then Inl (Sentinel ErrPoolExhausted) else Inl (Wrap ''losetup --find --show'' e)
          | Inr out \<Rightarrow> let dev = trimSpace out in
              if \<not> hasPrefix dev ''/dev/loop'' then Inl (Msg ''losetup returned unexpected device'') else Inr dev)
   }"

definition minSectorSize :: int where
  "minSectorSize = 512"

function halveSector :: "int \<Rightarrow> int \<Rightarrow> int" where
  "halveSector s sz = (if s > minSectorSize \<and> \<not> s dvd sz then halveSector (s div 2) sz else s)"
  by pat_completeness auto
termination
  by (relation "measure (\<lambda>(s, sz). nat s)") (auto simp: minSectorSize_def)

declare halveSector.simps [simp del]

definition SectorSizeFor :: "nat \<Rightarrow> int \<Rightarrow> int \<Rightarrow> int" where
  "SectorSizeFor pagesize recorded imageSize =
     halveSector (min (if recorded \<le> 0 then DefaultBlockSize else recorded) (int pagesize)) imageSize"

definition loDetach :: "'w host \<Rightarrow> string \<Rightarrow> (('w, 'm) sys_scheme, goerr + unit) state" where
  "loDetach E dev = do {
     r \<leftarrow> RunE E ''losetup'' [''--detach'', dev];
     ret (case r of Inr _ \<Rightarrow> Inr () | Inl e \<Rightarrow> if noSuchDevice e then Inr () else Inl (Wrap ''losetup --detach'' e))
   }"

record attachment =
  Device :: string
  BackFile :: string

definition deletedSuffix :: string where
  "deletedSuffix = '' (deleted)''"

definition jattachment :: "json \<Rightarrow> attachment option" where
  "jattachment j = (case j of JNull \<Rightarrow> Some \<lparr>Device = [], BackFile = []\<rparr>
     | JObj ms \<Rightarrow> Option.bind (jstr_field ''name'' ms) (\<lambda>d. Option.bind (jstr_field ''back-file'' ms) (\<lambda>b.
         Some \<lparr>Device = d, BackFile = b\<rparr>))
     | _ \<Rightarrow> None)"

definition jloopdevices :: "string \<Rightarrow> attachment list option" where
  "jloopdevices out = (case json_parse out of
       Some JNull \<Rightarrow> Some [] | Some (JObj ms) \<Rightarrow> jlist_field jattachment ''loopdevices'' ms | _ \<Rightarrow> None)"

definition loList :: "'w host \<Rightarrow> (('w, 'm) sys_scheme, goerr + attachment list) state" where
  "loList E = onErr (RunE E ''losetup'' [''--json'', ''--list'']) (Wrap ''losetup --list'') (\<lambda>out.
     ret (if trimSpace out = [] then Inr []
          else case jloopdevices out of
            None \<Rightarrow> Inl (Msg ''parse losetup output'')
          | Some as \<Rightarrow> Inr (map (\<lambda>a. a\<lparr>BackFile := trimSuffix (BackFile a) deletedSuffix\<rparr>) as)))"

definition loFind :: "'w host \<Rightarrow> (attachment \<Rightarrow> bool) \<Rightarrow> (('w, 'm) sys_scheme, goerr + string list) state" where
  "loFind E match = onErr (loList E) id (\<lambda>live. ret (Inr (map Device (filter match live))))"

definition Backs :: "string \<Rightarrow> string \<Rightarrow> bool" where
  "Backs back imagePath \<longleftrightarrow> back = imagePath \<or>
     hasPrefix back ''/'' \<and> hasSuffix imagePath back \<and> base back = base imagePath"

definition FindImage :: "'w host \<Rightarrow> string \<Rightarrow> (('w, 'm) sys_scheme, goerr + string list) state" where
  "FindImage E name = loFind E (\<lambda>a. base (BackFile a) = name)"

definition FindBacking :: "'w host \<Rightarrow> string \<Rightarrow> (('w, 'm) sys_scheme, goerr + string list) state" where
  "FindBacking E imagePath = loFind E (\<lambda>a. Backs (BackFile a) imagePath)"

definition SetCapacity :: "'w host \<Rightarrow> string \<Rightarrow> (('w, 'm) sys_scheme, goerr + unit) state" where
  "SetCapacity E dev = onErr (RunE E ''losetup'' [''--set-capacity'', dev]) (Wrap ''losetup --set-capacity'') (\<lambda>_. ret (Inr ()))"

lemma stable_losetup [kept]:
  assumes "stable I"
  shows "keeps I (loAttach E p n)" "keeps I (loDetach E d)" "keeps I (loList E)" "keeps I (loFind E f)"
    "keeps I (FindImage E p)" "keeps I (FindBacking E p)" "keeps I (SetCapacity E d)"
  unfolding loAttach_def loDetach_def loFind_def FindImage_def FindBacking_def SetCapacity_def loList_def
  by (intro kept stable_Run assms)+

section \<open>The state file\<close>

record staged =
  sVolumeID :: string
  LoopDev :: string
  sImagePath :: string
  StagePath :: string
  CryptDev :: string
  StageContext :: "smap option"
  MountFlags :: "string list"

record 'w loop_st = "'w reg_st" +
  lstate :: "(string, staged) gomap"

text \<open>
  Decoding the file: a map of volumes; \<open>null\<close> for an entry is the zero value. The file \<open>null\<close>, which the
  driver does not write, leaves a nil map, which reads as an empty one (a later Put would
  panic; panics are not modelled).
\<close>

definition jstaged :: "json \<Rightarrow> staged option" where
  "jstaged j = (case j of
       JNull \<Rightarrow> Some \<lparr>sVolumeID = [], LoopDev = [], sImagePath = [], StagePath = [], CryptDev = [], StageContext = None, MountFlags = []\<rparr>
     | JObj ms \<Rightarrow>
         Option.bind (jstr_field ''volumeId'' ms) (\<lambda>v. Option.bind (jstr_field ''loopDev'' ms) (\<lambda>l.
         Option.bind (jstr_field ''imagePath'' ms) (\<lambda>i. Option.bind (jstr_field ''stagePath'' ms) (\<lambda>p.
         Option.bind (jstr_field ''cryptDev'' ms) (\<lambda>c.
         Option.bind (case jfield ''stageContext'' ms of None \<Rightarrow> Some None | Some JNull \<Rightarrow> Some None
            | Some (JObj kvs) \<Rightarrow> map_option Some (jsmap kvs) | Some _ \<Rightarrow> None) (\<lambda>ctx.
         Option.bind (jlist_field jstr ''mountFlags'' ms) (\<lambda>fl.
           Some \<lparr>sVolumeID = v, LoopDev = l, sImagePath = i, StagePath = p, CryptDev = c, StageContext = ctx, MountFlags = fl\<rparr>)))))))
     | _ \<Rightarrow> None)"

definition parseState :: "string \<Rightarrow> (string, staged) gomap option" where
  "parseState b = (case json_parse b of
       Some JNull \<Rightarrow> Some []
     | Some (JObj ms) \<Rightarrow> map_option (\<lambda>kvs. fold (\<lambda>(k, v). gm_put k v) kvs [])
         (jall (\<lambda>(k, v). map_option (Pair k) (jstaged v)) ms)
     | _ \<Rightarrow> None)"

text \<open>Encoding: struct fields in order, empty optional ones left out, map keys sorted.\<close>

definition sortKeys :: "(string \<times> 'a) list \<Rightarrow> (string \<times> 'a) list" where
  "sortKeys m = sort_key fst m"

definition stagedJson :: "staged \<Rightarrow> json" where
  "stagedJson m = JObj (
     [(''volumeId'', JStr (sVolumeID m)), (''loopDev'', JStr (LoopDev m)), (''imagePath'', JStr (sImagePath m)),
      (''stagePath'', JStr (StagePath m))]
     @ (if CryptDev m \<noteq> [] then [(''cryptDev'', JStr (CryptDev m))] else [])
     @ (case StageContext m of Some (kv # kvs) \<Rightarrow> [(''stageContext'', JObj (map (\<lambda>(k, v). (k, JStr v)) (sortKeys (kv # kvs))))] | _ \<Rightarrow> [])
     @ (if MountFlags m \<noteq> [] then [(''mountFlags'', JArr (map JStr (MountFlags m)))] else []))"

definition stateText :: "(string, staged) gomap \<Rightarrow> string" where
  "stateText d = json_indent (JObj (map (\<lambda>(k, m). (k, stagedJson m)) (sortKeys d)))"

definition flushLocked :: "'w host \<Rightarrow> string \<Rightarrow> (('w, 'm) loop_st_scheme, goerr + unit) state" where
  "flushLocked E path = do {
     d \<leftarrow> gets lstate;
     let b = stateText d;
     let tmp = path @ ''.tmp'';
     onErr (sysc (h_openTrunc E tmp)) id (\<lambda>_.
       onFail (sysc (h_flock E tmp)) (ignore (sysc (h_close E tmp))) id (\<lambda>_.
         onFail (sysc (h_write E tmp b)) (ignore (sysc (h_close E tmp))) id (\<lambda>_.
           onFail (sysc (h_sync E tmp)) (ignore (sysc (h_close E tmp))) id (\<lambda>_.
             onErr (sysc (h_close E tmp)) id (\<lambda>_. sysc (h_rename E tmp path))))))
   }"

definition LoadState :: "'w host \<Rightarrow> string \<Rightarrow> (('w, 'm) loop_st_scheme, goerr + unit) state" where
  "LoadState E path = onErr (sysc (h_mkdirAll E (dir path))) id (\<lambda>_. do {
     modify (\<lambda>s. s\<lparr>lstate := []\<rparr>);
     b \<leftarrow> sysc (h_readFile E path);
     case b of
       Inl e \<Rightarrow> ret (if error_is e ErrNotExist then Inr () else Inl e)
     | Inr text \<Rightarrow>
         if text = [] then ret (Inr ())
         else case parseState text of
           None \<Rightarrow> ret (Inl (Msg ''parse''))
         | Some d \<Rightarrow> do { modify (\<lambda>s. s\<lparr>lstate := d\<rparr>); ret (Inr ()) }
   })"

definition stateAll :: "(('w, 'm) loop_st_scheme, staged list) state" where
  "stateAll = gets (\<lambda>s. map snd (lstate s))"

definition stateGet :: "string \<Rightarrow> (('w, 'm) loop_st_scheme, staged option) state" where
  "stateGet volumeID = gets (\<lambda>s. gm_get (lstate s) volumeID)"

definition statePut :: "'w host \<Rightarrow> string \<Rightarrow> staged \<Rightarrow> (('w, 'm) loop_st_scheme, goerr + unit) state" where
  "statePut E path m = do {
     modify (\<lambda>s. s\<lparr>lstate := gm_put (sVolumeID m) m (lstate s)\<rparr>);
     flushLocked E path
   }"

definition stateDelete :: "'w host \<Rightarrow> string \<Rightarrow> string \<Rightarrow> (('w, 'm) loop_st_scheme, goerr + unit) state" where
  "stateDelete E path volumeID = do {
     modify (\<lambda>s. s\<lparr>lstate := gm_del volumeID (lstate s)\<rparr>);
     flushLocked E path
   }"

section \<open>Reconciliation\<close>

text \<open>\<^verbatim>\<open>^/([^/]+/)*fb-[0-9a-f]{12}-[^/]+\.img$\<close>\<close>

definition volumeImage :: "string \<Rightarrow> bool" where
  "volumeImage x \<longleftrightarrow> hasPrefix x ''fb-'' \<and> length (take 12 (drop 3 x)) = 12 \<and> list_all lowerHex (take 12 (drop 3 x))
     \<and> hasPrefix (drop 15 x) ''-'' \<and> hasSuffix (drop 16 x) ''.img'' \<and> length (drop 16 x) > 4"

definition disconnectedImage :: "string \<Rightarrow> bool" where
  "disconnectedImage s \<longleftrightarrow> hasPrefix s ''/'' \<and>
     (let segs = split (CHR ''/'') (tl s) in list_all (\<lambda>w. w \<noteq> []) (butlast segs) \<and> volumeImage (last segs))"

definition SillyRenamed :: "string \<Rightarrow> bool" where
  "SillyRenamed back \<longleftrightarrow> (let b = base back in hasPrefix b ''.nfs'' \<and> drop 4 b \<noteq> [] \<and> list_all lowerHex (drop 4 b))"

text \<open>Step 1: entries whose loop device or mapping is not what they say.\<close>

definition staleEntry :: "(string, string) gomap \<Rightarrow> (string, string) gomap \<Rightarrow> staged \<Rightarrow> bool" where
  "staleEntry liveByDev backingByName m \<longleftrightarrow>
     (case gm_get liveByDev (LoopDev m) of None \<Rightarrow> True | Some back \<Rightarrow> \<not> Backs back (sImagePath m))
     \<or> CryptDev m \<noteq> [] \<and>
       (case gm_get backingByName (base (CryptDev m)) of None \<Rightarrow> True | Some b \<Rightarrow> b \<noteq> LoopDev m)"

definition ours :: "string \<Rightarrow> (string, string) gomap \<Rightarrow> string \<Rightarrow> bool" where
  "ours backingStorePath liveByDev dev = (case gm_get liveByDev dev of None \<Rightarrow> False
     | Some back \<Rightarrow> hasPrefix (clean back) (clean backingStorePath @ ''/'') \<or> disconnectedImage back)"

definition byDevice :: "attachment list \<Rightarrow> (string, string) gomap" where
  "byDevice live = fold (\<lambda>a. gm_put (Device a) (BackFile a)) live []"

definition byName :: "mapping list \<Rightarrow> (string, string) gomap" where
  "byName ms = fold (\<lambda>m. gm_put (mName m) (mBacking m)) ms []"

record reconciler =
  rc_path :: string
  rc_crypt :: bool
  rc_sysRoot :: string
  rc_backing :: string

definition dropStale :: "'w host \<Rightarrow> string \<Rightarrow> (string, string) gomap \<Rightarrow> (string, string) gomap \<Rightarrow> (('w, 'm) loop_st_scheme, unit) state" where
  "dropStale E path liveByDev backingByName = do {
     all \<leftarrow> stateAll;
     forEach all (\<lambda>m. if staleEntry liveByDev backingByName m then ignore (stateDelete E path (sVolumeID m)) else ret ())
   }"

definition closeOrphans :: "'w host \<Rightarrow> string \<Rightarrow> (string, string) gomap \<Rightarrow> string list \<Rightarrow> mapping list \<Rightarrow> (('w, 'm) sys_scheme, unit) state" where
  "closeOrphans E backing liveByDev tracked ms = forEach ms (\<lambda>m.
     if mName m \<in> set tracked \<or> \<not> ours backing liveByDev (mBacking m) then ret () else ignore (cryptClose E (mName m)))"

definition detachOrphans :: "'w host \<Rightarrow> string \<Rightarrow> (string, string) gomap \<Rightarrow> string list \<Rightarrow> (('w, 'm) sys_scheme, unit) state" where
  "detachOrphans E backing liveByDev tracked = forEach (map fst liveByDev) (\<lambda>dev.
     if dev \<in> set tracked \<or> \<not> ours backing liveByDev dev then ret () else ignore (loDetach E dev))"

definition trackedLoops :: "staged list \<Rightarrow> string list" where
  "trackedLoops ms = map LoopDev ms"

definition trackedCrypt :: "staged list \<Rightarrow> string list" where
  "trackedCrypt ms = map (base \<circ> CryptDev) (filter (\<lambda>m. CryptDev m \<noteq> []) ms)"

definition Reconcile :: "'w host \<Rightarrow> reconciler \<Rightarrow> (('w, 'm) loop_st_scheme, goerr + unit) state" where
  "Reconcile E R = onErr (loList E) id (\<lambda>live. let liveByDev = byDevice live in
     onErr (if rc_crypt R then cryptList E (rc_sysRoot R) else ret (Inr [])) id (\<lambda>mappings. do {
       dropStale E (rc_path R) liveByDev (byName mappings);
       kept \<leftarrow> stateAll;
       closeOrphans E (rc_backing R) liveByDev (trackedCrypt kept) mappings;
       detachOrphans E (rc_backing R) liveByDev (trackedLoops kept);
       ret (Inr ())
     }))"

section \<open>Sector sizes\<close>

lemma halveSector_pow:
  "9 \<le> a \<Longrightarrow> \<exists>j. 9 \<le> j \<and> j \<le> a \<and> halveSector (2 ^ a) sz = 2 ^ j \<and> (2 ^ j dvd sz \<or> j = 9)
     \<and> (\<forall>i. j < i \<and> i \<le> a \<longrightarrow> \<not> 2 ^ i dvd sz)"
proof (induction a rule: dec_induct)
  case base
  have "halveSector (2 ^ 9) sz = 2 ^ 9" by (subst halveSector.simps) (simp add: minSectorSize_def)
  then show ?case by (intro exI [of _ 9]) auto
next
  case (step a)
  show ?case
  proof (cases "2 ^ Suc a dvd sz")
    case True
    then have "halveSector (2 ^ Suc a) sz = 2 ^ Suc a" by (subst halveSector.simps) simp
    then show ?thesis using step.hyps(1) True by (intro exI [of _ "Suc a"]) auto
  next
    case False
    have "(512 :: int) < 2 ^ Suc a"
      using step.hyps(1) power_strict_increasing [of 9 "Suc a" "2 :: int"] by simp
    then have eq: "halveSector (2 ^ Suc a) sz = halveSector (2 ^ a) sz"
      using False by (subst halveSector.simps) (simp add: minSectorSize_def)
    from step.IH obtain j where j: "9 \<le> j" "j \<le> a" "halveSector (2 ^ a) sz = 2 ^ j" "2 ^ j dvd sz \<or> j = 9"
        "\<forall>i. j < i \<and> i \<le> a \<longrightarrow> \<not> 2 ^ i dvd sz" by blast
    have "\<not> 2 ^ i dvd sz" if "j < i" "i \<le> Suc a" for i
      using that j(5) False by (cases "i = Suc a") auto
    then show ?thesis using j(1-4) eq by (intro exI [of _ j]) simp
  qed
qed

text \<open>
  C33: The sector size of a loop device. For a recorded block size that is a power of two from 512
  on (or none) and a page size of at least 512, the result is the largest power of two from 512
  on that exceeds neither and divides the image size; when the size is not even a multiple
  of 512, it is 512.
\<close>

theorem SectorSizeFor_largest:
  assumes "recorded \<le> 0 \<or> recorded = 2 ^ a \<and> 9 \<le> a" "pagesize = 2 ^ p" "9 \<le> p"
  shows "\<exists>j. 9 \<le> j \<and> SectorSizeFor pagesize recorded sz = 2 ^ j
       \<and> 2 ^ j \<le> (if recorded \<le> 0 then 4096 else recorded) \<and> 2 ^ j \<le> int pagesize
       \<and> (512 dvd sz \<longrightarrow> 2 ^ j dvd sz) \<and> (\<not> 512 dvd sz \<longrightarrow> j = 9)
       \<and> (\<forall>i. 2 ^ i \<le> (if recorded \<le> 0 then 4096 else recorded) \<and> 2 ^ i \<le> int pagesize \<and> 2 ^ i dvd sz \<longrightarrow> i \<le> j)"
proof -
  define b where "b = (if recorded \<le> 0 then 12 else a)"
  have b: "9 \<le> b" "(if recorded \<le> 0 then 4096 else recorded) = 2 ^ b" using assms(1) by (auto simp: b_def)
  have m: "min (2 ^ b) (int pagesize) = 2 ^ min b p"
    using assms(2) by (simp add: min_def)
  obtain j where j: "9 \<le> j" "j \<le> min b p" "halveSector (2 ^ min b p) sz = 2 ^ j" "2 ^ j dvd sz \<or> j = 9"
      "\<forall>i. j < i \<and> i \<le> min b p \<longrightarrow> \<not> 2 ^ i dvd sz"
    using halveSector_pow [of "min b p" sz] b(1) assms(3) by auto
  have "SectorSizeFor pagesize recorded sz = 2 ^ j"
    unfolding SectorSizeFor_def DefaultBlockSize_def b(2) m by (rule j(3))
  moreover have "(2 :: int) ^ j \<le> 2 ^ b" "2 ^ j \<le> int pagesize"
    using j(2) assms(2) by (simp_all add: power_increasing)
  moreover have "i \<le> j" if "(2 :: int) ^ i \<le> 2 ^ b" "2 ^ i \<le> int pagesize" "2 ^ i dvd sz" for i
  proof (rule ccontr)
    assume "\<not> i \<le> j"
    moreover have "i \<le> b" "i \<le> p" using that(1,2) assms(2) by simp_all
    ultimately show False using j(5) that(3) by simp
  qed
  moreover have "(2 :: int) ^ 9 dvd 2 ^ j" using j(1) by (rule le_imp_power_dvd)
  then have "512 dvd sz \<longrightarrow> 2 ^ j dvd sz" "\<not> 512 dvd sz \<longrightarrow> j = 9"
    using j(4) dvd_trans [of 512 "2 ^ j" sz] by auto
  ultimately show ?thesis using j(1) b(2) by (intro exI [of _ j]) auto
qed

text \<open>The largest sector size that divides the size need not exist: 512 is returned and does not divide.\<close>

lemma SectorSizeFor_not_dividing: "SectorSizeFor 4096 4096 1000 = 512 \<and> \<not> (512 :: int) dvd 1000"
proof -
  have "halveSector 4096 1000 = 512"
    by (simp add: halveSector.simps [of 4096] halveSector.simps [of 2048] halveSector.simps [of 1024]
        halveSector.simps [of 512] minSectorSize_def)
  then show ?thesis by (simp add: SectorSizeFor_def)
qed

section \<open>The state as a keyed store\<close>

interpretation ls: keyed_store "\<lambda>s. gm_get (lstate s)" "\<lambda>k v s. s\<lparr>lstate := gm_put k v (lstate s)\<rparr>"
  "\<lambda>k s. s\<lparr>lstate := gm_del k (lstate s)\<rparr>" "\<lambda>s :: ('w, 'm) loop_st_scheme. gm_wf (lstate s)"
  by unfold_locales (simp_all add: gm_get_put gm_get_del)

text \<open>Every entry is filed under its own volume.\<close>

definition lstate_inv :: "('w, 'm) loop_st_scheme \<Rightarrow> bool" where
  "lstate_inv s \<longleftrightarrow> gm_wf (lstate s) \<and> (\<forall>k m. gm_get (lstate s) k = Some m \<longrightarrow> sVolumeID m = k)"

lemma stable_lstate: "stable (\<lambda>s :: ('w, 'm) loop_st_scheme. P (lstate s))"
  by (simp add: stable_def)

lemma keeps_flush: "stable I \<Longrightarrow> keeps I (flushLocked E path)"
  unfolding flushLocked_def Let_def by (intro kept stable_sysc; simp)

lemma flush_lstate: "run_state (flushLocked E path) s = (r, s') \<Longrightarrow> lstate s' = lstate s"
  using keeps_run [OF keeps_flush [OF stable_lstate [of "\<lambda>d. d = lstate s"]]] by blast

lemma logs_flush: "logs P (flushLocked E path)"
  unfolding flushLocked_def Let_def by (intro logged)

lemma keeps_lstate_inv [kept]:
  "keeps lstate_inv (statePut E path m)" "keeps lstate_inv (stateDelete E path v)"
proof -
  have st: "stable lstate_inv" unfolding lstate_inv_def by (rule stable_lstate)
  show "keeps lstate_inv (statePut E path m)"
    unfolding statePut_def
    by (intro keeps_bind keeps_flush [OF st]) (auto simp: keeps_def lstate_inv_def gm_get_put split: if_splits)
  show "keeps lstate_inv (stateDelete E path v)"
    unfolding stateDelete_def
    by (intro keeps_bind keeps_flush [OF st]) (auto simp: keeps_def lstate_inv_def gm_get_del split: if_splits)
qed

lemma statePut_lstate: "run_state (statePut E path m) s = (r, s') \<Longrightarrow> lstate s' = gm_put (sVolumeID m) m (lstate s)"
  using flush_lstate by (fastforce simp: statePut_def)

lemma stateDelete_lstate: "run_state (stateDelete E path v) s = (r, s') \<Longrightarrow> lstate s' = gm_del v (lstate s)"
  using flush_lstate by (fastforce simp: stateDelete_def)

text \<open>So the state file is a keyed store whether or not the flush succeeds.\<close>

lemma state_contract:
  "run_state (statePut E path m) s = (r, s') \<Longrightarrow> gm_get (lstate s') k = (if k = sVolumeID m then Some m else gm_get (lstate s) k)"
  "run_state (stateDelete E path v) s = (r, s') \<Longrightarrow> gm_get (lstate s') k = (if k = v then None else gm_get (lstate s) k)"
  using ls.get_put [where k = "sVolumeID m" and v = m and s = s and k' = k] ls.get_del [where k = v and s = s and k' = k] statePut_lstate [of E path m s r s'] stateDelete_lstate [of E path v s r s']
  by simp_all

section \<open>Reconcile\<close>

lemma logs_none: "logs (\<lambda>_. False) m \<Longrightarrow> calls (snd (run_state m s)) = calls s"
  unfolding logs_def by (drule spec [of _ s]) (auto simp: list_all_iff)

lemma logs_forEach_set: "(\<And>x. x \<in> set xs \<Longrightarrow> logs P (f x)) \<Longrightarrow> logs P (forEach xs f)"
  by (induction xs) (simp_all add: logged)

lemma dropLoop_run:
  "wp (forEach ms (\<lambda>m. if P m then ignore (stateDelete E path (sVolumeID m)) else ret ()))
     (\<lambda>_ s'. (\<forall>k. gm_get (lstate s') k = (if \<exists>m \<in> set ms. P m \<and> sVolumeID m = k then None else gm_get (lstate s) k))
        \<and> calls s' = calls s) s"
proof (induction ms arbitrary: s)
  case (Cons m ms)
  define s1 where "s1 = (if P m then snd (run_state (stateDelete E path (sVolumeID m)) s) else s)"
  have c: "logs (\<lambda>_. False) (stateDelete E path (sVolumeID m))"
    unfolding stateDelete_def by (intro logged logs_flush) simp
  have "calls s1 = calls s" "lstate s1 = (if P m then gm_del (sVolumeID m) (lstate s) else lstate s)"
    using logs_none [OF c] stateDelete_lstate [OF prod.collapse [symmetric]] by (auto simp: s1_def)
  moreover have "wp (forEach (m # ms) (\<lambda>m. if P m then ignore (stateDelete E path (sVolumeID m)) else ret ())) Q s
    = wp (forEach ms (\<lambda>m. if P m then ignore (stateDelete E path (sVolumeID m)) else ret ())) Q s1" for Q
    by (simp add: wp_def s1_def run_ignore)
  ultimately show ?case
    using Cons.IH [of s1] by (auto simp: gm_get_del elim!: wp_mono)
qed (simp add: wps)

lemma dropStale_run:
  assumes "run_state (dropStale E path L B) s = (u, s')" "lstate_inv s"
  shows "gm_get (lstate s') k = (case gm_get (lstate s) k of None \<Rightarrow> None | Some m \<Rightarrow> if staleEntry L B m then None else Some m)"
    "calls s' = calls s"
proof -
  have w: "(\<forall>k. gm_get (lstate s') k = (if \<exists>m \<in> snd ` set (lstate s). staleEntry L B m \<and> sVolumeID m = k then None else gm_get (lstate s) k))
        \<and> calls s' = calls s"
    using wp_run [OF dropLoop_run [where P = "staleEntry L B" and ms = "map snd (lstate s)"], of E path s u s'] assms(1)
    by (simp add: dropStale_def stateAll_def)
  then show "calls s' = calls s" by blast
  have wf: "gm_wf (lstate s)" and key: "\<And>k m. gm_get (lstate s) k = Some m \<Longrightarrow> sVolumeID m = k"
    using assms(2) by (auto simp: lstate_inv_def)
  have "m \<in> snd ` set (lstate s) \<and> sVolumeID m = k \<longleftrightarrow> gm_get (lstate s) k = Some m" for m
  proof
    assume "m \<in> snd ` set (lstate s) \<and> sVolumeID m = k"
    then obtain k' where "gm_get (lstate s) k' = Some m" "sVolumeID m = k" using gm_get_set [OF wf] by auto
    with key show "gm_get (lstate s) k = Some m" by auto
  next
    assume "gm_get (lstate s) k = Some m"
    with key [OF this] show "m \<in> snd ` set (lstate s) \<and> sVolumeID m = k" by (force dest: map_of_SomeD)
  qed
  then have "(\<exists>m \<in> snd ` set (lstate s). staleEntry L B m \<and> sVolumeID m = k) \<longleftrightarrow> (\<exists>m. gm_get (lstate s) k = Some m \<and> staleEntry L B m)"
    by blast
  then show "gm_get (lstate s') k = (case gm_get (lstate s) k of None \<Rightarrow> None | Some m \<Rightarrow> if staleEntry L B m then None else Some m)"
    using w by (auto split: option.split)
qed

text \<open>The commands of the last two steps.\<close>

lemma logs_closeOrphans:
  "logs (\<lambda>c. \<exists>m \<in> set ms. c = closeCmd (mName m) \<and> mName m \<notin> set tracked \<and> ours backing L (mBacking m))
     (closeOrphans E backing L tracked ms)"
  unfolding closeOrphans_def
proof (rule logs_forEach_set)
  fix m
  assume "m \<in> set ms"
  then show "logs (\<lambda>c. \<exists>m \<in> set ms. c = closeCmd (mName m) \<and> mName m \<notin> set tracked \<and> ours backing L (mBacking m))
      (if mName m \<in> set tracked \<or> \<not> ours backing L (mBacking m) then ret () else ignore (cryptClose E (mName m)))"
    unfolding cryptClose_def by (auto intro!: logged)
qed

lemma logs_detachOrphans:
  "logs (\<lambda>c. \<exists>dev. c = plain ''losetup'' [''--detach'', dev] \<and> dev \<notin> set tracked \<and> ours backing L dev)
     (detachOrphans E backing L tracked)"
  unfolding detachOrphans_def
proof (rule logs_forEach_set)
  fix dev
  show "logs (\<lambda>c. \<exists>dev. c = plain ''losetup'' [''--detach'', dev] \<and> dev \<notin> set tracked \<and> ours backing L dev)
      (if dev \<in> set tracked \<or> \<not> ours backing L dev then ret () else ignore (loDetach E dev))"
    unfolding loDetach_def by (auto intro!: logged)
qed

lemma keeps_orphans:
  assumes "stable I"
  shows "keeps I (closeOrphans E b L t ms)" "keeps I (detachOrphans E b L t)"
  unfolding closeOrphans_def detachOrphans_def by (intro kept stable_crypt_cmds stable_losetup assms)+

text \<open>
  C12: Reconcile is conservative. Exactly the entries whose loop device or mapping is no longer what
  they say are dropped. Beyond looking, its only commands close a mapping and detach a loop
  device that no remaining entry tracks and whose backing file is an image of this driver
  (below the stores root, or a volume image on a store that is gone).
\<close>

theorem Reconcile_conservative:
  assumes inv: "lstate_inv s" and live: "run_state (loList E) s = (Inr live, s1)"
    and maps: "run_state (if rc_crypt R then cryptList E (rc_sysRoot R) else ret (Inr [])) s1 = (Inr ms, s2)"
    and run: "run_state (Reconcile E R) s = (r, s')"
  shows "r = Inr ()
    \<and> (\<forall>v. gm_get (lstate s') v = (case gm_get (lstate s) v of None \<Rightarrow> None
         | Some m \<Rightarrow> if staleEntry (byDevice live) (byName ms) m then None else Some m))
    \<and> list_all (\<lambda>c.
        (\<exists>dev. c = plain ''losetup'' [''--detach'', dev] \<and> dev \<notin> set (trackedLoops (map snd (lstate s'))) \<and> ours (rc_backing R) (byDevice live) dev)
      \<or> (\<exists>m \<in> set ms. c = closeCmd (mName m) \<and> mName m \<notin> set (trackedCrypt (map snd (lstate s'))) \<and> ours (rc_backing R) (byDevice live) (mBacking m)))
      (newcalls s2 s')"
proof -
  let ?L = "byDevice live" and ?b = "rc_backing R"
  have s1: "lstate s1 = lstate s"
    using keeps_run [OF stable_losetup(3) [OF stable_lstate [of "\<lambda>d. d = lstate s"]] _ live] by simp
  have k: "keeps (\<lambda>t :: ('a, 'b) loop_st_scheme. lstate t = lstate s1) (if rc_crypt R then cryptList E (rc_sysRoot R) else ret (Inr []))"
    by (intro kept stable_crypt stable_lstate)
  have s2: "lstate s2 = lstate s" using keeps_run [OF k refl maps] s1 by simp
  obtain s3 where d: "run_state (dropStale E (rc_path R) ?L (byName ms)) s2 = ((), s3)"
    by (cases "run_state (dropStale E (rc_path R) ?L (byName ms)) s2") simp
  have inv2: "lstate_inv s2" using inv s2 by (simp add: lstate_inv_def)
  define K where "K = map snd (lstate s3)"
  obtain s4 where c: "run_state (closeOrphans E ?b ?L (trackedCrypt K) ms) s3 = ((), s4)"
    by (cases "run_state (closeOrphans E ?b ?L (trackedCrypt K) ms) s3") simp
  obtain s5 where t: "run_state (detachOrphans E ?b ?L (trackedLoops K)) s4 = ((), s5)"
    by (cases "run_state (detachOrphans E ?b ?L (trackedLoops K)) s4") simp
  have r: "r = Inr ()" "s' = s5"
    using run live maps d c t by (simp_all add: Reconcile_def run_onErr Let_def stateAll_def K_def)
  have "lstate s5 = lstate s3"
    using keeps_run [OF keeps_orphans(1) [OF stable_lstate [of "\<lambda>x. x = lstate s3"]] _ c]
      keeps_run [OF keeps_orphans(2) [OF stable_lstate [of "\<lambda>x. x = lstate s3"]] _ t] by simp
  moreover obtain cs ds where cs: "calls s4 = calls s3 @ cs" "calls s5 = calls s4 @ ds"
      "list_all (\<lambda>c. \<exists>m \<in> set ms. c = closeCmd (mName m) \<and> mName m \<notin> set (trackedCrypt K) \<and> ours ?b ?L (mBacking m)) cs"
      "list_all (\<lambda>c. \<exists>dev. c = plain ''losetup'' [''--detach'', dev] \<and> dev \<notin> set (trackedLoops K) \<and> ours ?b ?L dev) ds"
    using logsD [OF logs_closeOrphans c] logsD [OF logs_detachOrphans t] by blast
  ultimately show ?thesis
    using r s2 dropStale_run [OF d inv2] by (auto simp: newcalls_def K_def list_all_iff)
qed

end
