(* ===== verification/Witnesses.thy ===== *)
theory Witnesses
  imports Sim Sim_Luks Loop
begin

text \<open>
  Applications of the properties to concrete inputs, on the machine of \<^verbatim>\<open>Sim\<close>: each shows
  that the hypotheses of the property can hold together, and what it then says.
\<close>

lemmas goeval = golib joinPath_def clean_def clean_segs_def isAbs_def hasPrefix_def base_def stripSlashes_def dir_def Let_def

lemma run_Inr: "\<not> isl (fst (run_state m s)) \<Longrightarrow> \<exists>x s'. run_state m s = (Inr x, s')"
  by (cases "fst (run_state m s)") (auto simp: prod_eq_iff)

section \<open>Commands and mounts\<close>

theorem osRunCmd_closes_descriptors_witness:
  "sFds (snd (run_state (osRunCmd simHost \<lparr>cName = ''cryptsetup'', cArgs = [], cEnv = [], cSecrets = [''k1'', ''k2'']\<rparr>)
     (world simBoot))) = []"
  using osRunCmd_closes_descriptors [OF sim_pipe_law,
      of "\<lparr>cName = ''cryptsetup'', cArgs = [], cEnv = [], cSecrets = [''k1'', ''k2'']\<rparr>" "world simBoot"]
  by (simp add: simBoot_def)

definition simMnt :: "sim sys" where
  "simMnt = \<lparr>world = \<lparr>sFiles = [(''/m'', \<lparr>fi_size = 0, fi_dir = True\<rparr>)], sMounts = [''/m''], sFds = []\<rparr>, calls = []\<rparr>"

lemma simMnt_mounted: "simMounted (world simMnt) = [''/m'']"
  by (simp add: simMnt_def simMounted_def row_is_def trimSpace_ascii isSpace_def)

theorem Unmount_only_when_mounted_witness:
  "findmnt_law simHost simMounted
   \<and> (\<exists>c \<in> set (newcalls simMnt (snd (run_state (Unmount simHost ''/m'') simMnt))). cName c = ''umount'')
   \<and> fst (run_state (Unmount simHost ''/x'') simMnt) = Inr ()"
proof -
  have "fst (h_stat simHost ''/x'' (world simMnt)) = Inl (Sentinel ErrNotExist)"
    by (simp add: simMnt_def simHost_def simStat_def)
  then have "fst (run_state (Unmount simHost ''/x'') simMnt) = Inr ()"
    by (simp add: Unmount_def IsMountPoint_def run_onErr run_sysc)
  with Unmount_only_when_mounted [where t = "''/m''" and s = simMnt, OF sim_findmnt_law prod.collapse [symmetric]]
  show ?thesis
    by (simp add: simMnt_mounted sim_findmnt_law)
qed

theorem ParseMountInfo_roundtrip_witness:
  "ParseMountInfo (mi_text [(''1'', ''2'', ''/'', [], \<lparr>MajorMinor = ''7:0'', MountPoint = ''/a b'',
      MountOptions = [''rw''], FSType = ''ext4'', MSource = ''/dev/loop0'', SuperOptions = [''ro'']\<rparr>)])
   = Inr [\<lparr>MajorMinor = ''7:0'', MountPoint = ''/a b'', MountOptions = [''rw''], FSType = ''ext4'',
           MSource = ''/dev/loop0'', SuperOptions = [''ro'']\<rparr>]"
proof -
  let ?row = "(''1'', ''2'', ''/'', [], \<lparr>MajorMinor = ''7:0'', MountPoint = ''/a b'',
      MountOptions = [''rw''], FSType = ''ext4'', MSource = ''/dev/loop0'', SuperOptions = [''ro'']\<rparr>)"
  have "line_ok ?row"
    by (simp add: line_ok_def mi_words_def mi_head_def kernelEscape_def escaped_def octalDigits_def word_ok_def
        opts_ok_def ascii_spaceLen isSpace_def maxToken_def golib)
  then show ?thesis
    using ParseMountInfo_roundtrip [of "[?row]"] by simp
qed

section \<open>Images\<close>

definition simVol :: "sim sys" where
  "simVol = \<lparr>world = \<lparr>sFiles = [(''/b/v.img'', \<lparr>fi_size = 8192, fi_dir = False\<rparr>)], sMounts = [], sFds = []\<rparr>, calls = []\<rparr>"


abbreviation simFs :: "sim \<Rightarrow> string \<Rightarrow> finfo option" where
  "simFs \<equiv> \<lambda>w. gm_get (sFiles w)"

lemma simPath: "ImagePath ''/b'' ''v'' = ''/b/v.img''"
  by (simp add: ImagePath_def ImageExt_def goeval)

lemma simVol_vol: "volumes simFs ''/b'' simVol ''v'' = Some 8192"
  by (simp add: volumes_def simPath simVol_def validateVolumeID_def containsAny_def)

lemma AlignUp_8192: "AlignUp 8192 = 8192" "AlignUp 5000 = 8192"
  by (simp_all add: AlignUp_exact)

theorem imgCreate_idempotent_witness:
  "run_state (imgCreate simHost ''/b'' ''v'' 5000 False) simVol = (Inr \<lparr>VolumeID = ''v'', CapacityBytes = 8192\<rparr>, simVol)
   \<and> run_state (imgGet simHost ''/b'' ''v'') simVol = (Inr \<lparr>VolumeID = ''v'', CapacityBytes = 8192\<rparr>, simVol)"
proof -
  have "run_state (imgCreate simHost ''/b'' ''v'' 5000 False) simVol = (Inr \<lparr>VolumeID = ''v'', CapacityBytes = 8192\<rparr>, simVol)"
    using im.create_found [OF sim_fs_law simVol_vol, of 5000 False] by (simp add: AlignUp_8192)
  with imgCreate_idempotent [OF sim_fs_law this] show ?thesis by simp
qed

theorem imgDelete_removes_witness:
  "fst (run_state (imgDelete simHost ''/b'' ''v'') simBoot) = Inr ()
   \<and> isl (fst (run_state (imgGet simHost ''/b'' ''v'') (snd (run_state (imgDelete simHost ''/b'' ''v'') simBoot))))"
proof -
  have v: "validateVolumeID ''v'' = None" by (simp add: validateVolumeID_def containsAny_def)
  have "volumes simFs ''/b'' simBoot ''v'' = None" by (simp add: volumes_def simBoot_def)
  with imgDelete_removes [where root = "''/b''" and s = simBoot, OF sim_fs_law v prod.collapse [symmetric]]
  show ?thesis by auto
qed

theorem imgResize_never_shrinks_witness:
  "fs_law simHost simFs \<and> isl (fst (run_state (imgResize simHost ''/b'' ''v'' 100) simVol))
   \<and> (case fst (run_state (imgResize simHost ''/b'' ''v'' 10000) simVol) of
        Inr m \<Rightarrow> CapacityBytes m = 12288 | Inl e \<Rightarrow> False)"
proof -
  have g: "run_state (imgGet simHost ''/b'' ''v'') simVol = (Inr \<lparr>VolumeID = ''v'', CapacityBytes = 8192\<rparr>, simVol)"
    by (rule im.get_found [OF sim_fs_law simVol_vol])
  have "\<not> isl (fst (run_state (imgResize simHost ''/b'' ''v'' 10000) simVol))"
    by (simp add: imgResize_def run_onErr g AlignUp_exact Let_def truncateSparse_def run_sysc run_ignore)
      (simp add: simHost_def simOpen_def run_sysc run_ignore)
  moreover have "isl (fst (run_state (imgResize simHost ''/b'' ''v'' 100) simVol))"
    by (simp add: imgResize_def run_onErr g AlignUp_exact Let_def)
  moreover have "n = 12288" if "10000 \<le> n" "n < 10000 + 4096" "4096 dvd n" for n :: int
    using that by (auto elim!: dvdE)
  ultimately show ?thesis
    using imgResize_never_shrinks [where n = 10000 and root = "''/b''" and v = "''v''" and s = simVol, OF sim_fs_law _ _ prod.collapse [symmetric]]
    by (auto simp: sim_fs_law split: sum.splits)
qed

text \<open>A machine whose \<^verbatim>\<open>ftruncate\<close> always fails, as on a full or read-only file system.\<close>

definition simFull :: "sim host" where
  "simFull = simHost\<lparr>h_ftruncate := \<lambda>p n w. (Inl (Msg ''no space left on device''), w)\<rparr>"

lemma simFull_same:
  "h_stat simFull = h_stat simHost" "h_openRW simFull = h_openRW simHost" "h_remove simFull = h_remove simHost"
  "h_close simFull = h_close simHost" "exec simFull n as w = exec simHost n as w"
proof -
  show "exec simFull n as w = exec simHost n as w"
    unfolding run_plain simFull_def by (simp split: prod.splits sum.splits)
qed (simp_all add: simFull_def)

lemma simFull_law: "fs_law simFull simFs"
proof -
  have "ftruncate_law simFull simFs" by (simp add: ftruncate_law_def simFull_def)
  then show ?thesis
    using sim_fs_law unfolding fs_law_def stat_law_def openRW_law_def remove_law_def simFull_same
    by (elim conjE) (intro conjI; assumption)
qed

theorem imgCreate_failed_truncate_witness:
  "isl (fst (run_state (imgCreate simFull ''/b'' ''v'' 5000 False) simBoot))
   \<and> fst (run_state (imgCreate simFull ''/b'' ''v'' 5000 False) (snd (run_state (imgCreate simFull ''/b'' ''v'' 5000 False) simBoot)))
     = Inl (CapacityMismatch 5000 0)"
proof -
  have v: "validateVolumeID ''v'' = None" by (simp add: validateVolumeID_def containsAny_def)
  have none: "volumes simFs ''/b'' simBoot ''v'' = None" by (simp add: volumes_def simBoot_def)
  obtain w where "h_openRW simFull (ImagePath ''/b'' ''v'') (world simBoot) = (Inr (), w)"
    by (simp add: simFull_def simHost_def simOpen_def)
  from imgCreate_failed_truncate [where n = 5000 and u = False and n' = 5000 and u' = False
      and e = "Msg ''no space left on device''" and w' = w, OF simFull_law v none _ this _ prod.collapse [symmetric]]
  show ?thesis by (simp add: simFull_def)
qed

theorem AlignUp_least_witness: "5000 \<le> AlignUp 5000 \<and> AlignUp 5000 \<le> 8192 \<and> AlignUp (2 ^ 63 - 1) < 0"
  using AlignUp_least [of 5000] AlignUp_least [of "2 ^ 63 - 1"] by simp

section \<open>Stores\<close>

lemma sub_example: "resolveSubDir ''a/b'' [] = Inr ''a/b''"
  by (simp add: resolveSubDir_def substParam_def goeval param_defs contains_def)

theorem resolveSubDir_confined_witness:
  "resolveSubDir ''a/b'' [] = Inr ''a/b'' \<and> joinPath [''/m'', ''a/b''] = ''/m/a/b'' \<and> list_all entry_name (split (CHR ''/'') ''a/b'')"
  using resolveSubDir_confined [OF sub_example, of "''/m''"] sub_example
  by (simp add: cleanDir_def plainPath_def entry_name_def goeval)

lemma local_params: "ConfigFromParams [(ParamType, TypeLocal), (ParamLocalPath, ''/p'')]
    = Inr (emptyConfig\<lparr>Type := TypeLocal, LocalPath := ''/p''\<rparr>)"
  by (simp add: ConfigFromParams_def param_defs sget_def TypeLocal_def TypeNFS_def Let_def emptyConfig_def)

theorem volume_context_roundtrip_witness:
  "ConfigFromVolumeContext (ToVolumeContext (emptyConfig\<lparr>Type := TypeLocal, LocalPath := ''/p''\<rparr>))
   = Inr (emptyConfig\<lparr>Type := TypeLocal, LocalPath := ''/p''\<rparr>)"
  by (rule volume_context_roundtrip [OF local_params])

theorem store_ids_witness:
  "MountID (emptyConfig\<lparr>NFSMountOptions := ''ro,soft''\<rparr>) = MountID (emptyConfig\<lparr>NFSMountOptions := ''soft,,ro''\<rparr>)"
  using store_ids [of emptyConfig "[]" "''ro,soft''" "''soft,,ro''"]
  by (simp add: optionWords_def golib trimSpace_ascii isSpace_def)

theorem storeKey_injective_witness:
  "storeKey (emptyConfig\<lparr>Type := TypeLocal, LocalPath := ''/a''\<rparr>) \<noteq> storeKey (emptyConfig\<lparr>Type := TypeLocal, LocalPath := ''/b''\<rparr>)"
proof
  let ?c = "\<lambda>p. emptyConfig\<lparr>Type := TypeLocal, LocalPath := p\<rparr>"
  assume "storeKey (?c ''/a'') = storeKey (?c ''/b'')"
  moreover have "noBar (?c ''/a'')" "noBar (?c ''/b'')" by (simp_all add: noBar_def emptyConfig_def)
  ultimately show False
    using storeKey_injective [of "?c ''/a''" "?c ''/b''"] by (simp add: emptyConfig_def TypeLocal_def TypeNFS_def)
qed

section \<open>The registry\<close>

definition simReg :: registry where
  "simReg = \<lparr>r_root = ''/m'', r_nfsM = True, r_localM = True, r_mp = True\<rparr>"

definition simLocal :: config where
  "simLocal = emptyConfig\<lparr>Type := TypeLocal, LocalPath := ''/p''\<rparr>"

definition simRegBoot :: "sim reg_st" where
  "simRegBoot = \<lparr>world = \<lparr>sFiles = [], sMounts = [], sFds = []\<rparr>, calls = [],
     mounted = [], stores = [], configs = [], storeMu = [], checks = []\<rparr>"

lemma simReg_reach: "reg_reach E R simRegBoot"
  using reg_new [of E R simRegBoot] by (simp add: NewRegistry_def simRegBoot_def)

lemma simReg_root: "cleanDir (r_root simReg)"
  by (simp add: simReg_def cleanDir_def plainPath_def entry_name_def goeval)

lemma simLocal_params: "ConfigFromParams [(ParamType, TypeLocal), (ParamLocalPath, ''/p'')] = Inr simLocal"
  unfolding simLocal_def by (rule local_params)

theorem registry_invariant_witness:
  "reg_inv simReg (snd (run_state (regGet simHost simReg simLocal) simRegBoot))
   \<and> distinct (fst (run_state MountedPaths (snd (run_state (regGet simHost simReg simLocal) simRegBoot))))"
  using registry_invariant [OF reg_get [OF simReg_reach simLocal_params] simReg_root] by blast

lemma sim_bind: "run_state (localMount simHost t simLocal) s = (Inr (), s\<lparr>calls := calls s @ [plain ''mount'' [''--bind'', ''/p'', t]],
    world := (world s)\<lparr>sMounts := sMounts (world s) @ [t]\<rparr>\<rparr>)"
  by (simp add: localMount_def simLocal_def TypeLocal_def BindMount_def RunE_def Run_def run_onErr run_RunCmd asErr_def sim_exec simWait_def)

lemma simReg_mounter: "mounterFor simHost simReg (Type simLocal) = Inr (localMount simHost)"
  by (simp add: mounterFor_def simReg_def simLocal_def emptyConfig_def TypeLocal_def TypeNFS_def)

lemma simReg_get: "\<not> isl (fst (run_state (regGet simHost simReg simLocal) simRegBoot))"
proof -
  have "NFSSubDir simLocal = []" by (simp add: simLocal_def emptyConfig_def)
  moreover have "fst (h_mkdirAll simHost t w) = Inr ()" for t w by (simp add: simHost_def)
  ultimately show ?thesis
    by (simp add: regGet_def regMount_def regCached_def regMountNew_def regStore_def lockStore_def run_onErr run_sysc Let_def
        sim_bind simReg_mounter simRegBoot_def)
qed

theorem regGet_returns_witness:
  "fst (run_state (regGet simHost simReg simLocal) simRegBoot) = Inr (storePath ''/m'' simLocal)
   \<and> fst (run_state (ConfigByStoreID (StoreID simLocal)) (snd (run_state (regGet simHost simReg simLocal) simRegBoot))) = Some simLocal"
proof -
  obtain p s' where g: "run_state (regGet simHost simReg simLocal) simRegBoot = (Inr p, s')"
    using run_Inr [OF simReg_get] by blast
  from regGet_returns [OF simReg_reach simReg_root simLocal_params g] g show ?thesis
    by (simp add: simReg_def)
qed

definition simRegLive :: "sim reg_st" where
  "simRegLive = simRegBoot\<lparr>world := \<lparr>sFiles = [(''/m'', \<lparr>fi_size = 0, fi_dir = True\<rparr>)], sMounts = [''/m''], sFds = []\<rparr>,
     mounted := [(MountID simLocal, ''/m'')]\<rparr>"

lemma sim_quiet_law: "quiet_law simHost simMounted"
  by (simp add: quiet_law_def simHost_def)

text \<open>The machine with every \<^verbatim>\<open>stat\<close> failing, as on a stale NFS handle.\<close>

definition staleHost :: "sim host" where
  "staleHost = simHost\<lparr>h_stat := (\<lambda>p w. (Inl (Msg ''stale NFS file handle''), w))\<rparr>"

lemma stale_laws: "live_law staleHost simMounted" "quiet_law staleHost simMounted"
proof -
  have "run_state (osRunCmd staleHost (plain n as)) w = run_state (osRunCmd simHost (plain n as)) w" for n as w
    by (simp add: osRunCmd_def closeAll_def feedSecrets_def staleHost_def simHost_def)
  then show "live_law staleHost simMounted"
    using findmnt_law_live [OF sim_findmnt_law] unfolding live_law_def by (simp add: staleHost_def)
qed (simp add: quiet_law_def staleHost_def simHost_def)

theorem regGet_never_stacks_witness:
  "list_all (\<lambda>c. cName c = ''findmnt'') (newcalls simRegLive (snd (run_state (regGet simHost simReg simLocal) simRegLive)))
   \<and> mounted (snd (run_state (regGet simHost simReg simLocal) simRegLive)) = [(MountID simLocal, ''/m'')]
   \<and> mounted (snd (run_state (regGet staleHost simReg simLocal) simRegLive)) = [(MountID simLocal, ''/m'')]"
proof -
  have "gm_get (mounted simRegLive) (MountID simLocal) = Some ''/m''" "''/m'' \<in> set (simMounted (world simRegLive))"
    by (simp_all add: simRegLive_def simMounted_def row_is_def trimSpace_ascii isSpace_def)
  from regGet_never_stacks [OF findmnt_law_live [OF sim_findmnt_law] sim_quiet_law this prod.collapse [symmetric]]
    regGet_never_stacks [OF stale_laws this prod.collapse [symmetric]]
  show ?thesis by (simp add: simRegLive_def)
qed

theorem AdoptExisting_adopts_mounts_witness:
  "findmnt_law simHost simMounted \<and> quiet_law simHost simMounted
   \<and> list_all (\<lambda>c. cName c = ''findmnt'') (newcalls simRegLive (snd (run_state (AdoptExisting simHost simReg) simRegLive)))"
  using AdoptExisting_adopts_mounts [OF sim_findmnt_law sim_quiet_law prod.collapse [symmetric]] sim_findmnt_law sim_quiet_law
  by blast

section \<open>Encryption\<close>

definition luksBoot :: "lsim sys" where
  "luksBoot = \<lparr>world = \<lparr>lHdr = (\<lambda>_. None), lData = (\<lambda>_. [CHR 0x00, CHR 0x00])\<rparr>, calls = []\<rparr>"

definition luksSet :: "lsim sys" where
  "luksSet = luksBoot\<lparr>world := (world luksBoot)\<lparr>lHdr := [''d'' \<mapsto> \<lparr>slots = {''old''}, label = labelFormatted\<rparr>]\<rparr>\<rparr>"

definition luksKeys :: keys where
  "luksKeys = \<lparr>Current = ''new'', Previous = ''old''\<rparr>"

lemma luksKeys_sel [simp]: "Current luksKeys = ''new''" "Previous luksKeys = ''old''"
  by (simp_all add: luksKeys_def)

lemma run_luks: "run_state (RunCmdE luksHost c) s = (case lsimWait c (world s) of (r, w') \<Rightarrow>
    (case snd r of None \<Rightarrow> Inr (fst r) | Some (x, e) \<Rightarrow> Inl (ExecError (cName c) (cArgs c) x (fst r) (Some e)),
     s\<lparr>calls := calls s @ [c], world := w'\<rparr>))"
  by (simp add: run_RunCmdE luks_exec asErr_def split: prod.splits option.splits)

lemmas luks_run = run_luks lsimWait_def Let_def cmd_defs lOk_def lFail_def run_onErr exitCode_def

lemma luks_rotates: "\<not> isl (fst (run_state (rotate luksHost ''d'' luksKeys) luksSet))"
  by (simp add: rotate_def opens_def swapSlots_def luks_run luksSet_def luksBoot_def)

theorem rotate_never_locks_out_witness:
  "\<exists>h. lHdr (world (snd (run_state (rotate luksHost ''d'' luksKeys) luksSet))) ''d'' = Some h
     \<and> ''new'' \<in> slots h \<and> ''old'' \<notin> slots h"
proof -
  have "lHdr (world luksSet) ''d'' = Some \<lparr>slots = {''old''}, label = labelFormatted\<rparr>" by (simp add: luksSet_def)
  from rotate_never_locks_out [OF luks_test_law luks_slot_law this prod.collapse [symmetric], of luksKeys] luks_rotates
  show ?thesis by auto
qed

lemma luks_ensure:
  "run_state (ensureLuks luksHost ''d'' luksKeys DefaultFormat) luksBoot =
     (Inr OutcomeFormatted, luksBoot\<lparr>calls := [isLuksCmd ''d'', luksFormatCmd ''d'' ''new'' DefaultFormat],
        world := (world luksBoot)\<lparr>lHdr := [''d'' \<mapsto> \<lparr>slots = {''new''}, label = labelUnformatted\<rparr>]\<rparr>\<rparr>)"
proof -
  let ?s1 = "luksBoot\<lparr>calls := [isLuksCmd ''d'']\<rparr>"
  have b: "run_state (blankLoop luksHost ''d'' 0) ?s1 = (Inr True, ?s1)"
    by (subst blankLoop.simps, simp add: run_sysc) (simp add: luksHost_def luksBoot_def blankCheckBytes_def,
      subst blankLoop.simps, simp add: run_sysc blankCheckBytes_def)
  have "h_open luksHost p w = (Inr (), w)" "h_close luksHost p w = (Inr (), w)" for p w by (simp_all add: luksHost_def)
  then have "run_state (isBlank luksHost ''d'') ?s1 = (Inr True, ?s1)"
    by (simp add: isBlank_def run_onErr run_sysc run_ignore b)
  moreover have "run_state (isLuks luksHost ''d'') luksBoot = (Inr False, ?s1)"
    by (simp add: isLuks_def luks_run) (simp add: luksBoot_def)
  ultimately show ?thesis
    by (simp add: ensureLuks_def run_onErr) (simp add: luks_run luksBoot_def)
qed

lemma luks_dump: "lDump d w = lOk (''Label: '' @ labelUnformatted) w" if "lHdr w d = Some \<lparr>slots = S, label = labelUnformatted\<rparr>"
  and "luksLabel (''Label: '' @ labelUnformatted) = labelUnformatted"
  using that by (simp add: lDump_def)

lemma luks_label: "luksLabel (''Label: '' @ labelUnformatted) = labelUnformatted"
  by (simp add: luksLabel_def labelUnformatted_def golib hasPrefix_def trimSpace_ascii isSpace_def)

lemma luks_mkfs: "run_state (Mkfs luksHost (MapperPath p)) s = (Inr (), s\<lparr>calls := calls s @ [plain ''mkfs.ext4'' [''-q'', ''-F'', ''-b'', itoa (nat DefaultBlockSize),
    ''-m'', ''0'', ''-E'', ''lazy_itable_init=1,lazy_journal_init=1'', MapperPath p]]\<rparr>)"
  by (simp add: Mkfs_def RunE_def Run_def run_RunCmd run_onErr luks_exec lsimWait_def asErr_def lOk_def
      MapperPath_def hasPrefix_def)

lemma luks_prepares:
  "\<not> isl (fst (run_state (Prepare luksHost ''d'' ''n'' luksKeys DefaultFormat) luksBoot))"
  "\<not> list_all (\<lambda>c. \<not> formats c) (newcalls luksBoot (snd (run_state (Prepare luksHost ''d'' ''n'' luksKeys DefaultFormat) luksBoot)))"
  by (simp_all add: Prepare_def run_onErr luks_ensure)
    (simp_all add: openMapped_def rotate_def opens_def swapSlots_def luks_run luksBoot_def ensureFilesystem_def luks_dump [OF _ luks_label]
        luks_label luks_mkfs formats_def newcalls_def)

theorem Prepare_formats_only_blank_witness:
  "\<not> list_all (\<lambda>c. \<not> formats c) (newcalls luksBoot (snd (run_state (Prepare luksHost ''d'' ''n'' luksKeys DefaultFormat) luksBoot)))
   \<and> lHdr (world luksBoot) ''d'' = None"
  using Prepare_formats_only_blank [OF luks_query_law luks_read_law prod.collapse [symmetric] luks_prepares(2)] luks_prepares(2)
  by blast

theorem Prepare_hides_keys_witness:
  "list_all (\<lambda>c. ''new'' \<notin> set (cArgs c) \<and> ''old'' \<notin> set (cArgs c))
     (newcalls luksBoot (snd (run_state (Prepare luksHost ''d'' ''n'' luksKeys \<lparr>Cipher = ''x'', KeySize = 8\<rparr>) luksBoot)))"
proof -
  have "''new'' \<notin> publicWords ''d'' ''n'' \<lparr>Cipher = ''x'', KeySize = 8\<rparr>" "''old'' \<notin> publicWords ''d'' ''n'' \<lparr>Cipher = ''x'', KeySize = 8\<rparr>"
    by (simp_all add: publicWords_def MapperPath_def golib SecretFD_def labelUnformatted_def labelFormatted_def DefaultBlockSize_def
        pbkdfIterations_def itoa.simps)
  then show ?thesis
    using Prepare_hides_keys [of luksHost "''d''" "''n''" luksKeys "\<lparr>Cipher = ''x'', KeySize = 8\<rparr>" luksBoot, OF prod.collapse [symmetric]]
    by (auto simp: list_all_iff)
qed

theorem Prepare_formats_once_witness:
  "\<exists>t :: lsim sys. (\<exists>h. lHdr (world t) ''d'' = Some h \<and> ''new'' \<in> slots h)
     \<and> list_all (\<lambda>c. \<not> writes c) (newcalls t (snd (run_state (Prepare luksHost ''d'' ''n'' luksKeys DefaultFormat) t)))"
proof -
  obtain x s' where "run_state (Prepare luksHost ''d'' ''n'' luksKeys DefaultFormat) luksBoot = (Inr x, s')"
    using run_Inr [OF luks_prepares(1)] by blast
  from Prepare_formats_once [OF luks_query_law luks_header_law luks_test_law luks_slot_law _ this refl prod.collapse [symmetric],
      of "''n''" luksKeys DefaultFormat]
  show ?thesis by (intro exI [of _ s']) (auto simp: MapperPath_def)
qed

section \<open>Loop devices\<close>

theorem SectorSizeFor_largest_witness:
  "\<exists>j. SectorSizeFor 4096 0 (3 * 1024) = 2 ^ j \<and> (2 :: int) ^ j dvd 3 * 1024 \<and> 10 \<le> j"
proof -
  have "(512 :: int) dvd 3 * 1024" "(2 :: int) ^ 10 dvd 3 * 1024" by simp_all
  then show ?thesis
    using SectorSizeFor_largest [where recorded = 0 and pagesize = 4096 and p = 12 and sz = "3 * 1024"] by fastforce
qed

text \<open>No loop device is attached, so the entry of a volume left over from before a reboot goes.\<close>

definition simStaged :: staged where
  "simStaged = \<lparr>sVolumeID = ''v'', LoopDev = ''/dev/loop0'', sImagePath = ''/m/v.img'', StagePath = ''/s'', CryptDev = [],
     StageContext = None, MountFlags = []\<rparr>"

definition simStage :: "sim loop_st" where
  "simStage = \<lparr>world = \<lparr>sFiles = [], sMounts = [], sFds = []\<rparr>, calls = [],
     mounted = [], stores = [], configs = [], storeMu = [], checks = [], lstate = [(''v'', simStaged)]\<rparr>"

definition simRec :: reconciler where
  "simRec = \<lparr>rc_path = ''/st.json'', rc_crypt = False, rc_sysRoot = ''/sys'', rc_backing = ''/m''\<rparr>"

theorem Reconcile_conservative_witness:
  "fst (run_state (Reconcile simHost simRec) simStage) = Inr ()
   \<and> gm_get (lstate (snd (run_state (Reconcile simHost simRec) simStage))) ''v'' = None"
proof -
  have i: "lstate_inv simStage" by (auto simp: lstate_inv_def simStage_def simStaged_def gm_wf_def)
  have l: "run_state (loList simHost) simStage = (Inr [], simStage\<lparr>calls := [plain ''losetup'' [''--json'', ''--list'']]\<rparr>)"
    by (simp add: loList_def RunE_def Run_def run_RunCmd run_onErr asErr_def sim_exec simWait_def simStage_def trimSpace_ascii)
  have c: "run_state (if rc_crypt simRec then cryptList simHost (rc_sysRoot simRec) else ret (Inr [])) s = (Inr [], s)" for s :: "sim loop_st"
    by (simp add: simRec_def)
  have "staleEntry (byDevice []) (byName []) simStaged" by (simp add: staleEntry_def byDevice_def)
  with Reconcile_conservative [OF i l c prod.collapse [symmetric]] show ?thesis
    by (elim conjE) (simp add: simStage_def)
qed

end
