(* ===== verification/Json_Roundtrip.thy ===== *)
theory Json_Roundtrip
  imports Json
begin

text \<open>
  Reading back what was written: \<open>json_parse\<close> inverts both printers on every value whose
  numbers are plain decimal naturals (the driver writes no others), up to the bytes that are
  no UTF-8: those come back as U+FFFD.
\<close>

fun wfj :: "json \<Rightarrow> bool" where
  "wfj (JNum s) \<longleftrightarrow> s \<noteq> [] \<and> list_all isDigit s \<and> (hd s = CHR ''0'' \<longrightarrow> length s = 1)"
| "wfj (JArr xs) \<longleftrightarrow> list_all wfj xs"
| "wfj (JObj ms) \<longleftrightarrow> list_all (\<lambda>(k, v). wfj v) ms"
| "wfj _ \<longleftrightarrow> True"

text \<open>A value with its strings and keys made valid UTF-8.\<close>

fun jcoerce :: "json \<Rightarrow> json" where
  "jcoerce (JStr s) = JStr (coerceUTF8 s)"
| "jcoerce (JArr xs) = JArr (map jcoerce xs)"
| "jcoerce (JObj ms) = JObj (map (\<lambda>(k, v). (coerceUTF8 k, jcoerce v)) ms)"
| "jcoerce j = j"

text \<open>A value all of whose strings and keys are UTF-8 already.\<close>

fun jutf8 :: "json \<Rightarrow> bool" where
  "jutf8 (JStr s) \<longleftrightarrow> validUTF8 s"
| "jutf8 (JArr xs) \<longleftrightarrow> list_all jutf8 xs"
| "jutf8 (JObj ms) \<longleftrightarrow> list_all (\<lambda>(k, v). validUTF8 k \<and> jutf8 v) ms"
| "jutf8 j \<longleftrightarrow> True"

lemma jutf8_id: "jutf8 j \<Longrightarrow> jcoerce j = j"
  by (induction j rule: jutf8.induct) (auto simp: list_all_iff intro!: map_idI)

text \<open>What may follow a value in a document.\<close>

definition stops :: "string \<Rightarrow> bool" where
  "stops r \<longleftrightarrow> (case r of [] \<Rightarrow> True | c # _ \<Rightarrow> c \<in> {CHR '','', CHR '']'', CHR ''}'', CHR 0x0A})"

section \<open>Strings\<close>

lemma hexdigit_hexchar: "n < 16 \<Longrightarrow> hexdigit (hexchar n) = Some n"
  by (auto simp: hexdigit_def hexchar_def Let_def)

lemma jstring_u00:
  assumes "n < 128"
  shows "jstring (u00 n @ r) = prepend [char_of n] (jstring r)"
proof -
  have "n div 16 < 16" "n mod 16 < 16" using assms by simp_all
  then show ?thesis
    using assms by (simp add: u00_def hex4_def hexdigit_hexchar utf8_def hexdigit_def [of "CHR ''0''"])
qed

lemma jstring_jescape:
  assumes "of_char c < (128 :: nat)"
  shows "jstring (jescape c @ r) = prepend [c] (jstring r)"
proof (cases "c \<in> {CHR 0x22, CHR 0x5C} \<or> c = CHR 0x08 \<or> c = CHR 0x0C \<or> c = CHR 0x0A \<or> c = CHR 0x0D \<or> c = CHR 0x09")
  case True
  then show ?thesis
    by (elim disjE insertE emptyE) (simp_all add: jescape_def escape_def)
next
  case False
  then have ne: "c \<noteq> CHR 0x22" "c \<noteq> CHR 0x5C" by simp_all
  show ?thesis
  proof (cases "of_char c < (32 :: nat) \<or> c \<in> {CHR ''<'', CHR ''>'', CHR ''&''}")
    case True
    then have "jescape c = u00 (of_char c)" using False unfolding jescape_def by presburger
    then show ?thesis using assms by (simp add: jstring_u00)
  next
    case no: False
    then have "jescape c = [c]" using False unfolding jescape_def by presburger
    then show ?thesis using no ne assms by (simp add: runeLen_def)
  qed
qed

lemma char_vals: "char_of (226 :: nat) = CHR 0xE2" "char_of (128 :: nat) = CHR 0x80" "char_of (168 :: nat) = CHR 0xA8"
  "char_of (169 :: nat) = CHR 0xA9" "char_of (239 :: nat) = CHR 0xEF" "char_of (191 :: nat) = CHR 0xBF" "char_of (189 :: nat) = CHR 0xBD"
  by code_simp+

lemma utf8_escaped:
  "utf8 8232 = [CHR 0xE2, CHR 0x80, CHR 0xA8]" "utf8 8233 = [CHR 0xE2, CHR 0x80, CHR 0xA9]" "utf8 65533 = runeError"
  by (simp_all add: utf8_def runeError_def char_vals)

lemma jstring_rune:
  assumes "runeLen (c # s) = Suc n" "n \<noteq> 0"
  shows "jstring (jrune (c # take n s) @ r) = prepend (c # take n s) (jstring r)"
proof (cases "map_of lineSeps (c # take n s)")
  case None
  have "128 \<le> (of_char c :: nat)" "n \<le> length s" using runeLen_rune(1,3) [OF assms(1)] assms(2) by simp_all
  moreover from this have "jrune (c # take n s) = c # take n s" using None assms(2)
    by (cases "take n s") (simp_all add: jrune_def)
  moreover have "c \<noteq> CHR 0x22" "c \<noteq> CHR 0x5C" using calculation(1) by auto
  ultimately show ?thesis using runeLen_rune(2) [OF assms(1), of r] by simp
next
  case (Some e)
  then have "(c # take n s, e) \<in> set lineSeps" by (rule map_of_SomeD)
  then show ?thesis using Some
    by (auto simp: lineSeps_def jrune_def hex4_def hexdigit_def utf8_escaped)
qed

lemma jstring_jencode: "jstring (jencode s @ CHR 0x22 # r) = Some (coerceUTF8 s, r)"
proof (induction s rule: coerceUTF8.induct)
  case (2 c s)
  show ?case
  proof (cases "runeLen (c # s)")
    case 0
    then show ?thesis using 2(1) by (simp add: coerceUTF8.simps jencode.simps hex4_def hexdigit_def utf8_escaped)
  next
    case (Suc n)
    show ?thesis
    proof (cases "n = 0")
      case True
      then show ?thesis using Suc 2(2) runeLen_rune(4) [OF Suc] by (simp add: coerceUTF8.simps jencode.simps jrune_def jstring_jescape)
    next
      case False
      then show ?thesis using Suc 2(2) by (simp add: coerceUTF8.simps jencode.simps jstring_rune [OF Suc])
    qed
  qed
qed simp

section \<open>Numbers and white space\<close>

lemma skipws_newline: "skipws (newline p d @ s) = skipws s"
proof -
  have "\<forall>c \<in> set (newline p d). jws c" by (auto simp: newline_def jws_def)
  then show ?thesis unfolding skipws_def by (simp add: dropWhile_append2)
qed

lemma skipws_id: "\<not> jws c \<Longrightarrow> skipws (c # s) = c # s"
  by (simp add: skipws_def)

lemma jvalue_newline: "jvalue f (newline p d @ s) = jvalue f s"
  by (cases f) (simp_all add: skipws_newline)

lemma jmembers_newline: "jmembers f (newline p d @ s) = jmembers f s"
  by (cases f) (simp_all add: skipws_newline)

lemma isDigit_range: "isDigit c \<longleftrightarrow> 48 \<le> (of_char c :: nat) \<and> of_char c < (58 :: nat)"
  by (simp add: isDigit_def digit_def Let_def)

lemma isDigit_not:
  assumes "isDigit c"
  shows "c \<noteq> CHR 0x22" "c \<noteq> CHR ''[''" "c \<noteq> CHR ''{''" "c \<noteq> CHR ''n''" "c \<noteq> CHR ''t''" "c \<noteq> CHR ''f''" "c \<noteq> CHR ''-''"
    "\<not> jws c" "c \<noteq> CHR '']''" "c \<noteq> CHR ''}''"
  using assms by (auto simp: isDigit_range jws_def)

lemma stops_tail:
  assumes "stops r"
  shows "takeWhile isDigit r = []" "dropWhile isDigit r = r" "jfrac r = Some ([], r)" "jexp r = Some ([], r)"
  using assms by (auto simp: stops_def isDigit_range jfrac_def jexp_def split: list.splits)

lemma jnumber_digits:
  assumes "wfj (JNum s)" "stops r"
  shows "jnumber (s @ r) = Some (s, r)"
proof -
  obtain c t where s: "s = c # t" using assms(1) by (cases s) auto
  have d: "isDigit c" "list_all isDigit t" using assms(1) s by auto
  have span: "spanDigits (s @ r) = (s, r)"
    using d s stops_tail(1,2) [OF assms(2)]
    by (simp add: spanDigits_def takeWhile_append2 dropWhile_append2 list_all_iff)
  show ?thesis
  proof (cases "c = CHR ''0''")
    case True
    then have "t = []" using assms(1) s by simp
    then show ?thesis using True s stops_tail(3,4) [OF assms(2)] by (simp add: jnumber_def)
  next
    case False
    then show ?thesis using span s isDigit_not(7) [OF d(1)] stops_tail(3,4) [OF assms(2)] by (simp add: jnumber_def)
  qed
qed

section \<open>Values\<close>

lemma jvalue_num: "wfj (JNum s) \<Longrightarrow> stops r \<Longrightarrow> jvalue (Suc f) (s @ r) = Some (JNum s, r)"
proof -
  assume w: "wfj (JNum s)" and r: "stops r"
  obtain c t where s: "s = c # t" "isDigit c" using w by (cases s) auto
  note nd = isDigit_not [OF s(2)]
  have "\<not> hasPrefix (c # x) ''null''" "\<not> hasPrefix (c # x) ''true''" "\<not> hasPrefix (c # x) ''false''" for x
    using nd(4-6) by simp_all
  then show ?thesis
    using jnumber_digits [OF w r] nd(1-3) s(1) by (simp add: skipws_id [OF nd(8)])
qed

lemma jvalue_str: "jvalue (Suc f) (jquote s @ r) = Some (JStr (coerceUTF8 s), r)"
  by (simp add: jquote_def skipws_id jws_def jstring_jencode)

text \<open>Elements of an array and members of an object, from the first one on.\<close>

definition reads :: "bool \<Rightarrow> nat \<Rightarrow> json \<Rightarrow> bool" where
  "reads p d j \<longleftrightarrow> (\<forall>f r. length (json_write p d j) \<le> f \<longrightarrow> stops r \<longrightarrow> jvalue f (json_write p d j @ r) = Some (jcoerce j, r))"

lemma readsD: "reads p d j \<Longrightarrow> length (json_write p d j) \<le> f \<Longrightarrow> stops r \<Longrightarrow> jvalue f (json_write p d j @ r) = Some (jcoerce j, r)"
  by (simp add: reads_def)

lemma stops_sep: "stops (CHR '','' # r)" "stops (newline p d @ CHR '']'' # r)" "stops (newline p d @ CHR ''}'' # r)"
  by (simp_all add: stops_def newline_def)

lemma jelems_written:
  assumes "xs \<noteq> []" "\<forall>x \<in> set xs. reads p d x \<and> json_write p d x \<noteq> []"
    and "length (join (CHR '','' # newline p d) (map (json_write p d) xs)) < f"
  shows "jelems f (newline p d @ join (CHR '','' # newline p d) (map (json_write p d) xs) @ newline p e @ CHR '']'' # r) = Some (map jcoerce xs, r)"
  using assms
proof (induction xs arbitrary: f)
  case (Cons x xs)
  obtain g where f: "f = Suc g" using Cons.prems(3) by (cases f) auto
  show ?case
  proof (cases "xs = []")
    case True
    have "jvalue g (json_write p d x @ newline p e @ CHR '']'' # r) = Some (jcoerce x, newline p e @ CHR '']'' # r)"
      using Cons.prems f True by (intro readsD stops_sep) simp_all
    then show ?thesis using True f by (simp add: jvalue_newline skipws_newline skipws_id jws_def)
  next
    case False
    let ?J = "join (CHR '','' # newline p d) (map (json_write p d) xs)"
    let ?rest = "newline p d @ ?J @ newline p e @ CHR '']'' # r"
    have j: "join (CHR '','' # newline p d) (map (json_write p d) (x # xs)) = json_write p d x @ CHR '','' # newline p d @ ?J"
      using False by (simp add: join_Cons)
    have "0 < length (json_write p d x)" using Cons.prems(2) by simp
    then have "length (json_write p d x) \<le> g" "length ?J < g" using Cons.prems(3) unfolding j f by simp_all
    moreover have "reads p d x" using Cons.prems(2) by simp
    ultimately have "jvalue g (json_write p d x @ CHR '','' # ?rest) = Some (jcoerce x, CHR '','' # ?rest)" "jelems g ?rest = Some (map jcoerce xs, r)"
      using Cons.IH [of g] Cons.prems(2) False by (auto intro: readsD stops_sep)
    then show ?thesis unfolding j f by (simp add: jvalue_newline skipws_id jws_def)
  qed
qed simp

abbreviation member :: "bool \<Rightarrow> nat \<Rightarrow> string \<times> json \<Rightarrow> string" where
  "member p d \<equiv> \<lambda>(k, v). jquote k @ colon p @ json_write p d v"

lemma jmembers_one:
  assumes "reads p d v" "length (json_write p d v) \<le> g" "stops r"
  shows "jmembers (Suc g) (member p d (k, v) @ r) =
    (case skipws r of c3 # t3 \<Rightarrow> if c3 = CHR '','' then map_option (\<lambda>(ms, q). ((coerceUTF8 k, jcoerce v) # ms, q)) (jmembers g t3)
        else if c3 = CHR ''}'' then Some ([(coerceUTF8 k, jcoerce v)], t3) else None
      | [] \<Rightarrow> None)"
proof -
  have "jvalue g (CHR '' '' # x) = jvalue g x" for x
    by (cases g) (simp_all add: skipws_def jws_def)
  then have "jvalue g (tl (colon p) @ json_write p d v @ r) = Some (jcoerce v, r)"
    using readsD [OF assms] by (cases p) (simp_all add: colon_def)
  moreover have "skipws (colon p @ x) = CHR '':'' # tl (colon p) @ x" for x
    by (simp add: colon_def skipws_id jws_def)
  ultimately show ?thesis
    by (simp add: jquote_def skipws_id jws_def jstring_jencode)
qed

lemma jmembers_written:
  assumes "ms \<noteq> []" "\<forall>(k, v) \<in> set ms. reads p d v"
    and "length (join (CHR '','' # newline p d) (map (member p d) ms)) < f"
  shows "jmembers f (newline p d @ join (CHR '','' # newline p d) (map (member p d) ms) @ newline p e @ CHR ''}'' # r) = Some (map (\<lambda>(k, v). (coerceUTF8 k, jcoerce v)) ms, r)"
  using assms
proof (induction ms arbitrary: f)
  case (Cons m ms)
  obtain g where f: "f = Suc g" using Cons.prems(3) by (cases f) auto
  obtain k v where m: "m = (k, v)" by (cases m)
  have rd: "reads p d v" using Cons.prems(2) m by simp
  show ?case
  proof (cases "ms = []")
    case True
    then have "length (json_write p d v) \<le> g" using Cons.prems(3) f m by simp
    from jmembers_one [OF rd this stops_sep(3)] show ?thesis
      using True m f by (simp add: jmembers_newline skipws_newline skipws_id jws_def)
  next
    case False
    let ?J = "join (CHR '','' # newline p d) (map (member p d) ms)"
    let ?rest = "newline p d @ ?J @ newline p e @ CHR ''}'' # r"
    have j: "join (CHR '','' # newline p d) (map (member p d) (m # ms)) = member p d (k, v) @ CHR '','' # newline p d @ ?J"
      using False m by (simp add: join_Cons)
    have l: "length (json_write p d v) \<le> g" "length ?J < g" using Cons.prems(3) unfolding j f by simp_all
    have "jmembers g ?rest = Some (map (\<lambda>(k, v). (coerceUTF8 k, jcoerce v)) ms, r)" using Cons.IH [OF False _ l(2)] Cons.prems(2) by simp
    with jmembers_one [OF rd l(1) stops_sep(1), of k ?rest] show ?thesis
      using m unfolding j f by (simp add: jmembers_newline skipws_id jws_def)
  qed
qed simp

text \<open>A written value starts with none of the characters that end an empty array.\<close>

lemma json_write_hd:
  assumes "wfj j"
  shows "\<exists>c t. json_write p d j = c # t \<and> \<not> jws c \<and> c \<noteq> CHR '']''"
proof (cases j)
  case (JNum s)
  with assms obtain c t where "s = c # t" "isDigit c" by (cases s) auto
  then show ?thesis using JNum isDigit_not by simp
qed (auto simp: jquote_def jws_def)

lemma json_write_ne: "wfj j \<Longrightarrow> json_write p d j \<noteq> []"
  using json_write_hd [of j p d] by auto

lemma reads_pos:
  assumes "json_write p d j \<noteq> []" "\<And>g r. length (json_write p d j) \<le> Suc g \<Longrightarrow> stops r \<Longrightarrow> jvalue (Suc g) (json_write p d j @ r) = Some (jcoerce j, r)"
  shows "reads p d j"
  unfolding reads_def
proof (intro allI impI)
  fix f r assume f: "length (json_write p d j) \<le> f" "stops r"
  then show "jvalue f (json_write p d j @ r) = Some (jcoerce j, r)"
    using assms by (cases f) simp_all
qed

lemma jvalue_arr: "jelems g t = Some (xs, r) \<Longrightarrow> skipws t = c # u \<Longrightarrow> c \<noteq> CHR '']'' \<Longrightarrow> jvalue (Suc g) (CHR ''['' # t) = Some (JArr xs, r)"
  by (simp add: skipws_id jws_def)

lemma jvalue_obj: "jmembers g t = Some (ms, r) \<Longrightarrow> skipws t = c # u \<Longrightarrow> c \<noteq> CHR ''}'' \<Longrightarrow> jvalue (Suc g) (CHR ''{'' # t) = Some (JObj ms, r)"
  by (simp add: skipws_id jws_def)

declare jvalue.simps [simp del]

lemma json_write_reads: "wfj j \<Longrightarrow> reads p d j"
proof (induction j arbitrary: d)
  case (JNum s)
  then show ?case using jvalue_num [OF JNum] by (intro reads_pos) auto
next
  case (JStr s)
  show ?case by (rule reads_pos) (simp_all add: jvalue_str, simp add: jquote_def)
next
  case (JArr xs)
  show ?case
  proof (cases "xs = []")
    case False
    let ?J = "join (CHR '','' # newline p (Suc d)) (map (json_write p (Suc d)) xs)"
    have "\<forall>x \<in> set xs. reads p (Suc d) x \<and> json_write p (Suc d) x \<noteq> []"
      using JArr by (simp add: list_all_iff json_write_ne)
    note el = jelems_written [OF False this]
    obtain x ys where xs: "xs = x # ys" "wfj x" using False JArr.prems by (cases xs) auto
    obtain c t where c: "json_write p (Suc d) x = c # t" "\<not> jws c" "c \<noteq> CHR '']''" using json_write_hd [OF xs(2)] by blast
    have hd: "\<exists>u. skipws (newline p (Suc d) @ ?J @ q) = c # u" for q
      using xs(1) c(1,2) by (cases ys) (simp_all add: skipws_newline skipws_id)
    have w: "json_write p d (JArr xs) = CHR ''['' # newline p (Suc d) @ ?J @ newline p d @ '']''" using False by simp
    show ?thesis
    proof (rule reads_pos)
      fix g r assume "length (json_write p d (JArr xs)) \<le> Suc g"
      then have "length ?J < g" unfolding w by simp
      from jvalue_arr [OF el [OF this, where e = d and r = r]] hd c(3)
      show "jvalue (Suc g) (json_write p d (JArr xs) @ r) = Some (jcoerce (JArr xs), r)" unfolding w by fastforce
    qed (simp add: w)
  qed (simp add: reads_pos jvalue.simps skipws_id jws_def)
next
  case (JObj ms)
  show ?case
  proof (cases "ms = []")
    case False
    let ?J = "join (CHR '','' # newline p (Suc d)) (map (member p (Suc d)) ms)"
    have "\<forall>(k, v) \<in> set ms. reads p (Suc d) v" using JObj by (fastforce simp: list_all_iff)
    note mb = jmembers_written [OF False this]
    have hd: "\<exists>u. skipws (newline p (Suc d) @ ?J @ q) = CHR 0x22 # u" for q
      using False by (cases ms rule: remdups_adj.cases) (simp_all add: skipws_newline skipws_id jquote_def jws_def case_prod_beta)
    have w: "json_write p d (JObj ms) = CHR ''{'' # newline p (Suc d) @ ?J @ newline p d @ ''}''" using False by simp
    show ?thesis
    proof (rule reads_pos)
      fix g r assume "length (json_write p d (JObj ms)) \<le> Suc g"
      then have "length ?J < g" unfolding w by simp
      from jvalue_obj [OF mb [OF this, where e = d and r = r]] hd
      show "jvalue (Suc g) (json_write p d (JObj ms) @ r) = Some (jcoerce (JObj ms), r)" unfolding w by fastforce
    qed (simp add: w)
  qed (simp add: reads_pos jvalue.simps skipws_id jws_def)
qed (simp_all add: reads_pos jvalue.simps skipws_id jws_def)

theorem json_parse_write:
  assumes "wfj j"
  shows "json_parse (json_write p d j) = Some (jcoerce j)"
proof -
  have "jvalue (2 * length (json_write p d j) + 2) (json_write p d j @ []) = Some (jcoerce j, [])"
    by (rule readsD [OF json_write_reads [OF assms]]) (simp_all add: stops_def)
  then show ?thesis by (simp add: json_parse_def skipws_def)
qed

corollary json_parse_utf8: "wfj j \<Longrightarrow> jutf8 j \<Longrightarrow> json_parse (json_write p d j) = Some j"
  by (simp add: json_parse_write jutf8_id)

end
