(* ===== verification/State_File.thy ===== *)
theory State_File
  imports Loop Json_Roundtrip
begin

text \<open>
  The state file across a restart: what \<^verbatim>\<open>LoadState\<close> reads from the text \<^verbatim>\<open>flushLocked\<close> wrote, and what
  a failed flush leaves of the file.
\<close>

section \<open>Decoding the text\<close>

text \<open>
  An entry as it comes back: an empty context was left out, the members of another one are in
  the order of their keys.
\<close>

definition normStaged :: "staged \<Rightarrow> staged" where
  "normStaged m = m\<lparr>StageContext := (case StageContext m of Some (kv # kvs) \<Rightarrow> Some (sortKeys (kv # kvs)) | _ \<Rightarrow> None)\<rparr>"

definition ctx_wf :: "staged \<Rightarrow> bool" where
  "ctx_wf m = (case StageContext m of None \<Rightarrow> True | Some c \<Rightarrow> gm_wf c)"

lemma sortKeys_props: "set (sortKeys m) = set m" "gm_wf m \<Longrightarrow> gm_wf (sortKeys m)"
proof -
  have p: "mset (sortKeys m) = mset m" by (simp add: sortKeys_def)
  then show "set (sortKeys m) = set m" by (metis set_mset_mset)
  have "mset (map fst (sortKeys m)) = mset (map fst m)" using p by (metis mset_map)
  then show "gm_wf m \<Longrightarrow> gm_wf (sortKeys m)"
    unfolding gm_wf_def by (metis mset_eq_imp_distinct_iff)
qed

lemma gm_get_sortKeys:
  assumes "gm_wf m"
  shows "gm_get (sortKeys m) k = gm_get m k"
proof -
  have "gm_get (sortKeys m) k = Some v \<longleftrightarrow> gm_get m k = Some v" for v
    using assms sortKeys_props [of m] by (simp add: gm_get_set)
  then show ?thesis by (metis not_Some_eq)
qed

text \<open>Filling a map from members with distinct keys gives the members in their order.\<close>

lemma gm_put_new: "k \<notin> fst ` set m \<Longrightarrow> gm_put k v m = m @ [(k, v)]"
  by (induction m) auto

lemma fold_put_distinct:
  "distinct (map fst (acc @ m)) \<Longrightarrow> fold (\<lambda>(k, v). gm_put k v) m acc = acc @ m"
  by (induction m arbitrary: acc) (auto simp: gm_put_new)

lemma fold_put: "gm_wf m \<Longrightarrow> fold (\<lambda>(k, v). gm_put k v) m [] = m"
  using fold_put_distinct [of "[]" m] by (simp add: gm_wf_def)

lemma jall_map: "(\<And>x. x \<in> set xs \<Longrightarrow> f (g x) = Some (h x)) \<Longrightarrow> jall f (map g xs) = Some (map h xs)"
  by (induction xs) simp_all

lemma jsmap_strings: "gm_wf m \<Longrightarrow> jsmap (map (\<lambda>(k, v). (k, JStr v)) m) = Some m"
proof -
  assume "gm_wf m"
  moreover have "jall (\<lambda>(k, v). map_option (Pair k) (jstr v)) (map (\<lambda>(k, v). (k, JStr v)) m) = Some (map id m)"
    by (rule jall_map) (auto simp: jstr_def)
  ultimately show ?thesis by (simp add: jsmap_def fold_put)
qed

lemma find_append: "find P (xs @ ys) = (case find P xs of None \<Rightarrow> find P ys | Some x \<Rightarrow> Some x)"
  by (induction xs) simp_all

lemma jfield_append: "jfield k (a @ b) = (case jfield k b of None \<Rightarrow> jfield k a | Some v \<Rightarrow> Some v)"
  by (simp add: jfield_def find_append split: option.split)

lemma jfield_simps [simp]: "jfield k [] = None" "jfield k ((n, v) # ms) = (case jfield k ms of None \<Rightarrow> if toLower n = toLower k then Some v else None | Some w \<Rightarrow> Some w)"
  by (simp_all add: jfield_def find_append split: option.split)

lemma staged_names:
  "toLower ''volumeId'' = ''volumeid''" "toLower ''loopDev'' = ''loopdev''" "toLower ''imagePath'' = ''imagepath''"
  "toLower ''stagePath'' = ''stagepath''" "toLower ''cryptDev'' = ''cryptdev''" "toLower ''stageContext'' = ''stagecontext''"
  "toLower ''mountFlags'' = ''mountflags''"
  by (simp_all add: toLower_def lowerc_def less_eq_char_def golib)

lemma jstaged_stagedJson:
  assumes "ctx_wf m"
  shows "jstaged (stagedJson m) = Some (normStaged m)"
proof -
  have fl: "jall jstr (map JStr fs) = Some fs" for fs
    using jall_map [of fs jstr JStr id] by (simp add: jstr_def)
  have ctx: "jsmap (map (\<lambda>(k, v). (k, JStr v)) (sortKeys (kv # kvs))) = Some (sortKeys (kv # kvs))" if "StageContext m = Some (kv # kvs)" for kv kvs
    using assms that sortKeys_props(2) by (intro jsmap_strings) (simp add: ctx_wf_def)
  consider "StageContext m = None \<or> StageContext m = Some []" | kv kvs where "StageContext m = Some (kv # kvs)"
    by (metis neq_Nil_conv not_Some_eq)
  then show ?thesis
  proof cases
    case 1
    then have "normStaged m = m\<lparr>StageContext := None\<rparr>"
        "stagedJson m = JObj ([(''volumeId'', JStr (sVolumeID m)), (''loopDev'', JStr (LoopDev m)), (''imagePath'', JStr (sImagePath m)),
          (''stagePath'', JStr (StagePath m))] @ (if CryptDev m \<noteq> [] then [(''cryptDev'', JStr (CryptDev m))] else [])
          @ (if MountFlags m \<noteq> [] then [(''mountFlags'', JArr (map JStr (MountFlags m)))] else []))"
      by (auto simp: normStaged_def stagedJson_def)
    then show ?thesis
      by (cases "CryptDev m = []"; cases "MountFlags m = []")
        (simp_all add: jstaged_def jstr_field_def jlist_field_def staged_names fl)
  next
    case 2
    show ?thesis
      using ctx [OF 2] 2
      by (cases "CryptDev m = []"; cases "MountFlags m = []")
        (simp_all add: normStaged_def stagedJson_def jstaged_def jstr_field_def jlist_field_def staged_names fl)
  qed
qed

lemma wfj_staged: "wfj (stagedJson m)"
  by (auto simp: stagedJson_def list_all_iff split: option.splits list.splits)

text \<open>
  JSON text is UTF-8: what comes back unchanged are the entries all of whose strings are. (Requests
  arrive as protocol buffers, whose strings are UTF-8; paths and devices are made from them
  and from the tools' output.)
\<close>

definition staged_utf8 :: "staged \<Rightarrow> bool" where
  "staged_utf8 m \<longleftrightarrow> list_all validUTF8 [sVolumeID m, LoopDev m, sImagePath m, StagePath m, CryptDev m]
     \<and> list_all validUTF8 (MountFlags m)
     \<and> (case StageContext m of None \<Rightarrow> True | Some c \<Rightarrow> list_all (\<lambda>(k, v). validUTF8 k \<and> validUTF8 v) c)"

definition table_ok :: "(string, staged) gomap \<Rightarrow> bool" where
  "table_ok d \<longleftrightarrow> gm_wf d \<and> (\<forall>(k, m) \<in> set d. validUTF8 k \<and> staged_utf8 m \<and> ctx_wf m)"

lemma table_ok_get: "table_ok d \<Longrightarrow> gm_get d k = Some m \<Longrightarrow> staged_utf8 m \<and> ctx_wf m"
  by (auto simp: table_ok_def dest: map_of_SomeD)

lemma names_utf8:
  "validUTF8 ''volumeId''" "validUTF8 ''loopDev''" "validUTF8 ''imagePath''" "validUTF8 ''stagePath''" "validUTF8 ''cryptDev''"
  "validUTF8 ''stageContext''" "validUTF8 ''mountFlags''"
  by simp_all

lemma jutf8_staged:
  assumes "staged_utf8 m"
  shows "jutf8 (stagedJson m)"
proof -
  have "jutf8 (JObj (map (\<lambda>(k, v). (k, JStr v)) (sortKeys c)))" if "StageContext m = Some c" for c
    using assms that sortKeys_props(1) [of c] by (auto simp: staged_utf8_def list_all_iff)
  then show ?thesis
    using assms unfolding stagedJson_def
    by (auto simp: staged_utf8_def names_utf8 list_all_iff split: option.splits list.splits)
qed

lemma map_of_map_snd: "map_of (map (\<lambda>(k, v). (k, f v)) m) k = map_option f (map_of m k)"
  by (induction m) auto

lemma parseState_stateText:
  assumes ok: "table_ok d"
  shows "\<exists>d'. parseState (stateText d) = Some d' \<and> gm_wf d' \<and> (\<forall>k. gm_get d' k = map_option normStaged (gm_get d k))"
proof -
  let ?sd = "sortKeys d" and ?d' = "map (\<lambda>(k, m). (k, normStaged m)) (sortKeys d)"
  have assms: "gm_wf d" "\<forall>(k, m) \<in> set d. ctx_wf m" and u: "\<forall>(k, m) \<in> set d. validUTF8 k \<and> staged_utf8 m"
    using ok by (auto simp: table_ok_def)
  have "json_parse (stateText d) = Some (JObj (map (\<lambda>(k, m). (k, stagedJson m)) ?sd))"
    unfolding stateText_def json_indent_def
    using u by (intro json_parse_utf8) (auto simp: list_all_iff wfj_staged jutf8_staged sortKeys_props)
  moreover have "jall (\<lambda>(k, v). map_option (Pair k) (jstaged v)) (map (\<lambda>(k, m). (k, stagedJson m)) ?sd) = Some ?d'"
    using assms(2) by (intro jall_map) (auto simp: sortKeys_props jstaged_stagedJson)
  moreover have "gm_wf ?d'"
    using sortKeys_props(2) [OF assms(1)] by (simp add: gm_wf_def comp_def case_prod_beta)
  ultimately have "parseState (stateText d) = Some ?d' \<and> gm_wf ?d'"
    by (simp add: parseState_def fold_put)
  then show ?thesis
    using gm_get_sortKeys [OF assms(1)] by (simp add: map_of_map_snd)
qed

text \<open>The entry that comes back differs from the one written in the order of its context only.\<close>

lemma normStaged_same:
  "sVolumeID (normStaged m) = sVolumeID m" "LoopDev (normStaged m) = LoopDev m" "sImagePath (normStaged m) = sImagePath m"
  "StagePath (normStaged m) = StagePath m" "CryptDev (normStaged m) = CryptDev m" "MountFlags (normStaged m) = MountFlags m"
  "StageContext m = Some c \<Longrightarrow> c \<noteq> [] \<Longrightarrow> gm_wf c \<Longrightarrow> \<exists>c'. StageContext (normStaged m) = Some c' \<and> (\<forall>k. gm_get c' k = gm_get c k)"
  by (auto simp: normStaged_def gm_get_sortKeys split: list.splits)

section \<open>The file\<close>

text \<open>
  What the file system promises: opening for writing empties the one file, writing appends to it,
  locking, syncing and closing change no contents, renaming replaces the target as a whole or
  does nothing, reading gives the contents and says that a file does not exist only when it
  does not.
\<close>

definition disk_law :: "'w host \<Rightarrow> ('w \<Rightarrow> string \<Rightarrow> string option) \<Rightarrow> bool" where
  "disk_law E disk \<longleftrightarrow>
     (\<forall>p w. \<exists>x. disk (snd (h_openTrunc E p w)) = (disk w)(p := x) \<and> (fst (h_openTrunc E p w) = Inr () \<longrightarrow> x = Some []))
   \<and> (\<forall>p b w. \<exists>x. disk (snd (h_write E p b w)) = (disk w)(p := x) \<and> (fst (h_write E p b w) = Inr () \<longrightarrow> x = map_option (\<lambda>t. t @ b) (disk w p)))
   \<and> (\<forall>p w. disk (snd (h_flock E p w)) = disk w) \<and> (\<forall>p w. disk (snd (h_sync E p w)) = disk w) \<and> (\<forall>p w. disk (snd (h_close E p w)) = disk w)
   \<and> (\<forall>p q w. disk (snd (h_rename E p q w)) = (if fst (h_rename E p q w) = Inr () then (disk w)(q := disk w p, p := None) else disk w))
   \<and> (\<forall>p w. disk (snd (h_mkdirAll E p w)) = disk w)
   \<and> (\<forall>p w. disk (snd (h_readFile E p w)) = disk w \<and> (\<forall>b. fst (h_readFile E p w) = Inr b \<longrightarrow> disk w p = Some b)
        \<and> (\<forall>e. fst (h_readFile E p w) = Inl e \<and> error_is e ErrNotExist \<longrightarrow> disk w p = None))"

lemma disk_lawD:
  assumes "disk_law E disk"
  shows "\<exists>x. disk (snd (h_openTrunc E p w)) = (disk w)(p := x) \<and> (fst (h_openTrunc E p w) = Inr () \<longrightarrow> x = Some [])"
    "\<exists>x. disk (snd (h_write E p b w)) = (disk w)(p := x) \<and> (fst (h_write E p b w) = Inr () \<longrightarrow> x = map_option (\<lambda>t. t @ b) (disk w p))"
    "disk (snd (h_flock E p w)) = disk w" "disk (snd (h_sync E p w)) = disk w" "disk (snd (h_close E p w)) = disk w"
    "disk (snd (h_rename E p q w)) = (if fst (h_rename E p q w) = Inr () then (disk w)(q := disk w p, p := None) else disk w)"
    "disk (snd (h_mkdirAll E p w)) = disk w" "disk (snd (h_readFile E p w)) = disk w"
    "fst (h_readFile E p w) = Inr b \<Longrightarrow> disk w p = Some b"
    "fst (h_readFile E p w) = Inl e \<Longrightarrow> error_is e ErrNotExist \<Longrightarrow> disk w p = None"
  using assms unfolding disk_law_def by (blast+)

lemma flush_disk:
  assumes law: "disk_law E disk" and run: "run_state (flushLocked E path) s = (r, s')"
  shows "disk (world s') path = (if r = Inr () then Some (stateText (lstate s)) else disk (world s) path) \<and> lstate s' = lstate s"
proof -
  let ?t = "path @ ''.tmp''" and ?w = "world s" and ?b = "stateText (lstate s)"
  define w1 where "w1 = snd (h_openTrunc E ?t ?w)"
  define w2 where "w2 = snd (h_flock E ?t w1)"
  define w3 where "w3 = snd (h_write E ?t ?b w2)"
  define w4 where "w4 = snd (h_sync E ?t w3)"
  define w5 where "w5 = snd (h_close E ?t w4)"
  obtain x where x: "disk w1 = (disk ?w)(?t := x)" "fst (h_openTrunc E ?t ?w) = Inr () \<longrightarrow> x = Some []"
    using disk_lawD(1) [OF law, of ?t ?w] unfolding w1_def by blast
  obtain y where y: "disk w3 = (disk w2)(?t := y)" "fst (h_write E ?t ?b w2) = Inr () \<longrightarrow> y = map_option (\<lambda>u. u @ ?b) (disk w2 ?t)"
    using disk_lawD(2) [OF law, of ?t ?b w2] unfolding w3_def by blast
  note same = disk_lawD(3-5) [OF law]
  have d2: "disk w2 = (disk ?w)(?t := x)" and d5: "disk w5 = (disk ?w)(?t := y)" and "disk w4 = (disk ?w)(?t := y)"
    using x y(1) same by (simp_all add: w2_def w4_def w5_def)
  then show ?thesis
    using run x y disk_lawD(6) [OF law, of ?t path w5]
    by (auto simp: flushLocked_def run_onErr run_onFail run_sysc run_ignore Let_def same
        simp flip: w1_def w2_def w3_def w4_def w5_def split: sum.splits)
qed

section \<open>Across a restart\<close>

text \<open>Reading the file fails in one way only, given that its text parses: the disk fails.\<close>

definition readable :: "'w host \<Rightarrow> string \<Rightarrow> 'w \<Rightarrow> bool" where
  "readable E path w \<longleftrightarrow> fst (h_mkdirAll E (dir path) w) = Inr () \<and> \<not> isl (fst (h_readFile E path (snd (h_mkdirAll E (dir path) w))))"

lemma LoadState_text:
  assumes law: "disk_law E disk" and d: "disk (world t) path = Some b" "b \<noteq> []" "parseState b = Some tab"
    and run: "run_state (LoadState E path) t = (r, t')"
  shows "(r = Inr () \<longleftrightarrow> readable E path (world t)) \<and> (r = Inr () \<longrightarrow> lstate t' = tab)"
proof -
  define w1 where "w1 = snd (h_mkdirAll E (dir path) (world t))"
  have "disk w1 path = Some b" using d(1) disk_lawD(7) [OF law] by (simp add: w1_def)
  then have "fst (h_readFile E path w1) = Inr c \<Longrightarrow> c = b" "fst (h_readFile E path w1) = Inl e \<Longrightarrow> \<not> error_is e ErrNotExist" for c e
    using disk_lawD(9,10) [OF law, of path w1] by auto
  then show ?thesis
    using run d(2,3) by (auto simp: LoadState_def readable_def run_onErr run_sysc simp flip: w1_def split: sum.splits option.splits if_splits)
qed

text \<open>What is loaded is a map, and clearing it of stale entries keeps entries filed under their volumes.\<close>

definition filed :: "(string, staged) gomap \<Rightarrow> bool" where
  "filed d \<longleftrightarrow> (\<forall>k m. gm_get d k = Some m \<longrightarrow> sVolumeID m = k)"

lemma fold_put_wf: "gm_wf acc \<Longrightarrow> gm_wf (fold (\<lambda>(k, v). gm_put k v) kvs acc)"
  by (induction kvs arbitrary: acc) auto

lemma parseState_wf: "parseState b = Some d \<Longrightarrow> gm_wf d"
  by (auto simp: parseState_def gm_wf_def intro!: fold_put_wf [unfolded gm_wf_def] split: option.splits json.splits)

lemma LoadState_wf: "run_state (LoadState E path) t = (Inr (), t') \<Longrightarrow> gm_wf (lstate t')"
  by (auto simp: LoadState_def run_onErr run_sysc gm_wf_def split: sum.splits option.splits if_splits
      dest: parseState_wf [unfolded gm_wf_def])

lemma LoadState_inv: "run_state (LoadState E path) t = (Inr (), t') \<Longrightarrow> lstate_inv t' \<longleftrightarrow> filed (lstate t')"
  using LoadState_wf [of E path t t'] by (auto simp: lstate_inv_def filed_def)

lemma stateText_filed: "table_ok (lstate s) \<Longrightarrow> lstate_inv s \<Longrightarrow> \<exists>d. parseState (stateText (lstate s)) = Some d \<and> filed d"
  using parseState_stateText [of "lstate s"] by (auto simp: filed_def lstate_inv_def normStaged_same)

lemma keeps_Reconcile: "keeps lstate_inv (Reconcile E R)"
proof -
  have st: "stable lstate_inv" unfolding lstate_inv_def by (rule stable_lstate)
  show ?thesis
    unfolding Reconcile_def dropStale_def closeOrphans_def detachOrphans_def stateAll_def Let_def
    by (intro kept keeps_lstate_inv st)
qed
text \<open>
  C16: The table of staged volumes survives a restart. After a successful flush of a table of UTF-8
  strings, a LoadState that finds the file as it was left succeeds exactly when the directory and
  the file can be accessed (its text always parses), and then it has the same entries: every
  field equal, and the stage context the same map (its members now in the order of their keys).
\<close>

theorem state_survives_restart:
  assumes law: "disk_law E disk" and ok: "table_ok (lstate s)"
    and flush: "run_state (flushLocked E path) s = (Inr (), s')"
    and load: "disk (world t) path = disk (world s') path" "run_state (LoadState E path) t = (r, t')"
  shows "(r = Inr () \<longleftrightarrow> readable E path (world t))
       \<and> (r = Inr () \<longrightarrow> (\<forall>k. gm_get (lstate t') k = map_option normStaged (gm_get (lstate s) k)))"
proof -
  have d: "disk (world t) path = Some (stateText (lstate s))" using flush_disk [OF law flush] load(1) by simp
  have "stateText (lstate s) \<noteq> []" by (simp add: stateText_def json_indent_def)
  with parseState_stateText [OF ok] LoadState_text [OF law d _ _ load(2)] show ?thesis by auto
qed

text \<open>
  C15: Writing the state file is atomic. Whichever call fails, the file then holds what it held
  before, and it holds the text of the whole table exactly when the flush reports success; so
  Put and Delete that report an error have not touched the file.
\<close>

theorem flush_atomic:
  assumes "disk_law E disk" "run_state (flushLocked E path) s = (r, s')"
  shows "disk (world s') path = (if r = Inr () then Some (stateText (lstate s)) else disk (world s) path)"
  using flush_disk [OF assms] by simp

end
