(* ===== verification/Sim_Disk.thy ===== *)
theory Sim_Disk
  imports State_File
begin

text \<open>
  A machine with the contents of files: writes are appended, a rename moves the text, and every
  call to the API server is answered with success and the same policy binding.
\<close>

type_synonym dsim = "string \<Rightarrow> string option"

definition policyText :: string where
  "policyText = json_print (JObj [(''spec'', JObj [(''validationActions'', JArr [JStr ''Deny''])])])"

definition diskHost :: "dsim host" where
  "diskHost = \<lparr>
     h_pipe = (\<lambda>w. (Inl (Msg ''pipe''), w)),
     h_closeFd = (\<lambda>fd w. ((), w)),
     h_writeFd = (\<lambda>fd b w. ((), w)),
     h_start = (\<lambda>c ex w. (Inr (), w)),
     h_wait = (\<lambda>c w. (([], None), w)),
     h_stat = (\<lambda>p w. (Inl (Sentinel ErrNotExist), w)),
     h_mkdirAll = (\<lambda>p w. (Inr (), w)),
     h_remove = (\<lambda>p w. (Inr (), w(p := None))),
     h_readDir = (\<lambda>p w. (Inr [], w)),
     h_readFile = (\<lambda>p w. (case w p of Some b \<Rightarrow> Inr b | None \<Rightarrow> Inl (Sentinel ErrNotExist), w)),
     h_open = (\<lambda>p w. (Inr (), w)),
     h_openRW = (\<lambda>p w. (Inr (), w)),
     h_openTrunc = (\<lambda>p w. (Inr (), w(p := Some []))),
     h_ftruncate = (\<lambda>p n w. (Inr (), w)),
     h_read = (\<lambda>p off n w. (([], Some (Sentinel EOF)), w)),
     h_readAt = (\<lambda>p off n w. (([], Some (Sentinel EOF)), w)),
     h_flock = (\<lambda>p w. (Inr (), w)),
     h_write = (\<lambda>p b w. (Inr (), w(p := map_option (\<lambda>t. t @ b) (w p)))),
     h_sync = (\<lambda>p w. (Inr (), w)),
     h_close = (\<lambda>p w. (Inr (), w)),
     h_rename = (\<lambda>p q w. (Inr (), w(q := w p, p := None))),
     h_globDm = (\<lambda>p w. (Inr [], w)),
     h_statfs = (\<lambda>p w. (Inr \<lparr>st_bsize = 4096, st_blocks = 0, st_bavail = 0, st_files = 0, st_ffree = 0\<rparr>, w)),
     h_pagesize = 4096,
     h_now = (\<lambda>w. (0, w)),
     h_answers = (\<lambda>p w. (True, w)),
     h_ready = (\<lambda>p w. (True, w)),
     h_http = (\<lambda>rq w. (Inr (200, policyText), w))\<rparr>"

lemma disk_disk_law: "disk_law diskHost (\<lambda>w. w)"
  by (auto simp: disk_law_def diskHost_def split: option.splits)

end
