(* ===== verification/Go_Net.thy ===== *)
theory Go_Net
  imports Json
begin

text \<open>
  The parts of Go's standard library the Kubernetes client uses beyond strings and JSON:
  escaping in URLs (\<^verbatim>\<open>net/url\<close>), RFC 3339 times (\<^verbatim>\<open>time\<close>; a time is its distance from the Unix
  epoch in nanoseconds), the texts of HTTP status codes (\<^verbatim>\<open>net/http\<close>), and the first step of
  \<^verbatim>\<open>url.Parse\<close>.
\<close>

section \<open>net/url\<close>

definition alnum :: "char \<Rightarrow> bool" where
  "alnum c \<longleftrightarrow> (let n = of_char c :: nat in 48 \<le> n \<and> n < 58 \<or> 65 \<le> n \<and> n < 91 \<or> 97 \<le> n \<and> n < 123)"

definition unreserved :: "char \<Rightarrow> bool" where
  "unreserved c \<longleftrightarrow> alnum c \<or> c \<in> set ''-_.~''"

definition upperHex :: "nat \<Rightarrow> char" where
  "upperHex n = (if n < 10 then char_of (48 + n) else char_of (55 + n))"

definition percent :: "char \<Rightarrow> string" where
  "percent c = [CHR ''%'', upperHex (of_char c div 16), upperHex (of_char c mod 16)]"

definition pathChar :: "char \<Rightarrow> bool" where
  "pathChar c \<longleftrightarrow> unreserved c \<or> c \<in> set ''$&+=:@''"

text \<open>\<^verbatim>\<open>url.PathEscape\<close> and \<^verbatim>\<open>url.QueryEscape\<close>.\<close>

definition pathEscape :: "string \<Rightarrow> string" where
  "pathEscape s = concat (map (\<lambda>c. if pathChar c then [c] else percent c) s)"

definition queryEscape :: "string \<Rightarrow> string" where
  "queryEscape s = concat (map (\<lambda>c. if unreserved c then [c] else if c = CHR '' '' then ''+'' else percent c) s)"

text \<open>\<^verbatim>\<open>url.PathUnescape\<close>.\<close>

fun pathUnescape :: "string \<Rightarrow> string option" where
  "pathUnescape [] = Some []"
| "pathUnescape (c # s) =
     (if c = CHR ''%'' then
        (case s of a # b # t \<Rightarrow> (case (hexdigit a, hexdigit b) of
             (Some x, Some y) \<Rightarrow> map_option (Cons (char_of (16 * x + y))) (pathUnescape t) | _ \<Rightarrow> None)
         | _ \<Rightarrow> None)
      else map_option (Cons c) (pathUnescape s))"

lemma of_char_less: "(of_char c :: nat) < 256"
  by (simp add: of_char_def)

lemma hexdigit_upperHex: "n < 16 \<Longrightarrow> hexdigit (upperHex n) = Some n"
  by (auto simp: hexdigit_def upperHex_def Let_def)

lemma percent_hex: "of_char c div 16 < (16 :: nat)" "of_char c mod 16 < (16 :: nat)"
  using of_char_less [of c] by (simp_all add: less_mult_imp_div_less)

lemma pathUnescape_percent: "pathUnescape (percent c @ s) = map_option (Cons c) (pathUnescape s)"
  using percent_hex [of c] by (simp add: percent_def hexdigit_upperHex)

text \<open>An escaped segment is one segment, and the server reads the name that was meant.\<close>

lemma pathUnescape_pathEscape: "pathUnescape (pathEscape s) = Some s"
proof (induction s)
  case (Cons c s)
  show ?case
  proof (cases "pathChar c")
    case True
    then have "c \<noteq> CHR ''%''" by (auto simp: pathChar_def unreserved_def alnum_def Let_def)
    with True Cons show ?thesis by (simp add: pathEscape_def)
  next
    case False
    then have "pathEscape (c # s) = percent c @ pathEscape s" by (simp add: pathEscape_def)
    then show ?thesis using Cons by (simp add: pathUnescape_percent)
  qed
qed (simp add: pathEscape_def)

lemma pathEscape_inj: "pathEscape a = pathEscape b \<Longrightarrow> a = b"
  by (metis option.inject pathUnescape_pathEscape)

lemma upperHex_alnum: "n < 16 \<Longrightarrow> alnum (upperHex n)"
  by (auto simp: upperHex_def alnum_def Let_def)

lemma percent_chars: "x \<in> set (percent c) \<Longrightarrow> alnum x \<or> x = CHR ''%''"
  using percent_hex [of c] by (auto simp: percent_def upperHex_alnum)

lemma pathEscape_chars: "x \<in> set (pathEscape s) \<Longrightarrow> pathChar x \<or> alnum x \<or> x = CHR ''%''"
proof (induction s)
  case (Cons c s)
  then have "x \<in> set (if pathChar c then [c] else percent c) \<or> x \<in> set (pathEscape s)"
    by (simp add: pathEscape_def)
  then show ?case
    using Cons.IH percent_chars [of x c] by (auto split: if_splits)
qed (simp add: pathEscape_def)

lemma pathEscape_no_slash: "CHR ''/'' \<notin> set (pathEscape s)" "CHR ''?'' \<notin> set (pathEscape s)"
proof -
  have "\<not> (pathChar x \<or> alnum x \<or> x = CHR ''%'')" if "x \<in> {CHR ''/'', CHR ''?''}" for x
    using that by (auto simp: pathChar_def unreserved_def alnum_def Let_def)
  then show "CHR ''/'' \<notin> set (pathEscape s)" "CHR ''?'' \<notin> set (pathEscape s)"
    using pathEscape_chars by blast+
qed

section \<open>time\<close>

definition daysFromCivil :: "int \<Rightarrow> int \<Rightarrow> int \<Rightarrow> int" where
  "daysFromCivil y m d =
     (let y' = (if m \<le> 2 then y - 1 else y); yoe = y' mod 400;
          doy = (153 * ((m + 9) mod 12) + 2) div 5 + d - 1
      in y' div 400 * 146097 + yoe * 365 + yoe div 4 - yoe div 100 + doy - 719468)"

definition civilFromDays :: "int \<Rightarrow> int \<times> int \<times> int" where
  "civilFromDays days =
     (let z = days + 719468; doe = z mod 146097;
          yoe = (doe - doe div 1460 + doe div 36524 - doe div 146096) div 365;
          doy = doe - (365 * yoe + yoe div 4 - yoe div 100);
          mp = (5 * doy + 2) div 153;
          m = (if mp < 10 then mp + 3 else mp - 9)
      in (yoe + z div 146097 * 400 + (if m \<le> 2 then 1 else 0), m, doy - (153 * mp + 2) div 5 + 1))"

definition pad :: "nat \<Rightarrow> int \<Rightarrow> string" where
  "pad k n = (let s = itoa (nat n) in replicate (k - length s) (CHR ''0'') @ s)"

definition nsPerSecond :: int where
  "nsPerSecond = 1000000000"

text \<open>\<^verbatim>\<open>t.UTC().Format(time.RFC3339)\<close>\<close>

definition formatTime :: "int \<Rightarrow> string" where
  "formatTime t =
     (let secs = t div nsPerSecond; sod = secs mod 86400; (y, m, d) = civilFromDays (secs div 86400)
      in pad 4 y @ ''-'' @ pad 2 m @ ''-'' @ pad 2 d @ ''T'' @ pad 2 (sod div 3600) @ '':'' @ pad 2 (sod div 60 mod 60)
         @ '':'' @ pad 2 (sod mod 60) @ ''Z'')"

definition num :: "string \<Rightarrow> int \<Rightarrow> int \<Rightarrow> int option" where
  "num s lo hi = (case digits_val 0 s of Some n \<Rightarrow> if lo \<le> n \<and> n \<le> hi then Some n else None | None \<Rightarrow> None)"

definition daysIn :: "int \<Rightarrow> int \<Rightarrow> int" where
  "daysIn y m = (if m = 2 then (if y mod 4 = 0 \<and> (y mod 100 \<noteq> 0 \<or> y mod 400 = 0) then 29 else 28)
     else if m \<in> {4, 6, 9, 11} then 30 else 31)"

text \<open>The zone at the end, as an offset in seconds.\<close>

definition parseZone :: "string \<Rightarrow> int option" where
  "parseZone s = (case s of
       [c] \<Rightarrow> if c = CHR ''Z'' then Some 0 else None
     | [sg, h1, h2, c, m1, m2] \<Rightarrow>
         if sg \<in> set ''+-'' \<and> c = CHR '':'' then
           Option.bind (num [h1, h2] 0 23) (\<lambda>h. map_option (\<lambda>m. (if sg = CHR ''-'' then -1 else 1) * (h * 3600 + m * 60))
             (num [m1, m2] 0 59))
         else None
     | _ \<Rightarrow> None)"

definition parseFrac :: "string \<Rightarrow> (int \<times> string) option" where
  "parseFrac s = (case s of
       c # t \<Rightarrow> if c = CHR ''.'' then
           (let d = takeWhile isDigit t in if d = [] then None
            else map_option (\<lambda>n. (n, dropWhile isDigit t)) (digits_val 0 (take 9 (d @ ''00000000''))))
         else Some (0, s)
     | [] \<Rightarrow> Some (0, s))"

text \<open>A time in a JSON document: \<^verbatim>\<open>2006-01-02T15:04:05\<close>, a fraction, a zone.\<close>

definition parseTime :: "string \<Rightarrow> int option" where
  "parseTime s = (case s of
       y1 # y2 # y3 # y4 # c1 # o1 # o2 # c2 # d1 # d2 # c3 # h1 # h2 # c4 # m1 # m2 # c5 # s1 # s2 # rest \<Rightarrow>
         if [c1, c2, c3, c4, c5] \<noteq> ''--T::'' then None
         else Option.bind (num [y1, y2, y3, y4] 0 9999) (\<lambda>y. Option.bind (num [o1, o2] 1 12) (\<lambda>mo.
              Option.bind (num [d1, d2] 1 (daysIn y mo)) (\<lambda>d. Option.bind (num [h1, h2] 0 23) (\<lambda>h.
              Option.bind (num [m1, m2] 0 59) (\<lambda>mi. Option.bind (num [s1, s2] 0 59) (\<lambda>se.
              Option.bind (parseFrac rest) (\<lambda>(ns, zone). map_option (\<lambda>off.
                (daysFromCivil y mo d * 86400 + h * 3600 + mi * 60 + se - off) * nsPerSecond + ns) (parseZone zone))))))))
     | _ \<Rightarrow> None)"

section \<open>net/http\<close>

definition statusText :: "int \<Rightarrow> string" where
  "statusText c = (case map_of [(300, ''Multiple Choices''), (301, ''Moved Permanently''), (302, ''Found''), (303, ''See Other''),
     (304, ''Not Modified''), (305, ''Use Proxy''), (307, ''Temporary Redirect''), (308, ''Permanent Redirect''),
     (400, ''Bad Request''), (401, ''Unauthorized''), (402, ''Payment Required''), (403, ''Forbidden''), (404, ''Not Found''),
     (405, ''Method Not Allowed''), (406, ''Not Acceptable''), (407, ''Proxy Authentication Required''), (408, ''Request Timeout''),
     (409, ''Conflict''), (410, ''Gone''), (411, ''Length Required''), (412, ''Precondition Failed''),
     (413, ''Request Entity Too Large''), (414, ''Request URI Too Long''), (415, ''Unsupported Media Type''),
     (416, ''Requested Range Not Satisfiable''), (417, ''Expectation Failed''), (418, ''I'' @ [CHR 0x27] @ ''m a teapot''),
     (421, ''Misdirected Request''), (422, ''Unprocessable Entity''), (423, ''Locked''), (424, ''Failed Dependency''),
     (425, ''Too Early''), (426, ''Upgrade Required''), (428, ''Precondition Required''), (429, ''Too Many Requests''),
     (431, ''Request Header Fields Too Large''), (451, ''Unavailable For Legal Reasons''), (500, ''Internal Server Error''),
     (501, ''Not Implemented''), (502, ''Bad Gateway''), (503, ''Service Unavailable''), (504, ''Gateway Timeout''),
     (505, ''HTTP Version Not Supported''), (506, ''Variant Also Negotiates''), (507, ''Insufficient Storage''),
     (508, ''Loop Detected''), (510, ''Not Extended''), (511, ''Network Authentication Required'')] c of
       Some t \<Rightarrow> t | None \<Rightarrow> [])"

text \<open>\<^verbatim>\<open>net.JoinHostPort\<close>\<close>

definition joinHostPort :: "string \<Rightarrow> string \<Rightarrow> string" where
  "joinHostPort host port =
     (if CHR '':'' \<in> set host then ''['' @ host @ '']:'' @ port else host @ '':'' @ port)"

end
