(* ===== verification/Kube.thy ===== *)
theory Kube
  imports Loop Go_Net Json_Roundtrip
begin

text \<open>
  \<^verbatim>\<open>pkg/kube\<close>: the four Kubernetes API calls of the node plugin (\<^verbatim>\<open>client.go\<close>) and the part of a pod
  they read (\<^verbatim>\<open>types.go\<close>). The API server is the field \<open>h_http\<close> of the host: it takes a request
  and gives the status and body of the answer, or the error of building or sending it. Requests
  sent are recorded in the field \<open>requests\<close> of the state. An object with a repeated member is
  read from the last one.
\<close>

section \<open>Types\<close>

record ownerReference =
  APIVersion :: string
  oKind :: string
  oName :: string
  oController :: "bool option"

record pod =
  pName :: string
  pNamespace :: string
  pUID :: string
  DeletionTimestamp :: "int option"
  OwnerReferences :: "ownerReference list"
  NodeName :: string
  StartTime :: "int option"

definition ControllerOwner :: "pod \<Rightarrow> ownerReference option" where
  "ControllerOwner p = find (\<lambda>o'. oController o' = Some True) (OwnerReferences p)"

text \<open>Decoding: a pointer field is nil when absent or null.\<close>

definition jobj_field :: "string \<Rightarrow> (string \<times> json) list \<Rightarrow> (string \<times> json) list option" where
  "jobj_field k ms = (case jfield k ms of None \<Rightarrow> Some [] | Some JNull \<Rightarrow> Some [] | Some (JObj o') \<Rightarrow> Some o' | Some _ \<Rightarrow> None)"

definition jtime_field :: "string \<Rightarrow> (string \<times> json) list \<Rightarrow> int option option" where
  "jtime_field k ms = (case jfield k ms of None \<Rightarrow> Some None | Some JNull \<Rightarrow> Some None
     | Some (JStr t) \<Rightarrow> map_option Some (parseTime t) | Some _ \<Rightarrow> None)"

definition jbool_field :: "string \<Rightarrow> (string \<times> json) list \<Rightarrow> bool option option" where
  "jbool_field k ms = (case jfield k ms of None \<Rightarrow> Some None | Some JNull \<Rightarrow> Some None
     | Some (JBool b) \<Rightarrow> Some (Some b) | Some _ \<Rightarrow> None)"

definition jowner :: "json \<Rightarrow> ownerReference option" where
  "jowner j = (case j of
       JNull \<Rightarrow> Some \<lparr>APIVersion = [], oKind = [], oName = [], oController = None\<rparr>
     | JObj ms \<Rightarrow> Option.bind (jstr_field ''apiVersion'' ms) (\<lambda>a. Option.bind (jstr_field ''kind'' ms) (\<lambda>k.
         Option.bind (jstr_field ''name'' ms) (\<lambda>n. Option.bind (jbool_field ''controller'' ms) (\<lambda>c.
           Some \<lparr>APIVersion = a, oKind = k, oName = n, oController = c\<rparr>))))
     | _ \<Rightarrow> None)"

definition jpod :: "json \<Rightarrow> pod option" where
  "jpod j = Option.bind (case j of JNull \<Rightarrow> Some [] | JObj ms \<Rightarrow> Some ms | _ \<Rightarrow> None) (\<lambda>top.
     Option.bind (jobj_field ''metadata'' top) (\<lambda>md. Option.bind (jobj_field ''spec'' top) (\<lambda>sp.
     Option.bind (jobj_field ''status'' top) (\<lambda>st.
     Option.bind (jstr_field ''name'' md) (\<lambda>n. Option.bind (jstr_field ''namespace'' md) (\<lambda>ns.
     Option.bind (jstr_field ''uid'' md) (\<lambda>u. Option.bind (jtime_field ''deletionTimestamp'' md) (\<lambda>dt.
     Option.bind (jlist_field jowner ''ownerReferences'' md) (\<lambda>os. Option.bind (jstr_field ''nodeName'' sp) (\<lambda>nn.
     Option.bind (jtime_field ''startTime'' st) (\<lambda>t0.
       Some \<lparr>pName = n, pNamespace = ns, pUID = u, DeletionTimestamp = dt, OwnerReferences = os, NodeName = nn, StartTime = t0\<rparr>)))))))))))"

definition jpods :: "string \<Rightarrow> pod list option" where
  "jpods data = (case json_parse data of Some JNull \<Rightarrow> Some [] | Some (JObj ms) \<Rightarrow> jlist_field jpod ''items'' ms | _ \<Rightarrow> None)"

section \<open>The client\<close>

record httpClient =
  kbase :: string
  tokenPath :: string

record 'w kube_st = "'w loop_st" +
  requests :: "http_req list"

definition saDir :: string where
  "saDir = ''/var/run/secrets/kubernetes.io/serviceaccount''"

definition userAgent :: string where
  "userAgent = ''fileblock-node''"

definition NewHTTPClient :: "string \<Rightarrow> string \<Rightarrow> httpClient" where
  "NewHTTPClient baseURL path = \<lparr>kbase = stripSlashes baseURL, tokenPath = path\<rparr>"

text \<open>The environment and the certificate parser are arguments.\<close>

definition InCluster :: "'w host \<Rightarrow> (string \<Rightarrow> string) \<Rightarrow> (string \<Rightarrow> bool) \<Rightarrow> (('w, 'm) sys_scheme, goerr + httpClient) state" where
  "InCluster E getenv appendCertsFromPEM =
     (let host = getenv ''KUBERNETES_SERVICE_HOST''; port = getenv ''KUBERNETES_SERVICE_PORT'' in
      if host = [] \<or> port = [] then ret (Inl (Msg ''not running in a cluster: KUBERNETES_SERVICE_HOST/PORT unset''))
      else onErr (sysc (h_readFile E (saDir @ ''/ca.crt''))) id (\<lambda>ca.
        if \<not> appendCertsFromPEM ca then ret (Inl (Msg ''no certificates in ca.crt''))
        else ret (Inr (NewHTTPClient (''https://'' @ joinHostPort host port) (saDir @ ''/token'')))))"

text \<open>The message of an error answer: the \<^verbatim>\<open>message\<close> of its body, or the text of the status code.\<close>

definition apiMessage :: "int \<Rightarrow> string \<Rightarrow> string" where
  "apiMessage code data =
     (let m = (case json_parse data of
                 Some (JObj ms) \<Rightarrow> (case jstr_field ''message'' ms of Some t \<Rightarrow> t | None \<Rightarrow> [])
               | _ \<Rightarrow> [])
      in if m = [] then statusText code else m)"

definition apiRequest :: "httpClient \<Rightarrow> string \<Rightarrow> string \<Rightarrow> string \<Rightarrow> json option \<Rightarrow> http_req" where
  "apiRequest c tok method path body =
     \<lparr>rq_method = method, rq_url = kbase c @ path,
      rq_headers = [(''Authorization'', ''Bearer '' @ trimSpace tok), (''Accept'', ''application/json''), (''User-Agent'', userAgent)]
        @ (if body \<noteq> None then [(''Content-Type'', ''application/json'')] else []),
      rq_body = map_option json_print body\<rparr>"

definition sendRequest :: "'w host \<Rightarrow> http_req \<Rightarrow> (('w, 'm) kube_st_scheme, goerr + int \<times> string) state" where
  "sendRequest E rq = do { modify (\<lambda>s. s\<lparr>requests := requests s @ [rq]\<rparr>); sysc (h_http E rq) }"

text \<open>\<^verbatim>\<open>do\<close>; a caller that passes an \<^verbatim>\<open>out\<close> decodes the data it returns.\<close>

definition kubeDo :: "'w host \<Rightarrow> httpClient \<Rightarrow> string \<Rightarrow> string \<Rightarrow> json option \<Rightarrow> (('w, 'm) kube_st_scheme, goerr + string) state" where
  "kubeDo E c method path body =
     onErr (sysc (h_readFile E (tokenPath c))) (Wrap ''read service-account token'') (\<lambda>tok.
       onErr (sendRequest E (apiRequest c tok method path body)) id (\<lambda>(code, answer).
         let data = take (4 * 2 ^ 20) answer in
         ret (if 300 \<le> code then Inl (ApiError code (apiMessage code data)) else Inr data)))"

fun isNotFound :: "goerr \<Rightarrow> bool" where
  "isNotFound (ApiError code msg) \<longleftrightarrow> code = 404"
| "isNotFound (Wrap l e) \<longleftrightarrow> isNotFound e"
| "isNotFound (ExecError c as x out (Some e)) \<longleftrightarrow> isNotFound e"
| "isNotFound (Joined e e') \<longleftrightarrow> isNotFound e \<or> isNotFound e'"
| "isNotFound _ \<longleftrightarrow> False"

definition podsPath :: "string \<Rightarrow> string" where
  "podsPath node = ''/api/v1/pods?'' @ queryEscape ''fieldSelector'' @ ''='' @ queryEscape (''spec.nodeName='' @ node)"

definition ListPodsOnNode :: "'w host \<Rightarrow> httpClient \<Rightarrow> string \<Rightarrow> (('w, 'm) kube_st_scheme, goerr + pod list) state" where
  "ListPodsOnNode E c node =
     onErr (kubeDo E c ''GET'' (podsPath node) None) id (\<lambda>data.
       ret (case jpods data of Some ps \<Rightarrow> Inr ps | None \<Rightarrow> Inl (Msg ''json'')))"

definition podPath :: "string \<Rightarrow> string \<Rightarrow> string" where
  "podPath namespace name = ''/api/v1/namespaces/'' @ pathEscape namespace @ ''/pods/'' @ pathEscape name"

definition deleteBody :: "string \<Rightarrow> json" where
  "deleteBody uid = JObj [(''apiVersion'', JStr ''v1''), (''kind'', JStr ''DeleteOptions''),
     (''preconditions'', JObj [(''uid'', JStr uid)])]"

definition DeletePod :: "'w host \<Rightarrow> httpClient \<Rightarrow> string \<Rightarrow> string \<Rightarrow> string \<Rightarrow> (('w, 'm) kube_st_scheme, goerr + unit) state" where
  "DeletePod E c namespace name uid = do {
     r \<leftarrow> kubeDo E c ''DELETE'' (podPath namespace name) (Some (deleteBody uid));
     ret (case r of Inr _ \<Rightarrow> Inr () | Inl e \<Rightarrow> if isNotFound e then Inr () else Inl e)
   }"

text \<open>The event object, members in the order \<^verbatim>\<open>json.Marshal\<close> writes a map.\<close>

definition eventBody :: "pod \<Rightarrow> string \<Rightarrow> string \<Rightarrow> string \<Rightarrow> json" where
  "eventBody p reason message now = JObj [
     (''apiVersion'', JStr ''v1''), (''count'', JNum ''1''), (''firstTimestamp'', JStr now),
     (''involvedObject'', JObj [(''apiVersion'', JStr ''v1''), (''kind'', JStr ''Pod''), (''name'', JStr (pName p)),
        (''namespace'', JStr (pNamespace p)), (''uid'', JStr (pUID p))]),
     (''kind'', JStr ''Event''), (''lastTimestamp'', JStr now), (''message'', JStr message),
     (''metadata'', JObj [(''generateName'', JStr (pName p @ ''.'')), (''namespace'', JStr (pNamespace p))]),
     (''reason'', JStr reason),
     (''source'', JObj [(''component'', JStr ''fileblock-node''), (''host'', JStr (NodeName p))]),
     (''type'', JStr ''Warning'')]"

definition eventsPath :: "string \<Rightarrow> string" where
  "eventsPath namespace = ''/api/v1/namespaces/'' @ pathEscape namespace @ ''/events''"

definition PodEvent :: "'w host \<Rightarrow> httpClient \<Rightarrow> pod \<Rightarrow> string \<Rightarrow> string \<Rightarrow> (('w, 'm) kube_st_scheme, goerr + unit) state" where
  "PodEvent E c p reason message = do {
     now \<leftarrow> sysc (h_now E);
     onErr (kubeDo E c ''POST'' (eventsPath (pNamespace p)) (Some (eventBody p reason message (formatTime now)))) id (\<lambda>_. ret (Inr ()))
   }"

text \<open>The part of a policy binding that is read.\<close>

definition validationActions :: "string \<Rightarrow> string list option" where
  "validationActions data = (case json_parse data of Some JNull \<Rightarrow> Some []
     | Some (JObj ms) \<Rightarrow> Option.bind (jobj_field ''spec'' ms) (jlist_field jstr ''validationActions'')
     | _ \<Rightarrow> None)"

definition policyBase :: string where
  "policyBase = ''/apis/admissionregistration.k8s.io/v1/''"

definition PolicyEnforced :: "'w host \<Rightarrow> httpClient \<Rightarrow> string \<Rightarrow> (('w, 'm) kube_st_scheme, goerr + bool) state" where
  "PolicyEnforced E c name = do {
     r \<leftarrow> kubeDo E c ''GET'' (policyBase @ ''validatingadmissionpolicies/'' @ pathEscape name) None;
     case r of
       Inl e \<Rightarrow> ret (if isNotFound e then Inr False else Inl e)
     | Inr _ \<Rightarrow> do {
         r2 \<leftarrow> kubeDo E c ''GET'' (policyBase @ ''validatingadmissionpolicybindings/'' @ pathEscape name) None;
         ret (case r2 of
                Inl e \<Rightarrow> if isNotFound e then Inr False else Inl e
              | Inr data \<Rightarrow> (case validationActions data of
                    None \<Rightarrow> Inl (Msg ''json'') | Some as \<Rightarrow> Inr (''Deny'' \<in> set as)))
       }
   }"

section \<open>What the calls leave alone\<close>

definition kstable :: "(('w, 'm) kube_st_scheme \<Rightarrow> bool) \<Rightarrow> bool" where
  "kstable I \<longleftrightarrow> stable I \<and> (\<forall>s rs. I s \<longrightarrow> I (s\<lparr>requests := rs\<rparr>))"

lemma kstableD: "kstable I \<Longrightarrow> stable I" "kstable I \<Longrightarrow> I s \<Longrightarrow> I (s\<lparr>requests := rs\<rparr>)"
  by (simp_all add: kstable_def)

lemma kstable_do [kept]: "kstable I \<Longrightarrow> keeps I (kubeDo E c m p b)"
  unfolding kubeDo_def sendRequest_def
  by (intro kept stable_sysc kstableD(1)) (simp_all add: keeps_def kstableD(2))

lemma kstable_kube [kept]:
  assumes "kstable I"
  shows "keeps I (ListPodsOnNode E c n)" "keeps I (DeletePod E c ns n' u)" "keeps I (PodEvent E c q rs msg)" "keeps I (PolicyEnforced E c n)"
  unfolding ListPodsOnNode_def DeletePod_def PodEvent_def PolicyEnforced_def
  by (intro kept stable_sysc kstableD(1) assms)+

section \<open>Requests\<close>

definition newreqs :: "('w, 'm) kube_st_scheme \<Rightarrow> ('w, 'm) kube_st_scheme \<Rightarrow> http_req list" where
  "newreqs s s' = drop (length (requests s)) (requests s')"

text \<open>An answer the server gave to a request in some world.\<close>

definition answered :: "'w host \<Rightarrow> http_req \<Rightarrow> int \<Rightarrow> string \<Rightarrow> bool" where
  "answered E rq code body \<longleftrightarrow> (\<exists>w. fst (h_http E rq w) = Inr (code, body))"

text \<open>
  One call of \<^verbatim>\<open>do\<close>: no request and the error of reading the token, or one request; on success
  the answer was below 300, and an API error carries the status of the answer.
\<close>

lemma kubeDo_request:
  assumes "run_state (kubeDo E c m p b) s = (r, s')"
  shows "(\<exists>e. r = Inl (Wrap ''read service-account token'' e)) \<and> requests s' = requests s
       \<or> (\<exists>tok. requests s' = requests s @ [apiRequest c tok m p b]
          \<and> (\<forall>d. r = Inr d \<longrightarrow> (\<exists>code body. answered E (apiRequest c tok m p b) code body \<and> code < 300 \<and> d = take (4 * 2 ^ 20) body)))"
  using assms
  by (auto simp: kubeDo_def sendRequest_def answered_def run_onErr run_sysc Let_def prod_eq_iff split: sum.splits if_splits) force+

lemma api_sel [simp]: "rq_method (apiRequest c tok m p b) = m" "rq_url (apiRequest c tok m p b) = kbase c @ p"
  "rq_body (apiRequest c tok m p b) = map_option json_print b"
  by (simp_all add: apiRequest_def)

lemma podPath_segments:
  "split (CHR ''/'') (podPath ns name) = [[], ''api'', ''v1'', ''namespaces'', pathEscape ns, ''pods'', pathEscape name]"
  "CHR ''?'' \<notin> set (podPath ns name)"
proof -
  have "podPath ns name = join [CHR ''/''] [[], ''api'', ''v1'', ''namespaces'', pathEscape ns, ''pods'', pathEscape name]"
    by (simp add: podPath_def)
  then show "split (CHR ''/'') (podPath ns name) = [[], ''api'', ''v1'', ''namespaces'', pathEscape ns, ''pods'', pathEscape name]"
    using pathEscape_no_slash(1) by (simp only:) (rule split_join, auto)
  show "CHR ''?'' \<notin> set (podPath ns name)" using pathEscape_no_slash(2) by (simp add: podPath_def)
qed

text \<open>
  C21: Deleting a pod cannot hit another object. A call of DeletePod sends at most one request, a
  DELETE whose path has exactly the segments of a pod, the fifth and seventh of which the server
  reads as the namespace and name given, whatever characters they contain; and the server can
  read the uid from the body, as the precondition of the deletion (in a uid that is not UTF-8,
  which no API server has given out, the bytes that are not are read as U+FFFD).
\<close>

theorem DeletePod_exact:
  assumes "run_state (DeletePod E c ns name uid) s = (r, s')"
  shows "length (newreqs s s') \<le> 1 \<and> (\<forall>rq \<in> set (newreqs s s'). rq_method rq = ''DELETE''
     \<and> (\<exists>p a b. rq_url rq = kbase c @ p \<and> CHR ''?'' \<notin> set p
          \<and> split (CHR ''/'') p = [[], ''api'', ''v1'', ''namespaces'', a, ''pods'', b]
          \<and> pathUnescape a = Some ns \<and> pathUnescape b = Some name)
     \<and> Option.bind (rq_body rq) json_parse = Some (deleteBody (coerceUTF8 uid))
     \<and> (validUTF8 uid \<longrightarrow> Option.bind (rq_body rq) json_parse = Some (deleteBody uid)))"
proof -
  obtain r0 where "run_state (kubeDo E c ''DELETE'' (podPath ns name) (Some (deleteBody uid))) s = (r0, s')"
    using assms by (cases "run_state (kubeDo E c ''DELETE'' (podPath ns name) (Some (deleteBody uid))) s") (simp add: DeletePod_def)
  note q = kubeDo_request [OF this]
  have "json_parse (json_print (deleteBody uid)) = Some (deleteBody (coerceUTF8 uid))"
    unfolding json_print_def by (subst json_parse_write) (simp_all add: deleteBody_def ascii_valid)
  with q show ?thesis
    unfolding newreqs_def using podPath_segments pathUnescape_pathEscape by (elim disjE conjE exE) (simp_all add: api_sel)
qed

text \<open>
  C34: Automatic deletion needs an enforced policy. PolicyEnforced says yes only when the API
  server answered the requests for the policy and then for its binding with success, and
  the binding's actions contain Deny.
\<close>

theorem PolicyEnforced_yes:
  assumes "run_state (PolicyEnforced E c name) s = (Inr True, s')"
  shows "\<exists>q1 q2 code1 body1 code2 body2 as. newreqs s s' = [q1, q2]
     \<and> rq_method q1 = ''GET'' \<and> rq_url q1 = kbase c @ policyBase @ ''validatingadmissionpolicies/'' @ pathEscape name
     \<and> rq_method q2 = ''GET'' \<and> rq_url q2 = kbase c @ policyBase @ ''validatingadmissionpolicybindings/'' @ pathEscape name
     \<and> answered E q1 code1 body1 \<and> code1 < 300 \<and> answered E q2 code2 body2 \<and> code2 < 300
     \<and> validationActions (take (4 * 2 ^ 20) body2) = Some as \<and> ''Deny'' \<in> set as"
proof -
  let ?p1 = "policyBase @ ''validatingadmissionpolicies/'' @ pathEscape name"
    and ?p2 = "policyBase @ ''validatingadmissionpolicybindings/'' @ pathEscape name"
  obtain r1 s1 where 1: "run_state (kubeDo E c ''GET'' ?p1 None) s = (r1, s1)" by fastforce
  obtain r2 s2 where 2: "run_state (kubeDo E c ''GET'' ?p2 None) s1 = (r2, s2)" by fastforce
  obtain d1 d2 as where d: "r1 = Inr d1" "r2 = Inr d2" "s' = s2" "validationActions d2 = Some as" "''Deny'' \<in> set as"
    using assms 1 2 by (auto simp: PolicyEnforced_def split: sum.splits if_splits option.splits)
  obtain t1 code1 body1 where q1: "requests s1 = requests s @ [apiRequest c t1 ''GET'' ?p1 None]"
      "answered E (apiRequest c t1 ''GET'' ?p1 None) code1 body1" "code1 < 300"
    using kubeDo_request [OF 1] d(1) by blast
  obtain t2 code2 body2 where q2: "requests s2 = requests s1 @ [apiRequest c t2 ''GET'' ?p2 None]"
      "answered E (apiRequest c t2 ''GET'' ?p2 None) code2 body2" "code2 < 300" "d2 = take (4 * 2 ^ 20) body2"
    using kubeDo_request [OF 2] d(2) by blast
  show ?thesis
    using q1 q2 d(3-5) unfolding newreqs_def
    by (intro exI [of _ "apiRequest c t1 ''GET'' ?p1 None"] exI [of _ "apiRequest c t2 ''GET'' ?p2 None"]
        exI [of _ code1] exI [of _ body1] exI [of _ code2] exI [of _ body2] exI [of _ as]) (simp add: api_sel)
qed

section \<open>Which requests an operation sends\<close>

definition asks :: "(http_req \<Rightarrow> bool) \<Rightarrow> (('w, 'm) kube_st_scheme, 'a) state \<Rightarrow> bool" where
  "asks P m \<longleftrightarrow> (\<forall>s. \<exists>rs. requests (snd (run_state m s)) = requests s @ rs \<and> list_all P rs)"

lemma asksD: "asks P m \<Longrightarrow> run_state m s = (r, s') \<Longrightarrow> \<exists>rs. requests s' = requests s @ rs \<and> list_all P rs"
  by (auto simp: asks_def dest!: spec [of _ s])

lemma asks_mono: "asks P m \<Longrightarrow> (\<And>r. P r \<Longrightarrow> Q r) \<Longrightarrow> asks Q m"
  unfolding asks_def by (meson list.pred_mono_strong)

lemma asks_pure [asked]: "asks P (ret x)" "asks P (gets f)" "asks P (sysc g)"
  by (simp_all add: asks_def run_sysc)

lemma asks_modify [asked]: "(\<And>s. requests (f s) = requests s) \<Longrightarrow> asks P (modify f)"
  by (simp add: asks_def)

lemma asks_bind [asked]:
  assumes "asks P m" "\<And>x. asks P (f x)"
  shows "asks P (State_Monad.bind m f)"
  unfolding asks_def
proof
  fix s
  obtain x s1 where m: "run_state m s = (x, s1)" by (rule prod.exhaust)
  obtain y s2 where f: "run_state (f x) s1 = (y, s2)" by (rule prod.exhaust)
  show "\<exists>rs. requests (snd (run_state (State_Monad.bind m f) s)) = requests s @ rs \<and> list_all P rs"
    using asksD [OF assms(1) m] asksD [OF assms(2) f] m f by auto
qed

lemma asks_cases [asked]:
  "asks P m \<Longrightarrow> asks P m' \<Longrightarrow> asks P (if b then m else m')"
  "(\<And>e. asks P (f e)) \<Longrightarrow> (\<And>x. asks P (g x)) \<Longrightarrow> asks P (case r of Inl e \<Rightarrow> f e | Inr x \<Rightarrow> g x)"
  "asks P m \<Longrightarrow> (\<And>y. asks P (h y)) \<Longrightarrow> asks P (case ro of None \<Rightarrow> m | Some y \<Rightarrow> h y)"
  "(\<And>u v. asks P (k u v)) \<Longrightarrow> asks P (case rp of (u, v) \<Rightarrow> k u v)"
  "(\<And>t. asks P (j t)) \<Longrightarrow> asks P (let t = e0 in j t)"
  by (simp_all split: sum.split option.split prod.split)

lemma asks_onErr [asked]: "asks P m \<Longrightarrow> (\<And>x. asks P (k x)) \<Longrightarrow> asks P (onErr m h k)"
  unfolding onErr_def by (intro asked)

lemma asks_ignore [asked]: "asks P m \<Longrightarrow> asks P (ignore m)"
  unfolding ignore_def by (intro asked)

lemma asks_forEach [asked]: "(\<And>x. x \<in> set xs \<Longrightarrow> asks P (f x)) \<Longrightarrow> asks P (forEach xs f)"
  by (induction xs) (simp_all add: asked)

lemma asks_kubeDo: "(\<And>tok. P (apiRequest c tok m p b)) \<Longrightarrow> asks P (kubeDo E c m p b)"
  unfolding kubeDo_def sendRequest_def asks_def by (auto simp: run_onErr run_sysc Let_def split: sum.split prod.split)

lemma asks_kube:
  "(\<And>tok. P (apiRequest c tok ''GET'' (podsPath n) None)) \<Longrightarrow> asks P (ListPodsOnNode E c n)"
  "(\<And>tok. P (apiRequest c tok ''DELETE'' (podPath ns name) (Some (deleteBody uid)))) \<Longrightarrow> asks P (DeletePod E c ns name uid)"
  "(\<And>tok t. P (apiRequest c tok ''POST'' (eventsPath (pNamespace q)) (Some (eventBody q rs msg t)))) \<Longrightarrow> asks P (PodEvent E c q rs msg)"
  unfolding ListPodsOnNode_def DeletePod_def PodEvent_def by (intro asked asks_kubeDo; assumption)+

section \<open>The client's interface\<close>

text \<open>
  What the driver relies on of a \<^verbatim>\<open>kube.Client\<close>: listing and events delete nothing, and a deletion
  is of the pod it was asked for.
\<close>

definition deletionOf :: "httpClient \<Rightarrow> pod \<Rightarrow> http_req \<Rightarrow> bool" where
  "deletionOf k p rq \<longleftrightarrow> (\<exists>tok. rq = apiRequest k tok ''DELETE'' (podPath (pNamespace p) (pName p)) (Some (deleteBody (pUID p))))"

locale pod_api =
  fixes listPods :: "string \<Rightarrow> (('w, 'm) kube_st_scheme, goerr + pod list) state"
    and deletePod :: "string \<Rightarrow> string \<Rightarrow> string \<Rightarrow> (('w, 'm) kube_st_scheme, goerr + unit) state"
    and podEvent :: "pod \<Rightarrow> string \<Rightarrow> string \<Rightarrow> (('w, 'm) kube_st_scheme, goerr + unit) state"
    and deletion :: "pod \<Rightarrow> http_req \<Rightarrow> bool"
  assumes list_reads: "asks (\<lambda>rq. rq_method rq \<noteq> ''DELETE'') (listPods n)"
    and event_posts: "asks (\<lambda>rq. rq_method rq \<noteq> ''DELETE'') (podEvent p reason msg)"
    and delete_exact: "asks (deletion p) (deletePod (pNamespace p) (pName p) (pUID p))"
begin

lemma quiet:
  "asks (\<lambda>rq. rq_method rq = ''DELETE'' \<longrightarrow> R rq) (listPods n)"
  "asks (\<lambda>rq. rq_method rq = ''DELETE'' \<longrightarrow> R rq) (podEvent p reason msg)"
  by (rule asks_mono [OF list_reads] asks_mono [OF event_posts], simp)+

lemma deletes_one_of:
  assumes "p \<in> set ps" "Q p"
  shows "asks (\<lambda>rq. rq_method rq = ''DELETE'' \<longrightarrow> (\<exists>p \<in> set ps. Q p \<and> deletion p rq)) (deletePod (pNamespace p) (pName p) (pUID p))"
  by (rule asks_mono [OF delete_exact]) (use assms in blast)

end

interpretation kc: pod_api "ListPodsOnNode E c" "DeletePod E c" "PodEvent E c" "deletionOf c" for E :: "'w host" and c
  by unfold_locales (intro asks_kube; simp add: deletionOf_def; blast)+

end
