(* ===== verification/Encryption.thy ===== *)
theory Encryption
  imports Crypt
begin

text \<open>
  \<^verbatim>\<open>pkg/driver/encryption.go\<close>: the encryption parameters of a StorageClass, their copy in the volume
  context, the keys of the node-stage secret, and the gRPC status of a LUKS failure.
\<close>

section \<open>Parameters\<close>

definition ParamEncrypted :: string where
  "ParamEncrypted = ''encrypted''"

definition minEncryptedCapacity :: int where
  "minEncryptedCapacity = 32 * 2 ^ 20"

definition encryptedFromParams :: "smap \<Rightarrow> goerr + bool" where
  "encryptedFromParams params =
     (let v = sget params ParamEncrypted in
      if v = [] \<or> v = ''false'' then Inr False
      else if v = ''true'' then Inr True
      else Inl (Msg ''encrypted: must be true or false''))"

definition ParamCipher :: string where
  "ParamCipher = ''encryption.cipher''"

definition ParamKeySize :: string where
  "ParamKeySize = ''encryption.keySize''"

text \<open>\<^verbatim>\<open>^[a-z0-9][a-z0-9:,()_-]*$\<close>\<close>

definition lowerAlnum :: "char \<Rightarrow> bool" where
  "lowerAlnum c \<longleftrightarrow> (let n = of_char c :: nat in 97 \<le> n \<and> n < 123 \<or> 48 \<le> n \<and> n < 58)"

definition cipherPattern :: "string \<Rightarrow> bool" where
  "cipherPattern s = (case s of [] \<Rightarrow> False | c # r \<Rightarrow> lowerAlnum c \<and> list_all (\<lambda>x. lowerAlnum x \<or> x \<in> set '':,()_-'') r)"

definition formatFromParams :: "smap \<Rightarrow> bool \<Rightarrow> goerr + format" where
  "formatFromParams params encrypted =
     (let cipher = sget params ParamCipher; keySize = sget params ParamKeySize in
      if cipher = [] \<and> keySize = [] then Inr DefaultFormat
      else if \<not> encrypted then Inl (Msg ''encryption.cipher and encryption.keySize need encrypted=true'')
      else if cipher \<noteq> [] \<and> \<not> cipherPattern cipher then Inl (Msg ''encryption.cipher is not a cryptsetup cipher spec'')
      else if cipher \<noteq> [] \<and> keySize = [] then Inl (Msg ''encryption.keySize is required with encryption.cipher'')
      else let f = (if cipher \<noteq> [] then DefaultFormat\<lparr>Cipher := cipher\<rparr> else DefaultFormat) in
        if keySize \<noteq> [] then
          (case atoi keySize of
             None \<Rightarrow> Inl (Msg ''encryption.keySize: must be a positive number of bits divisible by 8'')
           | Some n \<Rightarrow> if n \<le> 0 \<or> \<not> 8 dvd n then Inl (Msg ''encryption.keySize: must be a positive number of bits divisible by 8'')
                     else Inr (f\<lparr>KeySize := nat n\<rparr>))
        else Inr f)"

definition formatToVolumeContext :: "smap \<Rightarrow> smap \<Rightarrow> smap" where
  "formatToVolumeContext vc params =
     fold (\<lambda>k vc. let v = sget params k in if v \<noteq> [] then gm_put k v vc else vc) [ParamCipher, ParamKeySize] vc"

section \<open>Keys\<close>

definition secretKey :: string where
  "secretKey = ''key''"

definition secretPreviousKey :: string where
  "secretPreviousKey = ''previousKey''"

definition keysFromSecrets :: "smap \<Rightarrow> goerr + keys" where
  "keysFromSecrets s =
     (let cur = sget s secretKey in
      if cur = [] then Inl (Status FailedPrecondition ''encrypted volume needs a key entry in its node-stage secret'')
      else if length cur < MinKeyLen then Inl (Status InvalidArgument ''node-stage secret key is too short'')
      else Inr \<lparr>Current = cur, Previous = sget s secretPreviousKey\<rparr>)"

section \<open>Errors\<close>

definition missingCryptsetupBinary :: "goerr \<Rightarrow> bool" where
  "missingCryptsetupBinary err = (case as_exec err of None \<Rightarrow> False
     | Some e \<Rightarrow> ee_code e = -1 \<and> (case ee_err e of None \<Rightarrow> False | Some c \<Rightarrow> error_is c ErrNotFound))"

definition cryptStatus :: "goerr \<Rightarrow> goerr" where
  "cryptStatus err =
     (if error_is err ErrWrongKey then Status PermissionDenied ''no supplied key opens the volume''
      else if error_is err ErrNotBlank then Status FailedPrecondition ''not a LUKS volume and not blank''
      else if missingCryptsetupBinary err then Status Internal ''luks (needs cryptsetup and the dm_crypt kernel module)''
      else Status Internal ''luks'')"

section \<open>Lemmas\<close>

lemmas enc_param_defs = ParamEncrypted_def ParamCipher_def ParamKeySize_def secretKey_def secretPreviousKey_def

text \<open>A context that holds no cipher parameters of its own carries exactly those of the class.\<close>

lemma formatToVolumeContext_get:
  "sget (formatToVolumeContext vc params) k =
     (if k \<in> {ParamCipher, ParamKeySize} \<and> sget params k \<noteq> [] then sget params k else sget vc k)"
  by (auto simp: formatToVolumeContext_def Let_def sget_put enc_param_defs)

lemma formatFromParams_cong:
  "sget a ParamCipher = sget b ParamCipher \<Longrightarrow> sget a ParamKeySize = sget b ParamKeySize \<Longrightarrow> formatFromParams a e = formatFromParams b e"
  by (simp add: formatFromParams_def)

lemma format_context:
  assumes "sget vc ParamCipher = []" "sget vc ParamKeySize = []"
  shows "formatFromParams (formatToVolumeContext vc params) e = formatFromParams params e"
  by (rule formatFromParams_cong) (simp_all add: formatToVolumeContext_get assms)

lemma cipherPattern_hd: "cipherPattern s \<Longrightarrow> s \<noteq> [] \<and> hd s \<noteq> CHR ''-''"
  by (cases s) (auto simp: cipherPattern_def lowerAlnum_def Let_def)

lemma formatFromParams_ok:
  assumes "formatFromParams params e = Inr f"
  shows "cipherPattern (Cipher f)" "0 < KeySize f" "8 dvd KeySize f"
proof -
  have d: "cipherPattern (Cipher DefaultFormat)" "KeySize DefaultFormat = 512"
    by (simp_all add: DefaultFormat_def cipherPattern_def lowerAlnum_def)
  let ?c = "sget params ParamCipher" and ?k = "sget params ParamKeySize"
  show "cipherPattern (Cipher f)" "0 < KeySize f" "8 dvd KeySize f"
  proof (atomize (full), cases "?c = [] \<and> ?k = []")
    case True
    then have "f = DefaultFormat" using assms by (simp add: formatFromParams_def)
    then show "cipherPattern (Cipher f) \<and> 0 < KeySize f \<and> 8 dvd KeySize f" using d by simp
  next
    case False
    then obtain n where n: "0 < n" "8 dvd n" "f = (if ?c \<noteq> [] then DefaultFormat\<lparr>Cipher := ?c\<rparr> else DefaultFormat)\<lparr>KeySize := nat n\<rparr>"
        "?c \<noteq> [] \<longrightarrow> cipherPattern ?c"
      using assms unfolding formatFromParams_def Let_def by (simp split: if_splits option.splits) (metis not_le)+
    then have "8 dvd nat n" using nat_dvd_iff [of n 8] by (metis nat_numeral dvd_nat_abs_iff int_dvd_int_iff int_nat_eq less_imp_le of_nat_numeral)
    with n d(1) show "cipherPattern (Cipher f) \<and> 0 < KeySize f \<and> 8 dvd KeySize f" by simp
  qed
qed

end
