(* ===== verification/Csi.thy ===== *)
theory Csi
  imports Encryption
begin

text \<open>
  The CSI messages the servers read and write, with the fields they use, and the checks on volume
  capabilities shared by controller and node (\<^verbatim>\<open>validateCapabilities\<close> of \<^verbatim>\<open>controller.go\<close>,
  \<^verbatim>\<open>validateCapability\<close> and \<^verbatim>\<open>mountOptionsFromCap\<close> of \<^verbatim>\<open>node.go\<close>). The message types are generated from
  the CSI specification; a \<open>None\<close> is a nil message, whose getters return zero values. Of the
  access modes only the one the driver supports is told apart.
\<close>

text \<open>The topology key under which a node names itself.\<close>

definition topologyKeyNode :: string where
  "topologyKeyNode = ''fileblock.csi/node''"

datatype accessMode = SINGLE_NODE_WRITER | OtherMode string

datatype accessType = NoAccess | Block | MountVolume (FsType: string) (Flags: "string list")

record volumeCapability =
  AccessType :: accessType
  AccessMode :: accessMode

record capacityRange =
  RequiredBytes :: int
  LimitBytes :: int

record csiVolume =
  VolumeId :: string
  vCapacityBytes :: int
  VolumeContext :: smap
  AccessibleTopology :: "smap list"

definition validateCap :: "volumeCapability \<Rightarrow> goerr option" where
  "validateCap c =
     (if AccessType c = Block then Some (Status InvalidArgument ''block volumes are not supported'')
      else if AccessMode c \<noteq> SINGLE_NODE_WRITER then Some (Status InvalidArgument ''access mode'')
      else case AccessType c of
        MountVolume fs flags \<Rightarrow> if fs \<noteq> [] \<and> fs \<noteq> DefaultFs then Some (Status InvalidArgument ''fsType'') else None
      | _ \<Rightarrow> None)"

fun firstInvalid :: "volumeCapability list \<Rightarrow> goerr option" where
  "firstInvalid [] = None"
| "firstInvalid (c # cs) = (case validateCap c of Some e \<Rightarrow> Some e | None \<Rightarrow> firstInvalid cs)"

definition validateCapabilities :: "volumeCapability list \<Rightarrow> goerr option" where
  "validateCapabilities caps =
     (if caps = [] then Some (Status InvalidArgument ''volume_capabilities is required'') else firstInvalid caps)"

definition validateCapability :: "volumeCapability option \<Rightarrow> goerr option" where
  "validateCapability cap = (case cap of None \<Rightarrow> Some (Status InvalidArgument ''volume_capability is required'') | Some c \<Rightarrow> validateCap c)"

definition mountOptionsFromCap :: "volumeCapability option \<Rightarrow> string list" where
  "mountOptionsFromCap cap = (case cap of None \<Rightarrow> [] | Some c \<Rightarrow> (case AccessType c of MountVolume fs flags \<Rightarrow> flags | _ \<Rightarrow> []))"

text \<open>The two checks accept the same capabilities.\<close>

lemma validateCapabilities_each:
  "validateCapabilities caps = None \<longleftrightarrow> caps \<noteq> [] \<and> (\<forall>c \<in> set caps. validateCapability (Some c) = None)"
proof -
  have "firstInvalid caps = None \<longleftrightarrow> (\<forall>c \<in> set caps. validateCap c = None)"
    by (induction caps) (auto split: option.splits)
  then show ?thesis by (simp add: validateCapabilities_def validateCapability_def)
qed

end
