(* ===== verification/Controller.thy ===== *)
theory Controller
  imports Registry Csi
begin

text \<open>
  \<^verbatim>\<open>pkg/driver/controller.go\<close>: the CSI controller service over the registry and the image manager.
  The factory \<^verbatim>\<open>newImages\<close> is \<^verbatim>\<open>image.New\<close> (\<open>newManager\<close>); a manager is its directory.
\<close>

section \<open>Messages\<close>

record topologyRequirement =
  Preferred :: "smap list"
  Requisite :: "smap list"

record createVolumeRequest =
  cvName :: string
  cvCapabilities :: "volumeCapability list"
  cvParameters :: smap
  cvRange :: "capacityRange option"
  cvTopology :: "topologyRequirement option"

datatype controllerCap = CREATE_DELETE_VOLUME | EXPAND_VOLUME | LIST_VOLUMES

text \<open>What ValidateVolumeCapabilities answers: confirmed, or the message why not.\<close>

datatype validation = Confirmed "volumeCapability list" | Refused string

section \<open>Identifiers and sizes\<close>

definition defaultCapacityBytes :: int where
  "defaultCapacityBytes = 2 ^ 30"

definition requiredBytes :: "capacityRange option \<Rightarrow> int" where
  "requiredBytes r = (case r of None \<Rightarrow> 0 | Some c \<Rightarrow> RequiredBytes c)"

definition limitBytes :: "capacityRange option \<Rightarrow> int" where
  "limitBytes r = (case r of None \<Rightarrow> 0 | Some c \<Rightarrow> LimitBytes c)"

definition alignedCapacity :: "capacityRange option \<Rightarrow> goerr + int" where
  "alignedCapacity r =
     (let want = (if requiredBytes r > 0 then requiredBytes r
                  else if limitBytes r > 0 then limitBytes r else defaultCapacityBytes);
          size = AlignUp want; limit = limitBytes r
      in if limit > 0 \<and> size > limit then
           let size = quot limit DefaultBlockSize * DefaultBlockSize in
           if size = 0 \<or> size < requiredBytes r
           then Inl (Status OutOfRange ''no multiple of the block size lies between required and limit'')
           else Inr size
         else Inr size)"

definition topologyForCfg :: "config \<Rightarrow> topologyRequirement option \<Rightarrow> smap list" where
  "topologyForCfg cfg req =
     (if Type cfg = TypeNFS then []
      else if Type cfg = TypeLocal \<and> LocalShared cfg then []
      else case req of None \<Rightarrow> []
        | Some q \<Rightarrow> (case Preferred q of p # _ \<Rightarrow> [p]
            | [] \<Rightarrow> (case Requisite q of p # _ \<Rightarrow> [p] | [] \<Rightarrow> [])))"

definition volumeIDFromName :: "config \<Rightarrow> string \<Rightarrow> goerr + string" where
  "volumeIDFromName cfg name =
     (if containsAny name [CHR ''/'', CHR 0x5C, CHR 0x00] then Inl (Status InvalidArgument ''name contains invalid characters'')
      else Inr (''fb-'' @ StoreID cfg @ ''-'' @ name))"

definition parseStoreIDFromVolumeID :: "string \<Rightarrow> goerr + string" where
  "parseStoreIDFromVolumeID volumeID =
     (if \<not> hasPrefix volumeID ''fb-'' then Inl (Status NotFound ''volumeID is not in fb-<storeID>-<name> form'')
      else let rest = drop 3 volumeID in
        if length rest < 13 \<or> rest ! 12 \<noteq> CHR ''-'' then Inl (Status NotFound ''volumeID has malformed storeID segment'')
        else Inr (take 12 rest))"

section \<open>Operations\<close>

definition ControllerGetCapabilities :: "controllerCap list" where
  "ControllerGetCapabilities = [CREATE_DELETE_VOLUME, EXPAND_VOLUME, LIST_VOLUMES]"

text \<open>What CreateVolume reads from the parameters before it touches the store.\<close>

definition createParams :: "createVolumeRequest \<Rightarrow> goerr + config \<times> bool" where
  "createParams req =
     (if cvName req = [] then Inl (Status InvalidArgument ''name is required'')
      else case validateCapabilities (cvCapabilities req) of Some e \<Rightarrow> Inl e
      | None \<Rightarrow> (case ConfigFromParams (cvParameters req) of Inl e \<Rightarrow> Inl (Status InvalidArgument ''parameters'')
        | Inr cfg \<Rightarrow> (case encryptedFromParams (cvParameters req) of Inl e \<Rightarrow> Inl (Status InvalidArgument ''encrypted'')
          | Inr encrypted \<Rightarrow> (case formatFromParams (cvParameters req) encrypted of Inl e \<Rightarrow> Inl (Status InvalidArgument ''encryption format'')
            | Inr _ \<Rightarrow> Inr (cfg, encrypted)))))"

definition createContext :: "config \<Rightarrow> bool \<Rightarrow> smap \<Rightarrow> smap" where
  "createContext cfg encrypted params =
     (let vc = ToVolumeContext cfg in
      if encrypted then formatToVolumeContext (gm_put ParamEncrypted ''true'' vc) params else vc)"

definition createError :: "goerr \<Rightarrow> goerr" where
  "createError e = (if as_mismatch e then Status AlreadyExists ''capacity mismatch'' else Status Internal ''create volume'')"

definition CreateVolume :: "'w host \<Rightarrow> registry \<Rightarrow> createVolumeRequest \<Rightarrow> (('w, 'm) reg_st_scheme, goerr + csiVolume) state" where
  "CreateVolume E R req = (case createParams req of Inl e \<Rightarrow> ret (Inl e)
     | Inr (cfg, encrypted) \<Rightarrow>
         onErr (regGet E R cfg) (\<lambda>_. Status Internal ''mount backing store'') (\<lambda>mountedPath.
         onErr (newManager E mountedPath) (\<lambda>_. Status Internal ''open backing store'') (\<lambda>images.
         onErr (ret (alignedCapacity (cvRange req))) id (\<lambda>capacity.
           if encrypted \<and> capacity < minEncryptedCapacity then ret (Inl (Status OutOfRange ''encrypted volumes need more bytes''))
           else onErr (ret (volumeIDFromName cfg (cvName req))) id (\<lambda>volumeID.
             onErr (imgCreate E images volumeID capacity encrypted) createError (\<lambda>meta.
               ret (Inr \<lparr>VolumeId = VolumeID meta, vCapacityBytes = CapacityBytes meta,
                         VolumeContext = createContext cfg encrypted (cvParameters req),
                         AccessibleTopology = topologyForCfg cfg (cvTopology req)\<rparr>)))))))"

definition imageManagerForVolumeID :: "'w host \<Rightarrow> registry \<Rightarrow> string \<Rightarrow> (('w, 'm) reg_st_scheme, goerr + string) state" where
  "imageManagerForVolumeID E R volumeID = onErr (ret (parseStoreIDFromVolumeID volumeID)) id (\<lambda>storeID. do {
     c \<leftarrow> ConfigByStoreID storeID;
     case c of
       None \<Rightarrow> ret (Inl (Status NotFound ''store is not mounted on this controller''))
     | Some cfg \<Rightarrow> onErr (regGet E R cfg) (\<lambda>_. Status Internal ''remount backing store'') (newManager E)
   })"

definition DeleteVolume :: "'w host \<Rightarrow> registry \<Rightarrow> string \<Rightarrow> (('w, 'm) reg_st_scheme, goerr + unit) state" where
  "DeleteVolume E R volumeID =
     (if volumeID = [] then ret (Inl (Status InvalidArgument ''volumeId is required''))
      else do {
        m \<leftarrow> imageManagerForVolumeID E R volumeID;
        case m of
          Inl e \<Rightarrow> ret (if status_code e = NotFound then Inr () else Inl e)
        | Inr images \<Rightarrow> onErr (imgDelete E images volumeID) (\<lambda>_. Status Internal ''delete volume'') (\<lambda>_. ret (Inr ()))
      })"

definition ValidateVolumeCapabilities :: "'w host \<Rightarrow> registry \<Rightarrow> string \<Rightarrow> volumeCapability list \<Rightarrow>
    (('w, 'm) reg_st_scheme, goerr + validation) state" where
  "ValidateVolumeCapabilities E R volumeID caps =
     (if volumeID = [] then ret (Inl (Status InvalidArgument ''volumeId is required''))
      else if caps = [] then ret (Inl (Status InvalidArgument ''volume_capabilities is required''))
      else onErr (imageManagerForVolumeID E R volumeID) id (\<lambda>images.
        onErr (imgGet E images volumeID) (\<lambda>_. Status NotFound ''volume'') (\<lambda>_.
          ret (Inr (case validateCapabilities caps of Some e \<Rightarrow> Refused (status_msg e) | None \<Rightarrow> Confirmed caps)))))"

fun listPaths :: "'w host \<Rightarrow> string list \<Rightarrow> metadata list \<Rightarrow> (('w, 'm) reg_st_scheme, goerr + metadata list) state" where
  "listPaths E [] out = ret (Inr out)"
| "listPaths E (p # ps) out = do {
     m \<leftarrow> newManager E p;
     case m of
       Inl _ \<Rightarrow> listPaths E ps out
     | Inr images \<Rightarrow> onErr (imgList E images) (\<lambda>_. Status Internal ''list'') (\<lambda>metas. listPaths E ps (out @ metas))
   }"

definition ListVolumes :: "'w host \<Rightarrow> string \<Rightarrow> (('w, 'm) reg_st_scheme, goerr + metadata list) state" where
  "ListVolumes E startingToken =
     (if startingToken \<noteq> [] then ret (Inl (Status Aborted ''starting_token is not supported''))
      else do { paths \<leftarrow> MountedPaths; listPaths E paths [] })"

text \<open>The answer's size; \<^verbatim>\<open>NodeExpansionRequired\<close> is always true.\<close>

definition ControllerExpandVolume :: "'w host \<Rightarrow> registry \<Rightarrow> string \<Rightarrow> capacityRange option \<Rightarrow> (('w, 'm) reg_st_scheme, goerr + int) state" where
  "ControllerExpandVolume E R volumeID r =
     (if volumeID = [] then ret (Inl (Status InvalidArgument ''volumeId is required''))
      else if requiredBytes r \<le> 0 then ret (Inl (Status InvalidArgument ''capacity_range.required_bytes is required''))
      else onErr (ret (alignedCapacity r)) id (\<lambda>size.
        onErr (imageManagerForVolumeID E R volumeID) id (\<lambda>images.
          onErr (imgResize E images volumeID size) (\<lambda>_. Status Internal ''resize'') (\<lambda>meta. ret (Inr (CapacityBytes meta))))))"

section \<open>Volume identifiers\<close>

lemma length_StoreID: "length (StoreID c) = 12"
  by (simp add: StoreID_def length_hashID)

lemma lowerHex_StoreID: "list_all lowerHex (StoreID c)"
  by (simp add: StoreID_def lowerHex_hashID)

lemma volumeID_parse:
  assumes "volumeIDFromName cfg name = Inr v"
  shows "parseStoreIDFromVolumeID v = Inr (StoreID cfg)" "validateVolumeID v = None" "v = ''fb-'' @ StoreID cfg @ ''-'' @ name"
proof -
  have v: "v = ''fb-'' @ StoreID cfg @ ''-'' @ name" and n: "set name \<inter> {CHR ''/'', CHR 0x5C, CHR 0x00} = {}"
    using assms by (auto simp: volumeIDFromName_def containsAny_iff split: if_splits)
  have r: "drop 3 v = StoreID cfg @ CHR ''-'' # name" using v by simp
  show "parseStoreIDFromVolumeID v = Inr (StoreID cfg)"
    unfolding parseStoreIDFromVolumeID_def r using v by (simp add: nth_append length_StoreID)
  have "\<not> lowerHex (CHR ''/'')" "\<not> lowerHex (CHR 0x5C)" "\<not> lowerHex (CHR 0x00)" by (simp_all add: lowerHex_def)
  then have "CHR ''/'' \<notin> set (StoreID cfg)" "CHR 0x5C \<notin> set (StoreID cfg)" "CHR 0x00 \<notin> set (StoreID cfg)"
    using lowerHex_StoreID [of cfg] by (auto simp: list_all_iff)
  then show "validateVolumeID v = None" using v n by (simp add: valid_iff)
  show "v = ''fb-'' @ StoreID cfg @ ''-'' @ name" by (rule v)
qed

text \<open>
  C35: Volume identifiers lead back to their store. The identifier made from a configuration and
  a request name parses to the identifier of that store, is a file name the image manager
  accepts, and determines both store identifier and name; so a retried request meets the image of
  the first one and no other request does.
\<close>

theorem volumeID_roundtrip:
  assumes "volumeIDFromName cfg name = Inr v"
  shows "parseStoreIDFromVolumeID v = Inr (StoreID cfg) \<and> validateVolumeID v = None
       \<and> (\<forall>cfg' name'. volumeIDFromName cfg' name' = Inr v \<longrightarrow> StoreID cfg' = StoreID cfg \<and> name' = name)"
  using volumeID_parse [OF assms] volumeID_parse by (fastforce simp: length_StoreID)

section \<open>Capacities\<close>

lemma quot_block: "0 < limit \<Longrightarrow> quot limit DefaultBlockSize * DefaultBlockSize = limit div 4096 * 4096"
  by (simp add: quot_nonneg DefaultBlockSize_def)

lemma floor_greatest: "4096 dvd n \<Longrightarrow> n \<le> limit \<Longrightarrow> n \<le> limit div 4096 * (4096 :: int)"
  by (auto elim!: dvdE)

lemma AlignUp_smallest:
  assumes "0 \<le> n" "n \<le> 2 ^ 63 - 4096" "4096 dvd k" "n \<le> k"
  shows "AlignUp n \<le> k"
proof -
  have "k - AlignUp n > - 4096" "4096 dvd k - AlignUp n" using AlignUp_bounds [OF assms(1,2)] assms(3,4) by auto
  then show ?thesis by (auto elim!: dvdE)
qed

lemma alignedCapacity_spec:
  assumes "0 \<le> requiredBytes r" "requiredBytes r \<le> 2 ^ 63 - 4096" "0 \<le> limitBytes r" "limitBytes r \<le> 2 ^ 63 - 4096"
  shows "case alignedCapacity r of
      Inr n \<Rightarrow> 4096 dvd n \<and> 0 < n \<and> requiredBytes r \<le> n \<and> (0 < limitBytes r \<longrightarrow> n \<le> limitBytes r)
        \<and> (\<forall>k. 0 < requiredBytes r \<and> 4096 dvd k \<and> requiredBytes r \<le> k \<longrightarrow> n \<le> k)
    | Inl e \<Rightarrow> status_code e = OutOfRange \<and> 0 < limitBytes r
        \<and> \<not> (\<exists>n. 4096 dvd n \<and> 0 < n \<and> requiredBytes r \<le> n \<and> n \<le> limitBytes r)"
proof -
  define want where "want = (if requiredBytes r > 0 then requiredBytes r else if limitBytes r > 0 then limitBytes r else defaultCapacityBytes)"
  have w: "0 < want" "want \<le> 2 ^ 63 - 4096" "requiredBytes r \<le> want"
    using assms by (auto simp: want_def defaultCapacityBytes_def)
  let ?fl = "limitBytes r div 4096 * 4096"
  have up: "want \<le> AlignUp want" "4096 dvd AlignUp want" "0 < AlignUp want"
    using AlignUp_bounds [of want] w by auto
  have least: "AlignUp want \<le> k" if "0 < requiredBytes r" "4096 dvd k" "requiredBytes r \<le> k" for k
    using AlignUp_smallest [of want k] w that by (simp add: want_def)
  have eq: "alignedCapacity r = (if 0 < limitBytes r \<and> limitBytes r < AlignUp want
      then if ?fl = 0 \<or> ?fl < requiredBytes r
        then Inl (Status OutOfRange ''no multiple of the block size lies between required and limit'') else Inr ?fl
      else Inr (AlignUp want))"
    unfolding alignedCapacity_def Let_def want_def [symmetric] using quot_block [of "limitBytes r"] by simp
  show ?thesis
  proof (cases "0 < limitBytes r \<and> limitBytes r < AlignUp want")
    case False
    then have "alignedCapacity r = Inr (AlignUp want)" unfolding eq by (simp only: if_False simp_thms)
    then show ?thesis using up w least False by auto
  next
    case True
    then have a: "alignedCapacity r = (if ?fl = 0 \<or> ?fl < requiredBytes r
        then Inl (Status OutOfRange ''no multiple of the block size lies between required and limit'') else Inr ?fl)"
      unfolding eq by (simp only: if_True simp_thms)
    have fl: "0 \<le> ?fl" "?fl \<le> limitBytes r" "4096 dvd ?fl" using True by (simp_all add: pos_imp_zdiv_nonneg_iff)
    note great = floor_greatest [of _ "limitBytes r"]
    show ?thesis
    proof (cases "?fl = 0 \<or> ?fl < requiredBytes r")
      case no: True
      have "\<not> (4096 dvd n \<and> 0 < n \<and> requiredBytes r \<le> n \<and> n \<le> limitBytes r)" for n
        using great [of n] no by linarith
      then show ?thesis unfolding a if_P [OF no] using True by simp
    next
      case False
      then have "requiredBytes r \<le> ?fl" "0 < ?fl" using fl(1) by linarith+
      moreover have "\<not> 0 < requiredBytes r"
        using least [OF _ fl(3)] \<open>requiredBytes r \<le> ?fl\<close> fl(2) True by linarith
      ultimately show ?thesis unfolding a if_not_P [OF False] using fl by simp
    qed
  qed
qed

lemma alignedCapacity_bounds:
  assumes "0 \<le> requiredBytes r" "requiredBytes r \<le> 2 ^ 63 - 4096" "0 \<le> limitBytes r" "limitBytes r \<le> 2 ^ 63 - 4096"
    and "alignedCapacity r = Inr n" "0 < requiredBytes r"
  shows "4096 dvd n" "0 < n" "requiredBytes r \<le> n" "0 < limitBytes r \<longrightarrow> n \<le> limitBytes r" "n \<le> 2 ^ 63 - 4096"
proof -
  have n: "4096 dvd n \<and> 0 < n \<and> requiredBytes r \<le> n \<and> (0 < limitBytes r \<longrightarrow> n \<le> limitBytes r)
      \<and> (\<forall>k. 0 < requiredBytes r \<and> 4096 dvd k \<and> requiredBytes r \<le> k \<longrightarrow> n \<le> k)"
    using alignedCapacity_spec [OF assms(1-4)] assms(5) by simp
  then show "4096 dvd n" "0 < n" "requiredBytes r \<le> n" "0 < limitBytes r \<longrightarrow> n \<le> limitBytes r" by blast+
  have "(4096 :: int) dvd 2 ^ 63 - 4096" by simp
  then show "n \<le> 2 ^ 63 - 4096" using n assms(2,6) by blast
qed

text \<open>
  C36: The size chosen for a capacity range. Within the range of sizes that can be rounded in 64 bits,
  the result is a positive multiple of the block size that is at least the required and at
  most the limit; the request is refused with OutOfRange exactly when there is no such size, and
  a required size without a limit in the way gets the smallest one.
\<close>

theorem alignedCapacity_in_range:
  assumes "0 \<le> requiredBytes r" "requiredBytes r \<le> 2 ^ 63 - 4096" "0 \<le> limitBytes r" "limitBytes r \<le> 2 ^ 63 - 4096"
  shows "case alignedCapacity r of
      Inr n \<Rightarrow> 4096 dvd n \<and> 0 < n \<and> requiredBytes r \<le> n \<and> (0 < limitBytes r \<longrightarrow> n \<le> limitBytes r)
        \<and> (\<forall>k. 0 < requiredBytes r \<and> 4096 dvd k \<and> requiredBytes r \<le> k \<longrightarrow> n \<le> k)
    | Inl e \<Rightarrow> status_code e = OutOfRange \<and> 0 < limitBytes r
        \<and> \<not> (\<exists>n. 4096 dvd n \<and> 0 < n \<and> requiredBytes r \<le> n \<and> n \<le> limitBytes r)"
  by (rule alignedCapacity_spec [OF assms])

section \<open>Invariants\<close>

lemma keeps_regGet: "cleanDir (r_root R) \<Longrightarrow> cfg_ok cfg \<Longrightarrow> keeps (reg_inv R) (regGet E R cfg)"
  by (rule keepsI, rule wp_mono [OF regGet_inv]) auto

lemma createParams_config:
  "createParams req = Inr (cfg, enc) \<Longrightarrow> ConfigFromParams (cvParameters req) = Inr cfg
     \<and> encryptedFromParams (cvParameters req) = Inr enc \<and> \<not> isl (formatFromParams (cvParameters req) enc)"
  by (auto simp: createParams_def split: if_splits option.splits sum.splits)

lemma reg_inv_stable: "stable (reg_inv R)"
  by (rule rstableD(1) [OF rstable_inv(1)])

lemma keeps_manager [kept]:
  fixes E :: "'w host"
  assumes "cleanDir (r_root R)"
  shows "keeps (reg_inv R :: ('w, 'm) reg_st_scheme \<Rightarrow> bool) (imageManagerForVolumeID E R v)"
proof -
  have "keeps (reg_inv R :: ('w, 'm) reg_st_scheme \<Rightarrow> bool) (State_Monad.bind (gets (\<lambda>s. gm_get (configs s) i)) (\<lambda>c. case c of
       None \<Rightarrow> ret (Inl (Status NotFound ''store is not mounted on this controller''))
     | Some cfg \<Rightarrow> onErr (regGet E R cfg) (\<lambda>_. Status Internal ''remount backing store'') (newManager E)))" for i
  proof (rule keeps_gets_bind)
    fix s :: "('w, 'm) reg_st_scheme" assume "reg_inv R s"
    then have "cfg_ok c" if "gm_get (configs s) i = Some c" for c using reg_invD(5) that by blast
    then show "keeps (reg_inv R :: ('w, 'm) reg_st_scheme \<Rightarrow> bool) (case gm_get (configs s) i of
         None \<Rightarrow> ret (Inl (Status NotFound ''store is not mounted on this controller''))
       | Some cfg \<Rightarrow> onErr (regGet E R cfg) (\<lambda>_. Status Internal ''remount backing store'') (newManager E))"
      by (cases "gm_get (configs s) i") (auto intro!: kept keeps_regGet assms stable_image_tools reg_inv_stable)
  qed
  then show ?thesis
    unfolding imageManagerForVolumeID_def ConfigByStoreID_def by (intro keeps_onErr keeps_ret)
qed

lemma keeps_listPaths: "stable I \<Longrightarrow> keeps I (listPaths E ps out)"
  by (induction ps arbitrary: out) (auto intro!: kept stable_image' stable_image_tools)

lemma keeps_CreateVolume:
  assumes "cleanDir (r_root R)"
  shows "keeps (reg_inv R) (CreateVolume E R req)"
proof (cases "createParams req")
  case (Inr p)
  obtain cfg enc where p: "p = (cfg, enc)" by (cases p)
  then have "cfg_ok cfg" using createParams_config Inr cfg_ok_parsed by blast
  then show ?thesis
    using Inr p by (simp add: CreateVolume_def)
      (intro kept keeps_regGet assms stable_image stable_image_tools reg_inv_stable)
qed (simp add: CreateVolume_def keeps_ret)

lemma keeps_controller [kept]:
  assumes "cleanDir (r_root R)"
  shows "keeps (reg_inv R) (DeleteVolume E R v)" "keeps (reg_inv R) (ValidateVolumeCapabilities E R v caps)"
    "keeps (reg_inv R) (ListVolumes E tok)" "keeps (reg_inv R) (ControllerExpandVolume E R v r)"
  unfolding DeleteVolume_def ValidateVolumeCapabilities_def ListVolumes_def ControllerExpandVolume_def MountedPaths_def
  by (intro kept keeps_manager keeps_listPaths stable_image stable_image' reg_inv_stable assms)+

text \<open>
  The controller process: it starts with an empty registry, adopts the mounts it finds and answers
  calls, while anything else happens to the machine.
\<close>

inductive ctl_reach :: "'w host \<Rightarrow> registry \<Rightarrow> ('w, 'm) reg_st_scheme \<Rightarrow> bool" for E R where
  ctl_new: "ctl_reach E R (snd (run_state NewRegistry s))"
| ctl_adopt: "ctl_reach E R s \<Longrightarrow> ctl_reach E R (snd (run_state (AdoptExisting E R) s))"
| ctl_create: "ctl_reach E R s \<Longrightarrow> ctl_reach E R (snd (run_state (CreateVolume E R req) s))"
| ctl_delete: "ctl_reach E R s \<Longrightarrow> ctl_reach E R (snd (run_state (DeleteVolume E R v) s))"
| ctl_validate: "ctl_reach E R s \<Longrightarrow> ctl_reach E R (snd (run_state (ValidateVolumeCapabilities E R v caps) s))"
| ctl_list: "ctl_reach E R s \<Longrightarrow> ctl_reach E R (snd (run_state (ListVolumes E tok) s))"
| ctl_expand: "ctl_reach E R s \<Longrightarrow> ctl_reach E R (snd (run_state (ControllerExpandVolume E R v r) s))"
| ctl_env: "ctl_reach E R s \<Longrightarrow> ctl_reach E R (s\<lparr>world := w, calls := cs\<rparr>)"

lemma ctl_reach_inv:
  assumes "ctl_reach E R s" "cleanDir (r_root R)"
  shows "reg_inv R s"
  using assms(1)
proof induction
  case (ctl_new s)
  show ?case by (simp add: NewRegistry_def reg_inv_def)
next
  case (ctl_env s w cs)
  then show ?case by (simp add: reg_inv_def)
qed (rule keeps_snd [OF keeps_AdoptExisting] keeps_snd [OF keeps_CreateVolume [OF assms(2)]]
     keeps_snd [OF keeps_controller(1) [OF assms(2)]] keeps_snd [OF keeps_controller(2) [OF assms(2)]]
     keeps_snd [OF keeps_controller(3) [OF assms(2)]] keeps_snd [OF keeps_controller(4) [OF assms(2)]]; assumption)+

section \<open>The calls\<close>

lemma newManager_run:
  assumes "run_state (newManager E p) s = (Inr q, s')"
  shows "q = p"
  using assms by (auto simp: newManager_def run_onErr run_sysc split: sum.splits if_splits)

lemma newManager_fs:
  assumes "fs_law E files" "run_state (newManager E p) s = (r, s')"
  shows "s' = s"
proof -
  have "snd (h_stat E p (world s)) = world s"
    using fs_stat [OF assms(1), of "world s" p] by (cases "files (world s) p") auto
  then show ?thesis using assms(2) by (auto simp: newManager_def run_onErr run_sysc split: sum.splits)
qed

lemma newManager_dir: "fs_law E files \<Longrightarrow> files (world s) p = Some fi \<Longrightarrow> fi_dir fi \<Longrightarrow> run_state (newManager E p) s = (Inr p, s)"
  using fs_stat(1) [of E files "world s" p fi] by (simp add: newManager_def run_onErr run_sysc)

lemma CreateVolume_steps:
  assumes "run_state (CreateVolume E R req) s = (Inr vol, s')"
  obtains cfg enc p s1 s2 cap v m where "createParams req = Inr (cfg, enc)" "run_state (regGet E R cfg) s = (Inr p, s1)"
    "run_state (newManager E p) s1 = (Inr p, s2)" "alignedCapacity (cvRange req) = Inr cap" "enc \<longrightarrow> minEncryptedCapacity \<le> cap"
    "volumeIDFromName cfg (cvName req) = Inr v" "run_state (imgCreate E p v cap enc) s2 = (Inr m, s')"
    "vol = \<lparr>VolumeId = VolumeID m, vCapacityBytes = CapacityBytes m, VolumeContext = createContext cfg enc (cvParameters req),
       AccessibleTopology = topologyForCfg cfg (cvTopology req)\<rparr>"
proof -
  obtain cfg enc where c: "createParams req = Inr (cfg, enc)"
    using assms by (cases "createParams req") (auto simp: CreateVolume_def)
  obtain p s1 where g: "run_state (regGet E R cfg) s = (Inr p, s1)"
    using assms c by (auto simp: CreateVolume_def run_onErr split: prod.splits sum.splits)
  obtain q s2 where n: "run_state (newManager E p) s1 = (Inr q, s2)"
    using assms c g by (auto simp: CreateVolume_def run_onErr split: prod.splits sum.splits)
  obtain cap v where a: "alignedCapacity (cvRange req) = Inr cap" "volumeIDFromName cfg (cvName req) = Inr v" "enc \<longrightarrow> minEncryptedCapacity \<le> cap"
    using assms c g n by (cases "alignedCapacity (cvRange req)"; cases "volumeIDFromName cfg (cvName req)")
      (auto simp: CreateVolume_def run_onErr split: if_splits)
  show thesis
    using that [OF c g] n newManager_run [OF n] a assms c g
    by (auto simp: CreateVolume_def run_onErr split: prod.splits sum.splits if_splits)
qed

lemma imageManager_steps:
  assumes "run_state (imageManagerForVolumeID E R v) s = (Inr q, s')"
  obtains i cfg s1 where "parseStoreIDFromVolumeID v = Inr i" "gm_get (configs s) i = Some cfg"
    "run_state (regGet E R cfg) s = (Inr q, s1)" "run_state (newManager E q) s1 = (Inr q, s')"
proof -
  obtain i where i: "parseStoreIDFromVolumeID v = Inr i"
    using assms by (cases "parseStoreIDFromVolumeID v") (auto simp: imageManagerForVolumeID_def run_onErr)
  obtain cfg where c: "gm_get (configs s) i = Some cfg"
    using assms i by (cases "gm_get (configs s) i") (auto simp: imageManagerForVolumeID_def ConfigByStoreID_def run_onErr)
  obtain p s1 where g: "run_state (regGet E R cfg) s = (Inr p, s1)"
    using assms i c by (auto simp: imageManagerForVolumeID_def ConfigByStoreID_def run_onErr split: prod.splits sum.splits)
  then have n: "run_state (newManager E p) s1 = (Inr q, s')"
    using assms i c by (simp add: imageManagerForVolumeID_def ConfigByStoreID_def run_onErr)
  with newManager_run [OF n] show thesis using that i c g by blast
qed

section \<open>The volume context\<close>

lemma ToVolumeContext_encryption:
  "sget (ToVolumeContext c) ParamEncrypted = []" "sget (ToVolumeContext c) ParamCipher = []" "sget (ToVolumeContext c) ParamKeySize = []"
  by (simp_all add: ToVolumeContext_def Let_def sget_def param_defs enc_param_defs)

lemma createContext_config:
  assumes "ConfigFromParams params = Inr cfg"
  shows "ConfigFromVolumeContext (createContext cfg enc params) = Inr cfg"
proof -
  have "ConfigFromParams (createContext cfg enc params) = ConfigFromParams (ToVolumeContext cfg)"
    by (rule ConfigFromParams_cong) (auto simp: createContext_def Let_def formatToVolumeContext_get sget_put param_defs enc_param_defs)
  then show ?thesis using config_context [OF assms] by (simp add: ConfigFromVolumeContext_def)
qed

lemma createContext_encryption:
  "sget (createContext cfg enc params) ParamEncrypted = (if enc then ''true'' else [])"
  "enc \<Longrightarrow> formatFromParams (createContext cfg enc params) e = formatFromParams params e"
proof -
  have "ParamEncrypted \<noteq> ParamCipher" "ParamEncrypted \<noteq> ParamKeySize" by (simp_all add: enc_param_defs)
  then show "sget (createContext cfg enc params) ParamEncrypted = (if enc then ''true'' else [])"
    "enc \<Longrightarrow> formatFromParams (createContext cfg enc params) e = formatFromParams params e"
    using ToVolumeContext_encryption
    by (auto simp: createContext_def Let_def formatToVolumeContext_get sget_put intro!: format_context)
qed

text \<open>
  C37: The node learns what the controller decided. From the context of a created volume the node
  reads back the configuration of the StorageClass, whether the volume is encrypted, and then the
  very cipher and key size the controller accepted (never mistaken for an option of cryptsetup);
  an encrypted volume has room for its header.
\<close>

theorem CreateVolume_context:
  assumes "run_state (CreateVolume E R req) s = (Inr vol, s')"
  shows "\<exists>cfg enc f. ConfigFromParams (cvParameters req) = Inr cfg
       \<and> ConfigFromVolumeContext (VolumeContext vol) = Inr cfg
       \<and> encryptedFromParams (cvParameters req) = Inr enc \<and> (sget (VolumeContext vol) ParamEncrypted = ''true'' \<longleftrightarrow> enc)
       \<and> formatFromParams (cvParameters req) enc = Inr f
       \<and> (enc \<longrightarrow> formatFromParams (VolumeContext vol) True = Inr f \<and> hd (Cipher f) \<noteq> CHR ''-''
            \<and> (\<exists>cap. alignedCapacity (cvRange req) = Inr cap \<and> minEncryptedCapacity \<le> cap))"
proof -
  obtain cfg enc cap where c: "createParams req = Inr (cfg, enc)" "VolumeContext vol = createContext cfg enc (cvParameters req)"
      "alignedCapacity (cvRange req) = Inr cap" "enc \<longrightarrow> minEncryptedCapacity \<le> cap"
    using CreateVolume_steps [OF assms] by (metis csiVolume.select_convs(3))
  note p = createParams_config [OF c(1)]
  then obtain f where f: "formatFromParams (cvParameters req) enc = Inr f" by (cases "formatFromParams (cvParameters req) enc") auto
  show ?thesis
    using p c f createContext_config [of "cvParameters req" cfg enc] createContext_encryption [where cfg = cfg and enc = enc and params = "cvParameters req"]
      cipherPattern_hd [OF formatFromParams_ok(1) [OF f]]
    by (intro exI [of _ cfg] exI [of _ enc] exI [of _ f]) auto
qed

text \<open>
  C18: What CreateVolume does to the store. From any reachable state, a successful call returns the
  identifier made from configuration and name; the store of that configuration then holds an
  image of exactly the reported size under it, resolvable by a later call.
\<close>

theorem CreateVolume_stores:
  assumes "ctl_reach E R s" "cleanDir (r_root R)" "fs_law E files" "run_state (CreateVolume E R req) s = (Inr vol, s')"
  shows "\<exists>cfg. ConfigFromParams (cvParameters req) = Inr cfg \<and> volumeIDFromName cfg (cvName req) = Inr (VolumeId vol)
       \<and> volumes files (storePath (r_root R) cfg) s' (VolumeId vol) = Some (vCapacityBytes vol)
       \<and> gm_get (configs s') (StoreID cfg) = Some cfg \<and> parseStoreIDFromVolumeID (VolumeId vol) = Inr (StoreID cfg)"
proof -
  obtain cfg enc p s1 s2 cap v m where st: "createParams req = Inr (cfg, enc)" "run_state (regGet E R cfg) s = (Inr p, s1)"
    "run_state (newManager E p) s1 = (Inr p, s2)" "volumeIDFromName cfg (cvName req) = Inr v"
    "run_state (imgCreate E p v cap enc) s2 = (Inr m, s')" "VolumeId vol = VolumeID m" "vCapacityBytes vol = CapacityBytes m"
    by (rule CreateVolume_steps [OF assms(4)]) simp
  have cfg: "ConfigFromParams (cvParameters req) = Inr cfg" using createParams_config [OF st(1)] by simp
  have g: "p = storePath (r_root R) cfg" "gm_get (configs s1) (StoreID cfg) = Some cfg"
    using wp_run [OF regGet_inv [OF ctl_reach_inv [OF assms(1,2)] assms(2) cfg_ok_parsed [OF cfg]] st(2)] by auto
  have "s2 = s1" by (rule newManager_fs [OF assms(3) st(3)])
  moreover have "configs s' = configs s2"
    using keeps_run [OF stable_image(1) _ st(5), of "\<lambda>t. configs t = configs s2"] by (simp add: stable_def)
  moreover have "VolumeID m = v" "volumes files p s' v = Some (CapacityBytes m)"
    using im.create_stores [OF assms(3) st(5)] by auto
  ultimately show ?thesis using cfg g st volumeID_parse(1) [OF st(4)] by auto
qed

section \<open>Retries, deletion and expansion\<close>

text \<open>
  C19: A retried CreateVolume meets its own image. When a call succeeded and the store still holds the
  image it reported, the same call, in whatever state the controller is by then, returns the
  same volume and does nothing beyond resolving the store.
\<close>

theorem CreateVolume_retry:
  assumes law: "fs_law E files" and run: "run_state (CreateVolume E R req) s = (Inr vol, s')"
    and cfg: "ConfigFromParams (cvParameters req) = Inr cfg" and again: "run_state (regGet E R cfg) t = (Inr p, t1)"
    and dir: "files (world t1) p = Some fi" "fi_dir fi" and img: "volumes files p t1 (VolumeId vol) = Some (vCapacityBytes vol)"
  shows "run_state (CreateVolume E R req) t = (Inr vol, t1)"
proof -
  obtain enc q s2 cap v m where st: "createParams req = Inr (cfg, enc)" "alignedCapacity (cvRange req) = Inr cap"
    "enc \<longrightarrow> minEncryptedCapacity \<le> cap" "volumeIDFromName cfg (cvName req) = Inr v" "run_state (imgCreate E q v cap enc) s2 = (Inr m, s')"
    "vol = \<lparr>VolumeId = VolumeID m, vCapacityBytes = CapacityBytes m, VolumeContext = createContext cfg enc (cvParameters req),
       AccessibleTopology = topologyForCfg cfg (cvTopology req)\<rparr>"
    by (rule CreateVolume_steps [OF run]) (metis cfg createParams_config sum.inject(2))
  have m: "VolumeID m = v" "CapacityBytes m \<in> {AlignUp cap, cap}" "0 < cap"
    using im.create_stores [OF law st(5)] im.create_invalid [OF st(5)] by auto
  have "volumes files p t1 v = Some (CapacityBytes m)" using img st(6) m(1) by simp
  from im.create_found [OF law this m(3), of enc] m have "run_state (imgCreate E p v cap enc) t1 = (Inr m, t1)" by (cases m) auto
  then show ?thesis
    using st again newManager_dir [OF law dir] by (simp add: CreateVolume_def run_onErr not_less)
qed

text \<open>Errors of the operating system carry no gRPC status.\<close>

definition plain_errors :: "'w host \<Rightarrow> bool" where
  "plain_errors E \<longleftrightarrow> (\<forall>p w e. fst (h_stat E p w) = Inl e \<longrightarrow> status_code e = Unknown)"

lemma newManager_error:
  assumes "plain_errors E" "run_state (newManager E p) s = (Inl e, s')"
  shows "status_code e = Unknown"
  using assms by (auto simp: newManager_def run_onErr run_sysc plain_errors_def split: sum.splits if_splits)

text \<open>
  C38: DeleteVolume. An identifier that was not issued by this driver, or whose store this process has
  not seen, is reported as deleted and nothing is done (the image, if there is one, stays: after a
  restart, a store that was only adopted is one not seen, and the success that is reported for
  its volumes ends the caller's retries). Otherwise a reported success means that the store no longer holds the image.
\<close>

theorem DeleteVolume_outcome:
  assumes "ctl_reach E R s" "cleanDir (r_root R)" "fs_law E files" "plain_errors E" "v \<noteq> []"
    and run: "run_state (DeleteVolume E R v) s = (r, s')"
  shows "case parseStoreIDFromVolumeID v of
      Inl e \<Rightarrow> r = Inr () \<and> s' = s
    | Inr i \<Rightarrow> (case gm_get (configs s) i of
          None \<Rightarrow> r = Inr () \<and> s' = s
        | Some cfg \<Rightarrow> r = Inr () \<longrightarrow> volumes files (storePath (r_root R) cfg) s' v = None)"
proof (cases "parseStoreIDFromVolumeID v")
  case (Inl e)
  then have "status_code e = NotFound"
    by (auto simp: parseStoreIDFromVolumeID_def Let_def split: if_splits)
  then show ?thesis using Inl run assms(5) by (simp add: DeleteVolume_def imageManagerForVolumeID_def run_onErr)
next
  case (Inr i)
  show ?thesis
  proof (cases "gm_get (configs s) i")
    case None
    then show ?thesis
      using Inr run assms(5) by (simp add: DeleteVolume_def imageManagerForVolumeID_def ConfigByStoreID_def run_onErr)
  next
    case (Some cfg)
    have ok: "cfg_ok cfg" using reg_invD(5) [OF ctl_reach_inv [OF assms(1,2)] Some] by simp
    have "volumes files (storePath (r_root R) cfg) s' v = None" if r: "r = Inr ()"
    proof -
      obtain g s1 where g: "run_state (regGet E R cfg) s = (g, s1)" by fastforce
      then obtain p where p: "g = Inr p"
        using run r assms(5) Inr Some by (cases g) (auto simp: DeleteVolume_def imageManagerForVolumeID_def ConfigByStoreID_def run_onErr)
      obtain n s2 where n: "run_state (newManager E p) s1 = (n, s2)" by fastforce
      have nok: "n = Inr p"
      proof (cases n)
        case (Inl e)
        then have "status_code e = Unknown" using newManager_error [OF assms(4)] n by blast
        then show ?thesis
          using run r assms(5) Inr Some g p n Inl
          by (auto simp: DeleteVolume_def imageManagerForVolumeID_def ConfigByStoreID_def run_onErr)
      next
        case (Inr q)
        then show ?thesis using newManager_run n by blast
      qed
      have d: "run_state (imgDelete E p v) s2 = (Inr (), s')"
        using run r assms(5) Inr Some g p n nok
        by (auto simp: DeleteVolume_def imageManagerForVolumeID_def ConfigByStoreID_def run_onErr split: prod.splits sum.splits)
      then have "validateVolumeID v = None" by (auto simp: imgDelete_def validated_def split: option.splits)
      moreover have "p = storePath (r_root R) cfg"
        using wp_run [OF regGet_inv [OF ctl_reach_inv [OF assms(1,2)] assms(2) ok] g] p by simp
      ultimately show ?thesis using im.delete_gone [OF assms(3) _ d] by simp
    qed
    then show ?thesis using Inr Some by simp
  qed
qed

text \<open>
  C39: Expansion. A successful ControllerExpandVolume leaves the image of the volume, in the store its
  identifier names, with the reported size: at least the required one, within the limit, never
  below the size it had, and no other image of the store has changed.
\<close>

theorem ExpandVolume_grows:
  assumes "fs_law E files" "requiredBytes r \<le> 2 ^ 63 - 4096" "0 \<le> limitBytes r" "limitBytes r \<le> 2 ^ 63 - 4096"
    and run: "run_state (ControllerExpandVolume E R v r) s = (Inr n, s')"
  shows "\<exists>i cfg p s1 k. parseStoreIDFromVolumeID v = Inr i \<and> gm_get (configs s) i = Some cfg \<and> run_state (regGet E R cfg) s = (Inr p, s1)
     \<and> volumes files p s1 v = Some k \<and> k \<le> n \<and> requiredBytes r \<le> n \<and> (0 < limitBytes r \<longrightarrow> n \<le> limitBytes r)
     \<and> volumes files p s' = (volumes files p s1)(v \<mapsto> n)"
proof -
  have v: "v \<noteq> []" "0 < requiredBytes r" using run by (auto simp: ControllerExpandVolume_def split: if_splits)
  obtain size where size: "alignedCapacity r = Inr size"
    using run v by (cases "alignedCapacity r") (auto simp: ControllerExpandVolume_def run_onErr)
  obtain q s2 where q: "run_state (imageManagerForVolumeID E R v) s = (Inr q, s2)"
    using run v size by (auto simp: ControllerExpandVolume_def run_onErr split: prod.splits sum.splits)
  then obtain m where m: "run_state (imgResize E q v size) s2 = (Inr m, s')" "n = CapacityBytes m"
    using run v size by (auto simp: ControllerExpandVolume_def run_onErr split: prod.splits sum.splits)
  obtain i cfg s1 where i: "parseStoreIDFromVolumeID v = Inr i" "gm_get (configs s) i = Some cfg"
    "run_state (regGet E R cfg) s = (Inr q, s1)" "run_state (newManager E q) s1 = (Inr q, s2)"
    by (rule imageManager_steps [OF q])
  have s2: "s2 = s1" by (rule newManager_fs [OF assms(1) i(4)])
  have sz: "4096 dvd size" "0 < size" "requiredBytes r \<le> size" "0 < limitBytes r \<longrightarrow> size \<le> limitBytes r" "size \<le> 2 ^ 63 - 4096"
    by (rule alignedCapacity_bounds [OF _ assms(2-4) size v(2)]; use v(2) in linarith)+
  then have "AlignUp size = size" by (intro AlignUp_fixed) linarith+
  then obtain k where "volumes files q s1 v = Some k" "k \<le> size" "CapacityBytes m = size" "volumes files q s' = (volumes files q s1)(v \<mapsto> size)"
    using im.resize_law [OF assms(1) m(1)] s2 by auto
  then show ?thesis using i(1-3) sz(3,4) m(2) by blast
qed

text \<open>
  C40: An image from before sizes were rounded cannot be created again. Create accepts an image at the
  unrounded requested size, but CreateVolume asks it for the rounded size: a retry of the call
  that made such an image is refused with AlreadyExists.
\<close>

theorem CreateVolume_legacy_refused:
  assumes law: "fs_law E files" and cfg: "createParams req = Inr (cfg, False)" "volumeIDFromName cfg (cvName req) = Inr v"
    and n: "requiredBytes (cvRange req) = n" "limitBytes (cvRange req) = 0" "0 < n" "n \<le> 2 ^ 63 - 4096" "\<not> 4096 dvd n"
    and g: "run_state (regGet E R cfg) s = (Inr p, s1)" "files (world s1) p = Some fi" "fi_dir fi"
    and img: "volumes files p s1 v = Some n"
  shows "run_state (imgCreate E p v n False) s1 = (Inr \<lparr>VolumeID = v, CapacityBytes = n\<rparr>, s1)
       \<and> (\<exists>msg. run_state (CreateVolume E R req) s = (Inl (Status AlreadyExists msg), s1))"
proof -
  have up: "4096 dvd AlignUp n" "0 < AlignUp n" "AlignUp n < n + 4096" using AlignUp_bounds [of n] n by auto
  then have ne: "n \<noteq> AlignUp n" using n(5) by auto
  have "AlignUp n \<le> 2 ^ 63 - 4096" using AlignUp_smallest [of n "2 ^ 63 - 4096"] n by simp
  then have "AlignUp (AlignUp n) = AlignUp n" using up by (intro AlignUp_fixed) linarith+
  then have "run_state (imgCreate E p v (AlignUp n) False) s1 = (Inl (CapacityMismatch (AlignUp n) n), s1)"
    using im.create_found [OF law img up(2), of False] ne by simp
  moreover have "alignedCapacity (cvRange req) = Inr (AlignUp n)" using n by (simp add: alignedCapacity_def Let_def)
  ultimately show ?thesis
    using im.create_found [OF law img n(3), of False] cfg g newManager_dir [OF law g(2,3)]
    by (simp add: CreateVolume_def run_onErr createError_def)
qed

end
