(* ===== verification/Witnesses_Driver.thy ===== *)
theory Witnesses_Driver
  imports Witnesses Sim_Disk Kube Controller
begin

text \<open>
  Applications of the properties of the state file, the Kubernetes client and the controller to
  concrete inputs.
\<close>

section \<open>The state file\<close>

definition diskStaged :: staged where
  "diskStaged = simStaged\<lparr>StageContext := Some [(''b'', ''1''), (''a'', ''2'')]\<rparr>"

definition diskStage :: "dsim kube_st" where
  "diskStage = \<lparr>world = [''/t'' \<mapsto> ''tok''], calls = [], mounted = [], stores = [], configs = [], storeMu = [], checks = [],
     lstate = [(''v'', diskStaged)], requests = []\<rparr>"

lemma disk_flush: "run_state (flushLocked diskHost ''/s'') diskStage = (Inr (), diskStage\<lparr>world :=
    (world diskStage)(''/s.tmp'' := None, ''/s'' := Some (stateText (lstate diskStage)))\<rparr>)"
  by (simp add: flushLocked_def onFail_def run_onErr run_sysc Let_def diskHost_def diskStage_def)

theorem flush_atomic_witness:
  "disk_law diskHost (\<lambda>w. w)
   \<and> world (snd (run_state (flushLocked diskHost ''/s'') diskStage)) ''/s'' = Some (stateText (lstate diskStage))"
  using flush_atomic [OF disk_disk_law disk_flush] disk_disk_law by (simp add: disk_flush)

lemma diskStage_ok: "table_ok (lstate diskStage)"
  by (simp add: diskStage_def diskStaged_def simStaged_def table_ok_def gm_wf_def ctx_wf_def staged_utf8_def ascii_valid)

theorem state_survives_restart_witness:
  "\<exists>t'. run_state (LoadState diskHost ''/s'') (snd (run_state (flushLocked diskHost ''/s'') diskStage)) = (Inr (), t')
     \<and> gm_get (lstate t') ''v'' = Some (normStaged diskStaged)"
proof -
  let ?s = "snd (run_state (flushLocked diskHost ''/s'') diskStage)"
  obtain r t' where l: "run_state (LoadState diskHost ''/s'') ?s = (r, t')" by fastforce
  have "readable diskHost ''/s'' (world ?s)"
    by (simp add: readable_def disk_flush) (simp add: diskHost_def)
  moreover have "gm_get (lstate diskStage) ''v'' = Some diskStaged" by (simp add: diskStage_def)
  ultimately show ?thesis
    using state_survives_restart [OF disk_disk_law diskStage_ok disk_flush _ l] l by (simp add: disk_flush)
qed

section \<open>The Kubernetes client\<close>

definition diskKube :: httpClient where
  "diskKube = \<lparr>kbase = ''https://api'', tokenPath = ''/t''\<rparr>"

theorem DeletePod_exact_witness:
  "length (newreqs diskStage (snd (run_state (DeletePod diskHost diskKube ''n/s'' ''p'' ''u'') diskStage))) \<le> 1"
  using DeletePod_exact [where E = diskHost and c = diskKube and s = diskStage, OF prod.collapse [symmetric]] by blast

lemma policyText_deny: "validationActions (take (4 * 2 ^ 20) policyText) = Some [''Deny'']"
proof -
  have "json_parse policyText = Some (JObj [(''spec'', JObj [(''validationActions'', JArr [JStr ''Deny''])])])"
    unfolding policyText_def json_print_def by (rule json_parse_utf8) (simp_all add: ascii_valid)
  moreover have "length policyText \<le> 4 * 2 ^ 20"
    by (simp add: policyText_def json_print_def newline_def colon_def jquote_def jescape_def)
  ultimately show ?thesis
    by (simp add: validationActions_def jobj_field_def jlist_field_def jfield_def jstr_def)
qed

theorem PolicyEnforced_yes_witness:
  "\<exists>s'. run_state (PolicyEnforced diskHost diskKube ''p'') diskStage = (Inr True, s') \<and> length (newreqs diskStage s') = 2"
proof -
  have get: "\<exists>s'. run_state (kubeDo diskHost diskKube ''GET'' p None) s = (Inr (take (4 * 2 ^ 20) policyText), s') \<and> world s' = world s"
    if "world s ''/t'' = Some tok" for p tok and s :: "dsim kube_st"
    using that by (simp add: kubeDo_def sendRequest_def run_onErr run_sysc diskKube_def Let_def diskHost_def)
  let ?p = "policyBase @ ''validatingadmissionpolicies/'' @ pathEscape ''p''"
  let ?b = "policyBase @ ''validatingadmissionpolicybindings/'' @ pathEscape ''p''"
  obtain s1 where 1: "run_state (kubeDo diskHost diskKube ''GET'' ?p None) diskStage = (Inr (take (4 * 2 ^ 20) policyText), s1)"
    and "world s1 = world diskStage"
    using get [of diskStage "''tok''" ?p] by (auto simp: diskStage_def)
  then obtain s2 where 2: "run_state (kubeDo diskHost diskKube ''GET'' ?b None) s1 = (Inr (take (4 * 2 ^ 20) policyText), s2)"
    using get [of s1 "''tok''" ?b] by (auto simp: diskStage_def)
  have "fst (run_state (PolicyEnforced diskHost diskKube ''p'') diskStage) = Inr True"
    unfolding PolicyEnforced_def run_state_bind 1 using policyText_deny by (simp add: 2 del: append.simps)
  then obtain s' where r: "run_state (PolicyEnforced diskHost diskKube ''p'') diskStage = (Inr True, s')"
    by (metis prod.collapse)
  from PolicyEnforced_yes [OF r] have "length (newreqs diskStage s') = 2" by (elim exE conjE) simp
  with r show ?thesis by blast
qed

section \<open>The controller\<close>

definition simCreate :: "int \<Rightarrow> createVolumeRequest" where
  "simCreate n = \<lparr>cvName = ''v'', cvCapabilities = [\<lparr>AccessType = MountVolume [] [], AccessMode = SINGLE_NODE_WRITER\<rparr>],
     cvParameters = [(ParamType, TypeLocal), (ParamLocalPath, ''/p'')],
     cvRange = Some \<lparr>RequiredBytes = n, LimitBytes = 0\<rparr>, cvTopology = None\<rparr>"

definition simID :: string where
  "simID = ''fb-'' @ StoreID simLocal @ ''-v''"

lemma simID_name: "volumeIDFromName simLocal ''v'' = Inr simID"
  by (simp add: volumeIDFromName_def simID_def containsAny_def)

lemma simCreate_params: "createParams (simCreate n) = Inr (simLocal, False)"
proof -
  let ?ps = "[(ParamType, TypeLocal), (ParamLocalPath, ''/p'')]"
  have "encryptedFromParams ?ps = Inr False" "\<exists>f. formatFromParams ?ps False = Inr f"
    by (simp_all add: encryptedFromParams_def formatFromParams_def sget_def ParamEncrypted_def ParamCipher_def ParamKeySize_def param_defs)
  then show ?thesis
    by (auto simp: createParams_def simCreate_def validateCapabilities_def validateCap_def simLocal_params)
qed

theorem volumeID_roundtrip_witness:
  "parseStoreIDFromVolumeID simID = Inr (StoreID simLocal) \<and> validateVolumeID simID = None"
  using volumeID_roundtrip [OF simID_name] by blast

theorem alignedCapacity_in_range_witness:
  "(case alignedCapacity (Some \<lparr>RequiredBytes = 5000, LimitBytes = 9000\<rparr>) of Inr n \<Rightarrow> 4096 dvd n \<and> 5000 \<le> n \<and> n \<le> 9000 | Inl e \<Rightarrow> True)
   \<and> (case alignedCapacity (Some \<lparr>RequiredBytes = 5000, LimitBytes = 6000\<rparr>) of Inr n \<Rightarrow> n \<le> 6000 | Inl e \<Rightarrow> status_code e = OutOfRange)"
  using alignedCapacity_in_range [of "Some \<lparr>RequiredBytes = 5000, LimitBytes = 9000\<rparr>"]
    alignedCapacity_in_range [of "Some \<lparr>RequiredBytes = 5000, LimitBytes = 6000\<rparr>"]
  by (auto simp: requiredBytes_def limitBytes_def split: sum.splits)

text \<open>A controller that has just started, with files; its first Get mounts the store on a new directory.\<close>

definition simAt :: "(string, finfo) gomap \<Rightarrow> sim reg_st" where
  "simAt fs = simRegBoot\<lparr>world := \<lparr>sFiles = fs, sMounts = [], sFds = []\<rparr>\<rparr>"

definition simPathOf :: string where
  "simPathOf = joinPath [''/m'', MountID simLocal]"

definition simImg :: "int \<Rightarrow> (string, finfo) gomap" where
  "simImg n = [(ImagePath simPathOf simID, \<lparr>fi_size = n, fi_dir = False\<rparr>)]"

lemma simReg_dir:
  "\<exists>s1. run_state (regGet simHost simReg simLocal) (simAt fs\<lparr>configs := cs\<rparr>) = (Inr simPathOf, s1)
     \<and> sFiles (world s1) = gm_put simPathOf \<lparr>fi_size = 0, fi_dir = True\<rparr> fs"
proof -
  have "r_root simReg = ''/m''" "NFSSubDir simLocal = []" by (simp_all add: simReg_def simLocal_def emptyConfig_def)
  moreover have "h_mkdirAll simHost t w = (Inr (), w\<lparr>sFiles := gm_put t \<lparr>fi_size = 0, fi_dir = True\<rparr> (sFiles w)\<rparr>)" for t w
    by (simp add: simHost_def)
  ultimately show ?thesis
    by (simp add: regGet_def regMount_def regCached_def regMountNew_def regStore_def lockStore_def run_onErr run_sysc Let_def
        sim_bind simReg_mounter simAt_def simRegBoot_def simPathOf_def)
qed

lemma entry_MountID: "entry_name (MountID c)"
proof -
  have "\<not> lowerHex (CHR ''/'')" by (simp add: lowerHex_def)
  then have "CHR ''/'' \<notin> set (MountID c)" using lowerHex_hashID [of "mountKey c"] by (auto simp: list_all_iff MountID_def)
  then show ?thesis using hex_entry [OF pattern_MountID [of c]] by (simp add: plainPath_def split_word)
qed

lemma simImg_path: "ImagePath simPathOf simID \<noteq> simPathOf"
proof
  assume "ImagePath simPathOf simID = simPathOf"
  then have "simID @ ImageExt = base simPathOf"
    using base_ImagePath [OF volumeID_parse(2) [OF simID_name], of simPathOf] by simp
  also have "\<dots> = MountID simLocal"
    unfolding simPathOf_def by (rule base_joinPath [OF entry_MountID])
  finally have "length (simID @ ImageExt) = 12" by (simp add: MountID_def length_hashID)
  then show False by (simp add: simID_def ImageExt_def length_StoreID)
qed

lemma simAt_reach: "ctl_reach simHost simReg (simAt fs)"
proof -
  have "ctl_reach simHost simReg simRegBoot"
    using ctl_new [of simHost simReg simRegBoot] by (simp add: NewRegistry_def simRegBoot_def)
  from ctl_env [OF this, where w = "\<lparr>sFiles = fs, sMounts = [], sFds = []\<rparr>" and cs = "[]"] show ?thesis
    by (simp add: simAt_def simRegBoot_def)
qed

lemma simAt_get:
  obtains s1 where "run_state (regGet simHost simReg simLocal) (simAt fs) = (Inr simPathOf, s1)"
    "sFiles (world s1) = gm_put simPathOf \<lparr>fi_size = 0, fi_dir = True\<rparr> fs"
  using simReg_dir [where fs = fs and cs = "[]"] by (auto simp: simAt_def simRegBoot_def)

lemma sim_mkfs: "fst (run_state (Mkfs simHost p) s) = Inr ()"
  by (simp add: Mkfs_def RunE_def Run_def run_RunCmd run_onErr sim_exec simWait_def asErr_def)

lemma sim_stat: "h_stat simHost p w = simStat p w"
  by (simp add: simHost_def)

lemma sim_truncates: "\<exists>s'. run_state (truncateSparse simHost q n) s = (Inr (), s')"
  by (simp add: truncateSparse_def run_onErr run_sysc run_ignore simHost_def simOpen_def)

lemma sim_creates:
  assumes "simFs (world s) (ImagePath p simID) = None"
  shows "\<not> isl (fst (run_state (imgCreate simHost p simID 8192 False) s))"
proof -
  obtain s1 where 1: "run_state (truncateSparse simHost (ImagePath p simID) (AlignUp 8192)) s = (Inr (), s1)"
    using sim_truncates by blast
  obtain s2 where "run_state (Mkfs simHost (ImagePath p simID)) s1 = (Inr (), s2)"
    using sim_mkfs [of "ImagePath p simID" s1] by (metis prod.collapse)
  then show ?thesis
    using assms volumeID_parse(2) [OF simID_name]
    by (simp add: imgCreate_def validated_def run_onErr run_onFail run_sysc Let_def 1 sim_stat simStat_def)
qed

lemma sim_created:
  obtains vol s' where "run_state (CreateVolume simHost simReg (simCreate 8192)) (simAt []) = (Inr vol, s')" "VolumeId vol = simID"
proof -
  obtain s1 where g: "run_state (regGet simHost simReg simLocal) (simAt []) = (Inr simPathOf, s1)"
    and f: "sFiles (world s1) = gm_put simPathOf \<lparr>fi_size = 0, fi_dir = True\<rparr> []"
    by (rule simAt_get)
  have "run_state (newManager simHost simPathOf) s1 = (Inr simPathOf, s1)"
    by (rule newManager_dir [OF sim_fs_law, where fi = "\<lparr>fi_size = 0, fi_dir = True\<rparr>"]) (simp_all add: f)
  moreover obtain m s2 where i: "run_state (imgCreate simHost simPathOf simID 8192 False) s1 = (Inr m, s2)"
    using run_Inr [OF sim_creates [of s1 simPathOf]] simImg_path by (auto simp: f gm_get_put)
  moreover have "volumes simFs simPathOf s1 simID = None" using simImg_path by (simp add: volumes_def f gm_get_put)
  from im.create_missing [OF sim_fs_law volumeID_parse(2) [OF simID_name] this _ i] have "VolumeID m = simID" by auto
  moreover have "alignedCapacity (cvRange (simCreate 8192)) = Inr 8192"
    by (simp add: alignedCapacity_def simCreate_def requiredBytes_def limitBytes_def AlignUp_8192 Let_def)
  moreover have "volumeIDFromName simLocal (cvName (simCreate 8192)) = Inr simID"
    using simID_name by (simp add: simCreate_def)
  ultimately have "\<exists>vol s'. run_state (CreateVolume simHost simReg (simCreate 8192)) (simAt []) = (Inr vol, s') \<and> VolumeId vol = simID"
    by (simp add: CreateVolume_def simCreate_params run_onErr g)
  then show ?thesis by (elim exE conjE) (rule that)
qed

theorem CreateVolume_context_witness:
  "\<exists>vol s'. run_state (CreateVolume simHost simReg (simCreate 8192)) (simAt []) = (Inr vol, s')
     \<and> ConfigFromVolumeContext (VolumeContext vol) = Inr simLocal"
proof -
  obtain vol s' where c: "run_state (CreateVolume simHost simReg (simCreate 8192)) (simAt []) = (Inr vol, s')"
    and "VolumeId vol = simID" by (rule sim_created)
  have "cvParameters (simCreate 8192) = [(ParamType, TypeLocal), (ParamLocalPath, ''/p'')]" by (simp add: simCreate_def)
  with CreateVolume_context [OF c] simLocal_params have "ConfigFromVolumeContext (VolumeContext vol) = Inr simLocal" by auto
  with c show ?thesis by blast
qed

theorem CreateVolume_stores_witness:
  "\<exists>vol s'. run_state (CreateVolume simHost simReg (simCreate 8192)) (simAt []) = (Inr vol, s') \<and> VolumeId vol = simID
     \<and> volumes simFs (storePath ''/m'' simLocal) s' simID = Some (vCapacityBytes vol)"
proof -
  obtain vol s' where c: "run_state (CreateVolume simHost simReg (simCreate 8192)) (simAt []) = (Inr vol, s')"
    and "VolumeId vol = simID" by (rule sim_created)
  have "cvParameters (simCreate 8192) = [(ParamType, TypeLocal), (ParamLocalPath, ''/p'')]" "cvName (simCreate 8192) = ''v''" "r_root simReg = ''/m''"
    by (simp_all add: simCreate_def simReg_def)
  with CreateVolume_stores [OF simAt_reach simReg_root sim_fs_law c] simLocal_params simID_name
  have "VolumeId vol = simID \<and> volumes simFs (storePath ''/m'' simLocal) s' simID = Some (vCapacityBytes vol)" by auto
  with c show ?thesis by blast
qed

lemma simImg_vol:
  assumes "sFiles (world s1) = gm_put simPathOf \<lparr>fi_size = 0, fi_dir = True\<rparr> (simImg n)"
  shows "volumes simFs simPathOf s1 simID = Some n"
  using assms simImg_path volumeID_parse(2) [OF simID_name] by (simp add: volumes_def simImg_def gm_get_put)

text \<open>The same call on a fresh controller that finds the image the first call made.\<close>

theorem CreateVolume_retry_witness:
  "\<exists>vol s' t1. run_state (CreateVolume simHost simReg (simCreate 8192)) (simAt []) = (Inr vol, s')
     \<and> run_state (CreateVolume simHost simReg (simCreate 8192)) (simAt (simImg (vCapacityBytes vol))) = (Inr vol, t1)"
proof -
  obtain vol s' where c: "run_state (CreateVolume simHost simReg (simCreate 8192)) (simAt []) = (Inr vol, s')"
    and "VolumeId vol = simID" by (rule sim_created)
  let ?n = "vCapacityBytes vol"
  have p: "ConfigFromParams (cvParameters (simCreate 8192)) = Inr simLocal" using simLocal_params by (simp add: simCreate_def)
  obtain s1 where g: "run_state (regGet simHost simReg simLocal) (simAt (simImg ?n)) = (Inr simPathOf, s1)"
    and f: "sFiles (world s1) = gm_put simPathOf \<lparr>fi_size = 0, fi_dir = True\<rparr> (simImg ?n)"
    by (rule simAt_get)
  have "simFs (world s1) simPathOf = Some \<lparr>fi_size = 0, fi_dir = True\<rparr>" by (simp add: f gm_get_put)
  with CreateVolume_retry [OF sim_fs_law c p g this _] simImg_vol [OF f] \<open>VolumeId vol = simID\<close> c show ?thesis by auto
qed

theorem DeleteVolume_outcome_witness:
  "plain_errors simHost \<and> run_state (DeleteVolume simHost simReg ''x'') (simAt (simImg 8192)) = (Inr (), simAt (simImg 8192))"
proof -
  have e: "plain_errors simHost" by (auto simp: plain_errors_def sim_stat simStat_def split: option.splits)
  have "parseStoreIDFromVolumeID ''x'' = Inl (Status NotFound ''volumeID is not in fb-<storeID>-<name> form'')"
    by (simp add: parseStoreIDFromVolumeID_def hasPrefix_def)
  with DeleteVolume_outcome [OF simAt_reach simReg_root sim_fs_law e _ prod.collapse [symmetric], of "''x''" "simImg 8192"] e
  show ?thesis by (simp add: prod_eq_iff)
qed

lemma simImg_expand:
  assumes "sFiles (world s1) = gm_put simPathOf \<lparr>fi_size = 0, fi_dir = True\<rparr> (simImg 8192)"
  shows "\<not> isl (fst (run_state (imgResize simHost simPathOf simID 12288) s1))"
proof -
  have g: "run_state (imgGet simHost simPathOf simID) s1 = (Inr \<lparr>VolumeID = simID, CapacityBytes = 8192\<rparr>, s1)"
    by (rule im.get_found [OF sim_fs_law simImg_vol [OF assms]])
  obtain s2 where "run_state (truncateSparse simHost (ImagePath simPathOf simID) 12288) s1 = (Inr (), s2)" using sim_truncates by blast
  then show ?thesis by (simp add: imgResize_def run_onErr g AlignUp_exact Let_def)
qed

theorem ExpandVolume_grows_witness:
  "\<exists>n s'. run_state (ControllerExpandVolume simHost simReg simID (Some \<lparr>RequiredBytes = 10000, LimitBytes = 0\<rparr>))
      (simAt (simImg 8192)\<lparr>configs := [(StoreID simLocal, simLocal)]\<rparr>) = (Inr n, s') \<and> 10000 \<le> n"
proof -
  let ?s = "simAt (simImg 8192)\<lparr>configs := [(StoreID simLocal, simLocal)]\<rparr>" and ?r = "Some \<lparr>RequiredBytes = 10000, LimitBytes = 0\<rparr>"
  obtain s1 where g: "run_state (regGet simHost simReg simLocal) ?s = (Inr simPathOf, s1)"
    and f: "sFiles (world s1) = gm_put simPathOf \<lparr>fi_size = 0, fi_dir = True\<rparr> (simImg 8192)"
    using simReg_dir [where fs = "simImg 8192"] by blast
  have m: "run_state (newManager simHost simPathOf) s1 = (Inr simPathOf, s1)"
    by (rule newManager_dir [OF sim_fs_law, where fi = "\<lparr>fi_size = 0, fi_dir = True\<rparr>"]) (simp_all add: f gm_get_put)
  have a: "alignedCapacity ?r = Inr 12288"
    by (simp add: alignedCapacity_def requiredBytes_def limitBytes_def AlignUp_exact Let_def)
  obtain x s2 where i: "run_state (imgResize simHost simPathOf simID 12288) s1 = (Inr x, s2)" using run_Inr [OF simImg_expand [OF f]] by blast
  have "run_state (ControllerExpandVolume simHost simReg simID ?r) ?s = (Inr (CapacityBytes x), s2)"
    using volumeID_parse(1) [OF simID_name]
    by (simp add: ControllerExpandVolume_def imageManagerForVolumeID_def ConfigByStoreID_def run_onErr a g m i requiredBytes_def)
      (simp add: simID_def)
  from ExpandVolume_grows [OF sim_fs_law _ _ _ this] this show ?thesis by (auto simp: requiredBytes_def limitBytes_def)
qed

theorem CreateVolume_legacy_refused_witness:
  "\<exists>msg s'. run_state (CreateVolume simHost simReg (simCreate 5000)) (simAt (simImg 5000)) = (Inl (Status AlreadyExists msg), s')"
proof -
  obtain s1 where g: "run_state (regGet simHost simReg simLocal) (simAt (simImg 5000)) = (Inr simPathOf, s1)"
    and f: "sFiles (world s1) = gm_put simPathOf \<lparr>fi_size = 0, fi_dir = True\<rparr> (simImg 5000)"
    by (rule simAt_get)
  have d: "simFs (world s1) simPathOf = Some \<lparr>fi_size = 0, fi_dir = True\<rparr>" by (simp add: f gm_get_put)
  have r: "requiredBytes (cvRange (simCreate 5000)) = 5000" "limitBytes (cvRange (simCreate 5000)) = 0" "volumeIDFromName simLocal (cvName (simCreate 5000)) = Inr simID"
    using simID_name by (simp_all add: simCreate_def requiredBytes_def limitBytes_def)
  from CreateVolume_legacy_refused [OF sim_fs_law simCreate_params r(3,1,2) _ _ _ g d _ simImg_vol [OF f]] show ?thesis by auto
qed

end
