(* ===== verification/Failures.thy ===== *)
theory Failures
  imports Kube
begin

text \<open>
  \<^verbatim>\<open>pkg/driver/failures.go\<close>: the volumes whose file system was forced read-only, and until when
  each is held off from remediation. Times are nanoseconds since the Unix epoch.
\<close>

record 'w fail_st = "'w kube_st" +
  failed :: "(string, int) gomap"
  held :: "(string, int) gomap"

text \<open>\<^verbatim>\<open>time.Time{}\<close>, what reading a missing key gives: the first instant of the year 1.\<close>

definition zeroTime :: int where
  "zeroTime = - 62135596800 * nsPerSecond"

definition newFailures :: "(('w, 'm) fail_st_scheme, unit) state" where
  "newFailures = modify (\<lambda>s. s\<lparr>failed := [], held := []\<rparr>)"

definition failMark :: "string \<Rightarrow> int \<Rightarrow> (('w, 'm) fail_st_scheme, bool) state" where
  "failMark volumeID t = do {
     seen \<leftarrow> gets (\<lambda>s. gm_get (failed s) volumeID);
     case seen of
       Some _ \<Rightarrow> ret False
     | None \<Rightarrow> do { modify (\<lambda>s. s\<lparr>failed := gm_put volumeID t (failed s)\<rparr>); ret True }
   }"

definition failGet :: "string \<Rightarrow> (('w, 'm) fail_st_scheme, int option) state" where
  "failGet volumeID = gets (\<lambda>s. gm_get (failed s) volumeID)"

definition failClear :: "string \<Rightarrow> (('w, 'm) fail_st_scheme, unit) state" where
  "failClear volumeID = modify (\<lambda>s. s\<lparr>failed := gm_del volumeID (failed s)\<rparr>)"

definition HeldUntil :: "string \<Rightarrow> (('w, 'm) fail_st_scheme, int) state" where
  "HeldUntil volumeID = gets (\<lambda>s. case gm_get (held s) volumeID of Some t \<Rightarrow> t | None \<Rightarrow> zeroTime)"

definition failHold :: "string \<Rightarrow> int \<Rightarrow> (('w, 'm) fail_st_scheme, unit) state" where
  "failHold volumeID until = modify (\<lambda>s. s\<lparr>held := gm_put volumeID until (held s)\<rparr>)"

text \<open>Marks and hold-offs are keyed stores.\<close>

interpretation fl: keyed_store "\<lambda>s. gm_get (failed s)" "\<lambda>k v s. s\<lparr>failed := gm_put k v (failed s)\<rparr>"
  "\<lambda>k s. s\<lparr>failed := gm_del k (failed s)\<rparr>" "\<lambda>s :: ('w, 'm) fail_st_scheme. gm_wf (failed s)"
  by unfold_locales (simp_all add: gm_get_put gm_get_del)

interpretation hl: keyed_store "\<lambda>s. gm_get (held s)" "\<lambda>k v s. s\<lparr>held := gm_put k v (held s)\<rparr>"
  "\<lambda>k s. s\<lparr>held := gm_del k (held s)\<rparr>" "\<lambda>s :: ('w, 'm) fail_st_scheme. gm_wf (held s)"
  by unfold_locales (simp_all add: gm_get_put gm_get_del)

text \<open>
  What the tracker promises its users: only the first mark of a failure counts, clearing
  forgets it, and neither touches the hold-off, which a later hold replaces.
\<close>

lemma failures_contract:
  "run_state (failMark v t) s = (r, s') \<Longrightarrow> r \<longleftrightarrow> gm_get (failed s) v = None"
  "run_state (failMark v t) s = (r, s') \<Longrightarrow> gm_get (failed s') v = Some (case gm_get (failed s) v of Some t0 \<Rightarrow> t0 | None \<Rightarrow> t)"
  "run_state (failMark v t) s = (r, s') \<Longrightarrow> u \<noteq> v \<Longrightarrow> gm_get (failed s') u = gm_get (failed s) u"
  "run_state (failMark v t) s = (r, s') \<Longrightarrow> held s' = held s"
  "gm_get (failed (snd (run_state (failClear v) s))) u = (if u = v then None else gm_get (failed s) u)"
  "held (snd (run_state (failClear v) s)) = held s"
  "fst (run_state (HeldUntil v) (snd (run_state (failHold v t) s))) = t"
  using fl.get_put [where k = v and v = t and s = s] fl.get_del [where k = v and s = s] hl.get_put [where k = v and v = t and s = s]
  by (auto simp: failMark_def failClear_def HeldUntil_def failHold_def split: option.splits)

end
