(* ===== verification/Node.thy ===== *)
theory Node
  imports Failures State_File Mountinfo Csi
begin

text \<open>
  \<^verbatim>\<open>pkg/driver/node.go\<close>: the CSI node service. A volume is staged by attaching its image to a loop
  device, opening the LUKS mapping of an encrypted one, checking and growing the file system,
  and mounting it; publishing binds the stage into a pod; a volume marked as failed is
  re-staged on the next publish.

  Calls are sequential: the per-volume mutex makes them so for one volume. Log lines are left
  out and status messages are cut to their fixed words. The long handlers are split into the steps their comments name.
\<close>

section \<open>State\<close>

record 'w node_st = "'w fail_st" +
  volMutex :: "string list"
  nkeys :: "(string, keys) gomap"

text \<open>
  The fields fixed at construction. \<^verbatim>\<open>state\<close> is the path of its file, \<^verbatim>\<open>mountInfo\<close> the file read, and
  \<^verbatim>\<open>luks\<close> the directory that object reads dm state under.
\<close>

record nodeServer =
  nodeID :: string
  nStatePath :: string
  nRegistry :: registry
  nSysRoot :: string
  nLuksRoot :: string
  nMountInfo :: string
  nKube :: "httpClient option"

definition NewNodeServer :: "string \<Rightarrow> string \<Rightarrow> registry \<Rightarrow> nodeServer" where
  "NewNodeServer nid statePath reg = \<lparr>nodeID = nid, nStatePath = statePath, nRegistry = reg, nSysRoot = ''/sys'', nLuksRoot = ''/sys'',
     nMountInfo = ''/proc/self/mountinfo'', nKube = None\<rparr>"

definition SetKube :: "httpClient \<Rightarrow> nodeServer \<Rightarrow> nodeServer" where
  "SetKube k N = N\<lparr>nKube := Some k\<rparr>"

text \<open>The maps of a new server.\<close>

definition initNode :: "(('w, 'm) node_st_scheme, unit) state" where
  "initNode = do { newFailures; modify (\<lambda>s. s\<lparr>volMutex := [], nkeys := []\<rparr>) }"

text \<open>\<^verbatim>\<open>EXPAND_VOLUME\<close> of the node service has its own name, since the controller service has one too.\<close>

datatype nodeCap = STAGE_UNSTAGE_VOLUME | GET_VOLUME_STATS | NODE_EXPAND_VOLUME | VOLUME_CONDITION

definition NodeGetCapabilities :: "nodeCap list" where
  "NodeGetCapabilities = [STAGE_UNSTAGE_VOLUME, GET_VOLUME_STATS, NODE_EXPAND_VOLUME, VOLUME_CONDITION]"

text \<open>The node id, its topology segments and the most volumes it takes.\<close>

definition NodeGetInfo :: "nodeServer \<Rightarrow> string \<times> smap \<times> int" where
  "NodeGetInfo N = (nodeID N, [(topologyKeyNode, nodeID N)], 64)"

record stageRequest =
  srVolumeID :: string
  srPath :: string
  srContext :: smap
  srSecrets :: smap
  srCap :: "volumeCapability option"

record publishRequest =
  prVolumeID :: string
  prStage :: string
  prTarget :: string
  prCap :: "volumeCapability option"
  prReadonly :: bool
  prContext :: smap

section \<open>Helpers\<close>

definition lockVolume :: "string \<Rightarrow> (('w, 'm) node_st_scheme, unit) state" where
  "lockVolume v = modify (\<lambda>s. if v \<in> set (volMutex s) then s else s\<lparr>volMutex := volMutex s @ [v]\<rparr>)"

text \<open>The cached bytes are clones, so wiping the ones replaced or forgotten is not seen elsewhere.\<close>

definition cacheKeys :: "string \<Rightarrow> keys \<Rightarrow> bool \<Rightarrow> (('w, 'm) node_st_scheme, unit) state" where
  "cacheKeys v k replace = modify (\<lambda>s.
     if gm_get (nkeys s) v \<noteq> None \<and> \<not> replace then s else s\<lparr>nkeys := gm_put v k (nkeys s)\<rparr>)"

definition forgetKeys :: "string \<Rightarrow> (('w, 'm) node_st_scheme, unit) state" where
  "forgetKeys v = modify (\<lambda>s. s\<lparr>nkeys := gm_del v (nkeys s)\<rparr>)"

definition loopSectorSize :: "'w host \<Rightarrow> string \<Rightarrow> int \<Rightarrow> bool \<Rightarrow> (('w, 'm) sys_scheme, goerr + int) state" where
  "loopSectorSize E imgPath imgSize encrypted =
     onErr (if encrypted then cryptSectorSize E imgPath
            else onErr (FSBlockSize E imgPath) id (\<lambda>n. ret (Inr (int n)))) id (\<lambda>recorded.
       ret (Inr (SectorSizeFor (h_pagesize E) recorded imgSize)))"

definition maxStageUnmounts :: nat where
  "maxStageUnmounts = 8"

text \<open>The loop of popStageMounts with \<open>k\<close> unmounts left.\<close>

fun popLoop :: "'w host \<Rightarrow> string \<Rightarrow> nat \<Rightarrow> (('w, 'm) sys_scheme, goerr + unit) state" where
  "popLoop E path k = onErr (IsMountPoint E path) (\<lambda>_. Status Internal ''check stage'') (\<lambda>mounted.
     if \<not> mounted then ret (Inr ())
     else case k of
       0 \<Rightarrow> ret (Inl (Status Internal ''still mounted after unmounts''))
     | Suc j \<Rightarrow> onErr (Unmount E path) (\<lambda>_. Status Internal ''umount stage'') (\<lambda>_. popLoop E path j))"

declare popLoop.simps [simp del]

definition popStageMounts :: "'w host \<Rightarrow> string \<Rightarrow> (('w, 'm) sys_scheme, goerr + unit) state" where
  "popStageMounts E path = popLoop E path maxStageUnmounts"

definition loopBusy :: "'w host \<Rightarrow> string \<Rightarrow> string \<Rightarrow> (('w, 'm) sys_scheme, goerr + bool) state" where
  "loopBusy E sysRoot dev = onErr (IsSourceMounted E dev) id (\<lambda>mounted.
     if mounted then ret (Inr True)
     else do {
       inHost \<leftarrow> IsSourceMountedInHost E dev;
       if inHost = Inr True then ret (Inr True)
       else do {
         holders \<leftarrow> sysc (h_readDir E (joinPath [sysRoot, ''block'', base dev, ''holders'']));
         ret (case holders of
                Inl e \<Rightarrow> if error_is e ErrNotExist then Inr False else Inl e
              | Inr hs \<Rightarrow> Inr (hs \<noteq> []))
       }
     })"

section \<open>Staging\<close>

text \<open>What a stage request says: store, encryption, keys and format (unused for a plaintext volume).\<close>

definition stageParse :: "stageRequest \<Rightarrow> goerr + config \<times> bool \<times> keys \<times> format" where
  "stageParse req =
     (if srVolumeID req = [] \<or> srPath req = [] then Inl (Status InvalidArgument ''volume_id and staging_target_path are required'')
      else case ConfigFromVolumeContext (srContext req) of
        Inl e \<Rightarrow> Inl (Status InvalidArgument ''volume context'')
      | Inr cfg \<Rightarrow>
          if sget (srContext req) ParamEncrypted = ''true'' then
            (case keysFromSecrets (srSecrets req) of Inl e \<Rightarrow> Inl e
             | Inr ks \<Rightarrow> (case formatFromParams (srContext req) True of
                 Inl e \<Rightarrow> Inl (Status InvalidArgument ''encryption format'')
               | Inr f \<Rightarrow> Inr (cfg, True, ks, f)))
          else Inr (cfg, False, \<lparr>Current = [], Previous = []\<rparr>, \<lparr>Cipher = [], KeySize = 0\<rparr>))"

text \<open>A loop already on the image must be idle, and the mapping of an encrypted volume closed.\<close>

definition refuseBusy :: "'w host \<Rightarrow> string \<Rightarrow> string list \<Rightarrow> (('w, 'm) sys_scheme, goerr + unit) state" where
  "refuseBusy E sysRoot loops = forEachE loops (\<lambda>dev.
     onErr (loopBusy E sysRoot dev) (\<lambda>_. Status Internal ''check'') (\<lambda>busy.
       ret (if busy then Inl (Status FailedPrecondition ''volume is already in use on this node'') else Inr ())))"

definition refuseOpen :: "'w host \<Rightarrow> string \<Rightarrow> string \<Rightarrow> bool \<Rightarrow> (('w, 'm) sys_scheme, goerr + unit) state" where
  "refuseOpen E sysRoot v encrypted =
     (if \<not> encrypted then ret (Inr ())
      else onErr (IsOpen E sysRoot (MapperName v)) (\<lambda>_. Status Internal ''list dm-crypt mappings'') (\<lambda>isOpen.
        ret (if isOpen then Inl (Status FailedPrecondition ''volume is already open on this node'') else Inr ())))"

definition detachLoops :: "'w host \<Rightarrow> string list \<Rightarrow> (('w, 'm) sys_scheme, goerr + unit) state" where
  "detachLoops E loops = forEachE loops (\<lambda>dev. onErr (loDetach E dev) (\<lambda>_. Status Internal ''losetup --detach'') (\<lambda>_. ret (Inr ())))"

text \<open>\<^verbatim>\<open>detachOnFail\<close> once an encrypted volume is open, and for a plaintext one.\<close>

definition release :: "'w host \<Rightarrow> string \<Rightarrow> string \<Rightarrow> bool \<Rightarrow> (('w, 'm) sys_scheme, unit) state" where
  "release E v dev encrypted = do {
     (if encrypted then ignore (cryptClose E (MapperName v)) else ret ());
     ignore (loDetach E dev)
   }"

text \<open>Step 1: attach, and for an encrypted volume grow the loop and open the mapping.\<close>

definition attachLoop :: "'w host \<Rightarrow> string \<Rightarrow> int \<Rightarrow> bool \<Rightarrow> (('w, 'm) sys_scheme, goerr + string) state" where
  "attachLoop E imgPath imgSize encrypted =
     onErr (loopSectorSize E imgPath imgSize encrypted) (\<lambda>_. Status Internal ''read sector size'') (\<lambda>sector.
       onErr (loAttach E imgPath sector)
         (\<lambda>e. if error_is e ErrPoolExhausted then Status ResourceExhausted ''loop device pool exhausted'' else Status Internal ''losetup'')
         (\<lambda>dev. ret (Inr dev)))"

definition openTarget :: "'w host \<Rightarrow> string \<Rightarrow> string \<Rightarrow> bool \<Rightarrow> keys \<Rightarrow> format \<Rightarrow> (('w, 'm) sys_scheme, goerr + string \<times> string) state" where
  "openTarget E v dev encrypted ks f =
     (if \<not> encrypted then ret (Inr (dev, []))
      else onFail (SetCapacity E dev) (ignore (loDetach E dev)) (\<lambda>_. Status Internal ''set capacity'') (\<lambda>_.
        onFail (Prepare E dev (MapperName v) ks f) (ignore (loDetach E dev)) cryptStatus (\<lambda>(cryptDev, outcome).
          ret (Inr (cryptDev, cryptDev)))))"

text \<open>Steps 2 to 4: check, grow and mount the file system.\<close>

definition mountTarget :: "'w host \<Rightarrow> stageRequest \<Rightarrow> string \<Rightarrow> string \<Rightarrow> bool \<Rightarrow> (('w, 'm) sys_scheme, goerr + unit) state" where
  "mountTarget E req dev target encrypted =
     (let clean = release E (srVolumeID req) dev encrypted in
      onFail (Fsck E target) clean (\<lambda>_. Status Internal ''fsck'') (\<lambda>_.
      onFail (if encrypted then ret (Inr ()) else SetCapacity E dev) clean (\<lambda>_. Status Internal ''set capacity'') (\<lambda>_.
      onFail (Resize2fs E target) clean (\<lambda>_. Status Internal ''resize2fs'') (\<lambda>_.
      onFail (sysc (h_mkdirAll E (srPath req))) clean (\<lambda>_. Status Internal ''mkdir stage'') (\<lambda>_.
      onFail (doMount E target (srPath req) DefaultFs (mountOptionsFromCap (srCap req))) clean (\<lambda>_. Status Internal ''mount'') (\<lambda>_.
        ret (Inr ())))))))"

definition stagedEntry :: "stageRequest \<Rightarrow> string \<Rightarrow> string \<Rightarrow> string \<Rightarrow> staged" where
  "stagedEntry req imgPath dev cryptDev =
     \<lparr>sVolumeID = srVolumeID req, LoopDev = dev, sImagePath = imgPath, StagePath = srPath req, CryptDev = cryptDev,
      StageContext = Some (srContext req), MountFlags = mountOptionsFromCap (srCap req)\<rparr>"

text \<open>What a successful stage or adoption records after its entry is persisted.\<close>

definition recordStage :: "string \<Rightarrow> keys \<Rightarrow> bool \<Rightarrow> (('w, 'm) node_st_scheme, goerr + unit) state" where
  "recordStage v ks encrypted = do {
     (if encrypted then cacheKeys v ks True else ret ());
     failClear v;
     ret (Inr ())
   }"

text \<open>Step 5: persist the mapping, undoing the mount when that fails.\<close>

definition persistStage :: "'w host \<Rightarrow> nodeServer \<Rightarrow> stageRequest \<Rightarrow> string \<Rightarrow> string \<Rightarrow> string \<Rightarrow> bool \<Rightarrow> keys \<Rightarrow>
    (('w, 'm) node_st_scheme, goerr + unit) state" where
  "persistStage E N req imgPath dev cryptDev encrypted ks =
     onFail (statePut E (nStatePath N) (stagedEntry req imgPath dev cryptDev))
       (do { ignore (Unmount E (srPath req)); release E (srVolumeID req) dev encrypted })
       (\<lambda>_. Status Internal ''persist state'') (\<lambda>_. recordStage (srVolumeID req) ks encrypted)"

text \<open>The stage once its loop device is attached.\<close>

definition stageOn :: "'w host \<Rightarrow> nodeServer \<Rightarrow> stageRequest \<Rightarrow> string \<Rightarrow> string \<Rightarrow> bool \<Rightarrow> keys \<Rightarrow> format \<Rightarrow>
    (('w, 'm) node_st_scheme, goerr + unit) state" where
  "stageOn E N req imgPath dev encrypted ks f =
     onErr (openTarget E (srVolumeID req) dev encrypted ks f) id (\<lambda>(target, cryptDev).
     onErr (mountTarget E req dev target encrypted) id (\<lambda>_.
       persistStage E N req imgPath dev cryptDev encrypted ks))"

definition stageFresh :: "'w host \<Rightarrow> nodeServer \<Rightarrow> stageRequest \<Rightarrow> string \<Rightarrow> int \<Rightarrow> string list \<Rightarrow> bool \<Rightarrow> keys \<Rightarrow> format \<Rightarrow>
    (('w, 'm) node_st_scheme, goerr + unit) state" where
  "stageFresh E N req imgPath imgSize loops encrypted ks f =
     onErr (refuseBusy E (nSysRoot N) loops) id (\<lambda>_.
     onErr (refuseOpen E (nLuksRoot N) (srVolumeID req) encrypted) id (\<lambda>_.
     onErr (detachLoops E loops) id (\<lambda>_.
     onErr (attachLoop E imgPath imgSize encrypted) id (\<lambda>dev.
       stageOn E N req imgPath dev encrypted ks f))))"

text \<open>
  The devices an existing stage mount is adopted from: the mapping of this volume over one of
  the image's loops, or one of the loops itself. \<open>None\<close> is the mount of something else.
\<close>

definition adoptDevices :: "string \<Rightarrow> string list \<Rightarrow> bool \<Rightarrow> mapping list \<Rightarrow> string \<Rightarrow> (string \<times> string) option" where
  "adoptDevices v loops encrypted ms src =
     (if encrypted then
        map_option (\<lambda>m. (mBacking m, src)) (find (\<lambda>m. mName m = MapperName v \<and> mBacking m \<in> set loops) (rev ms))
      else if src \<in> set loops then Some (src, []) else None)"

definition adoptStage :: "'w host \<Rightarrow> nodeServer \<Rightarrow> stageRequest \<Rightarrow> string \<Rightarrow> string list \<Rightarrow> bool \<Rightarrow> keys \<Rightarrow>
    (('w, 'm) node_st_scheme, goerr + unit) state" where
  "adoptStage E N req imgPath loops encrypted ks =
     onErr (Source E (srPath req)) (\<lambda>_. Status Internal ''read stage mount'') (\<lambda>src.
     let ours = (encrypted \<and> src = MapperPath (MapperName (srVolumeID req))) in
     onErr (if ours then cryptList E (nLuksRoot N) else ret (Inr [])) (\<lambda>_. Status Internal ''list dm-crypt mappings'') (\<lambda>ms.
     case adoptDevices (srVolumeID req) loops encrypted ms src of
       None \<Rightarrow> ret (Inl (Status FailedPrecondition ''staging path is already mounted from something else''))
     | Some (dev, cryptDev) \<Rightarrow>
         if dev = [] then ret (Inl (Status FailedPrecondition ''staging path is already mounted from something else''))
         else onErr (statePut E (nStatePath N) (stagedEntry req imgPath dev cryptDev)) (\<lambda>_. Status Internal ''persist state'') (\<lambda>_.
           recordStage (srVolumeID req) ks encrypted)))"

text \<open>With the store resolved: find the image, then adopt the mount that is there or stage afresh.\<close>

definition stageImage :: "'w host \<Rightarrow> nodeServer \<Rightarrow> stageRequest \<Rightarrow> string \<Rightarrow> bool \<Rightarrow> bool \<Rightarrow> keys \<Rightarrow> format \<Rightarrow>
    (('w, 'm) node_st_scheme, goerr + unit) state" where
  "stageImage E N req backing stageMounted encrypted ks f =
     onErr (newManager E backing) (\<lambda>_. Status Internal ''open backing store'') (\<lambda>images. do {
       let imgPath = ImagePath images (srVolumeID req);
       st \<leftarrow> sysc (h_stat E imgPath);
       case st of
         Inl _ \<Rightarrow> do {
           m \<leftarrow> IsMountPoint E backing;
           ret (Inl (if m = Inr False then Status Unavailable ''backing store is not mounted'' else Status NotFound ''image''))
         }
       | Inr info \<Rightarrow>
           onErr (FindBacking E imgPath) (\<lambda>_. Status Internal ''find loop devices'') (\<lambda>loops.
             if stageMounted then adoptStage E N req imgPath loops encrypted ks
             else stageFresh E N req imgPath (fi_size info) loops encrypted ks f)
     })"

definition stageLocked :: "'w host \<Rightarrow> nodeServer \<Rightarrow> stageRequest \<Rightarrow> (('w, 'm) node_st_scheme, goerr + unit) state" where
  "stageLocked E N req = (case stageParse req of Inl e \<Rightarrow> ret (Inl e)
     | Inr (cfg, encrypted, ks, f) \<Rightarrow>
         onErr (regGet E (nRegistry N) cfg) (\<lambda>_. Status Internal ''mount backing store'') (\<lambda>backing.
         case validateCapability (srCap req) of Some e \<Rightarrow> ret (Inl e)
         | None \<Rightarrow> onErr (IsMountPoint E (srPath req)) (\<lambda>_. Status Internal ''check staging path'') (\<lambda>stageMounted. do {
             existing \<leftarrow> stateGet (srVolumeID req);
             if (case existing of Some m \<Rightarrow> StagePath m = srPath req \<and> stageMounted | None \<Rightarrow> False)
             then do {
               (if encrypted then cacheKeys (srVolumeID req) ks False else ret ());
               ret (Inr ())
             }
             else stageImage E N req backing stageMounted encrypted ks f
           })))"

definition NodeStageVolume :: "'w host \<Rightarrow> nodeServer \<Rightarrow> stageRequest \<Rightarrow> (('w, 'm) node_st_scheme, goerr + unit) state" where
  "NodeStageVolume E N req =
     (if srVolumeID req = [] \<or> srPath req = [] then ret (Inl (Status InvalidArgument ''volume_id and staging_target_path are required''))
      else do { lockVolume (srVolumeID req); stageLocked E N req })"

section \<open>Unstaging\<close>

definition unstageClose :: "'w host \<Rightarrow> string \<Rightarrow> staged option \<Rightarrow> (('w, 'm) sys_scheme, goerr + unit) state" where
  "unstageClose E v m = (case m of
       Some e \<Rightarrow> if CryptDev e \<noteq> []
         then onErr (cryptClose E (base (CryptDev e))) (\<lambda>_. Status Internal ''cryptsetup close'') (\<lambda>_. ret (Inr ()))
         else ret (Inr ())
     | None \<Rightarrow> do { ignore (cryptClose E (MapperName v)); ret (Inr ()) })"

text \<open>The loops to detach: those on the image by its name, and the entry's own when the image was silly-renamed.\<close>

definition unstageMatch :: "string \<Rightarrow> staged option \<Rightarrow> attachment \<Rightarrow> bool" where
  "unstageMatch v m a \<longleftrightarrow> base (BackFile a) = v @ ImageExt
     \<or> (case m of Some e \<Rightarrow> Device a = LoopDev e \<and> SillyRenamed (BackFile a) | None \<Rightarrow> False)"

definition forgetVolume :: "'w host \<Rightarrow> nodeServer \<Rightarrow> string \<Rightarrow> staged option \<Rightarrow> (('w, 'm) node_st_scheme, goerr + unit) state" where
  "forgetVolume E N v m = do {
     forgetKeys v;
     (if m \<noteq> None then ignore (stateDelete E (nStatePath N) v) else ret ());
     failClear v;
     ret (Inr ())
   }"

definition NodeUnstageVolume :: "'w host \<Rightarrow> nodeServer \<Rightarrow> string \<Rightarrow> string \<Rightarrow> (('w, 'm) node_st_scheme, goerr + unit) state" where
  "NodeUnstageVolume E N v stagePath =
     (if v = [] \<or> stagePath = [] then ret (Inl (Status InvalidArgument ''volume_id and staging_target_path are required''))
      else do {
        lockVolume v;
        onErr (popStageMounts E stagePath) id (\<lambda>_. do {
          ignore (sysc (h_remove E stagePath));
          m \<leftarrow> stateGet v;
          onErr (unstageClose E v m) id (\<lambda>_.
          onErr (loFind E (unstageMatch v m)) (\<lambda>_. Status Internal ''find loop devices'') (\<lambda>loops.
          onErr (detachLoops E loops) id (\<lambda>_. forgetVolume E N v m)))
        })
      })"

section \<open>Publishing\<close>

definition podInfoName :: string where
  "podInfoName = ''csi.storage.k8s.io/pod.name''"

definition podInfoNamespace :: string where
  "podInfoNamespace = ''csi.storage.k8s.io/pod.namespace''"

definition podInfoUID :: string where
  "podInfoUID = ''csi.storage.k8s.io/pod.uid''"

definition EventReasonVolumeFailed :: string where
  "EventReasonVolumeFailed = ''FileblockVolumeFailed''"

definition publishEvent :: "'w host \<Rightarrow> nodeServer \<Rightarrow> publishRequest \<Rightarrow> string \<Rightarrow> (('w, 'm) kube_st_scheme, unit) state" where
  "publishEvent E N req msg =
     (let vc = prContext req;
          p = \<lparr>pName = sget vc podInfoName, pNamespace = sget vc podInfoNamespace, pUID = sget vc podInfoUID,
               DeletionTimestamp = None, OwnerReferences = [], NodeName = [], StartTime = None\<rparr>
      in case nKube N of
           None \<Rightarrow> ret ()
         | Some k \<Rightarrow> if pName p = [] \<or> pNamespace p = [] \<or> pUID p = [] then ret ()
                   else ignore (PodEvent E k p EventReasonVolumeFailed msg))"

text \<open>The secret a re-stage passes on, rebuilt from the cached keys.\<close>

definition restageSecrets :: "keys \<Rightarrow> smap" where
  "restageSecrets k = (secretKey, Current k) # (if Previous k \<noteq> [] then [(secretPreviousKey, Previous k)] else [])"

definition restageRequest :: "string \<Rightarrow> staged \<Rightarrow> smap \<Rightarrow> smap \<Rightarrow> stageRequest" where
  "restageRequest v m ctx secrets = \<lparr>srVolumeID = v, srPath = StagePath m, srContext = ctx, srSecrets = secrets,
     srCap = Some \<lparr>AccessType = MountVolume [] (MountFlags m), AccessMode = SINGLE_NODE_WRITER\<rparr>\<rparr>"

text \<open>A target that still publishes the volume: any, the request's own too.\<close>

definition stillPublished :: "mountinfo list \<Rightarrow> string \<Rightarrow> bool" where
  "stillPublished entries stagePath = (case LastAt entries stagePath of
     Some e \<Rightarrow> PublishTargets entries (MajorMinor e) \<noteq> [] | None \<Rightarrow> False)"

text \<open>The key of an encrypted volume, when it is in memory.\<close>

definition restageKeys :: "'w host \<Rightarrow> nodeServer \<Rightarrow> publishRequest \<Rightarrow> smap \<Rightarrow> (('w, 'm) node_st_scheme, goerr + smap) state" where
  "restageKeys E N req ctx =
     (if sget ctx ParamEncrypted = ''true'' then do {
        k \<leftarrow> gets (\<lambda>s. gm_get (nkeys s) (prVolumeID req));
        case k of
          Some ks \<Rightarrow> ret (Inr (restageSecrets ks))
        | None \<Rightarrow> do {
            publishEvent E N req (''fileblock volume '' @ prVolumeID req @
              '' failed and its key is not in memory (the node plugin restarted); delete this pod to recover'');
            ret (Inl (Status Unavailable ''volume failed and cannot be re-staged without its key''))
          }
      }
      else ret (Inr []))"

text \<open>The devices of a failed volume are released; the entry stays, without them.\<close>

definition tearDown :: "'w host \<Rightarrow> nodeServer \<Rightarrow> staged \<Rightarrow> (('w, 'm) node_st_scheme, goerr + unit) state" where
  "tearDown E N m =
     onErr (popStageMounts E (StagePath m)) (\<lambda>_. Status Internal ''re-stage'') (\<lambda>_.
       if LoopDev m = [] then ret (Inr ())
       else onErr (if CryptDev m \<noteq> [] then cryptClose E (base (CryptDev m)) else ret (Inr ()))
              (\<lambda>_. Status Internal ''re-stage: cryptsetup close'') (\<lambda>_.
            onErr (loDetach E (LoopDev m)) (\<lambda>_. Status Internal ''re-stage: losetup --detach'') (\<lambda>_.
            onErr (statePut E (nStatePath N) (m\<lparr>LoopDev := [], CryptDev := []\<rparr>)) (\<lambda>_. Status Internal ''re-stage: persist state'')
              (\<lambda>_. ret (Inr ())))))"

definition restageEntry :: "'w host \<Rightarrow> nodeServer \<Rightarrow> publishRequest \<Rightarrow> staged \<Rightarrow> (('w, 'm) node_st_scheme, goerr + unit) state" where
  "restageEntry E N req m = (case StageContext m of
       None \<Rightarrow> do {
         publishEvent E N req (''fileblock volume '' @ prVolumeID req @
           '' failed and was staged by an older version; delete this pod to recover'');
         ret (Inl (Status Unavailable ''volume failed and was staged by an older version''))
       }
     | Some ctx \<Rightarrow>
         onErr (restageKeys E N req ctx) id (\<lambda>secrets.
         onErr (tearDown E N m) id (\<lambda>_.
         onErr (stageLocked E N (restageRequest (prVolumeID req) m ctx secrets)) (\<lambda>_. Status Internal ''re-stage'')
           (\<lambda>_. ret (Inr ())))))"

definition restageFailed :: "'w host \<Rightarrow> nodeServer \<Rightarrow> publishRequest \<Rightarrow> (('w, 'm) node_st_scheme, goerr + unit) state" where
  "restageFailed E N req = do {
     lockVolume (prVolumeID req);
     failure \<leftarrow> failGet (prVolumeID req);
     case failure of None \<Rightarrow> ret (Inr ())
     | Some _ \<Rightarrow> do {
         entry \<leftarrow> stateGet (prVolumeID req);
         case entry of
           None \<Rightarrow> ret (Inl (Status Unavailable ''volume failed and has no state entry''))
         | Some m \<Rightarrow>
             onErr (ReadMountInfo E (nMountInfo N)) (\<lambda>_. Status Internal ''read mountinfo'') (\<lambda>entries.
               if stillPublished entries (StagePath m)
               then ret (Inl (Status Unavailable ''volume failed and is still published''))
               else restageEntry E N req m)
       }
   }"

definition NodePublishVolume :: "'w host \<Rightarrow> nodeServer \<Rightarrow> publishRequest \<Rightarrow> (('w, 'm) node_st_scheme, goerr + unit) state" where
  "NodePublishVolume E N req =
     (if prVolumeID req = [] \<or> prStage req = [] \<or> prTarget req = []
      then ret (Inl (Status InvalidArgument ''volume_id, staging_target_path, target_path are required''))
      else case validateCapability (prCap req) of Some e \<Rightarrow> ret (Inl e)
      | None \<Rightarrow> do {
          failure \<leftarrow> failGet (prVolumeID req);
          onErr (if failure \<noteq> None then restageFailed E N req else ret (Inr ())) id (\<lambda>_.
          onErr (sysc (h_mkdirAll E (prTarget req))) (\<lambda>_. Status Internal ''mkdir target'') (\<lambda>_. do {
            mounted \<leftarrow> IsMountPoint E (prTarget req);
            if mounted = Inr True then ret (Inr ())
            else onErr (BindMount E (prStage req) (prTarget req) (prReadonly req)) (\<lambda>_. Status Internal ''bind mount'') (\<lambda>_. ret (Inr ()))
          }))
        })"

definition NodeUnpublishVolume :: "'w host \<Rightarrow> string \<Rightarrow> string \<Rightarrow> (('w, 'm) node_st_scheme, goerr + unit) state" where
  "NodeUnpublishVolume E v target =
     (if v = [] \<or> target = [] then ret (Inl (Status InvalidArgument ''volume_id and target_path are required''))
      else onErr (Unmount E target) (\<lambda>_. Status Internal ''umount target'') (\<lambda>_. do {
        ignore (sysc (h_remove E target));
        ret (Inr ())
      }))"

section \<open>Statistics and expansion\<close>

text \<open>Total, available and used bytes and inodes, in 64-bit arithmetic, and the volume condition.\<close>

record volumeStats =
  totalBytes :: int
  availableBytes :: int
  usedBytes :: int
  totalInodes :: int
  availableInodes :: int
  usedInodes :: int
  Abnormal :: bool
  condMessage :: string

definition condition :: "int option \<Rightarrow> bool \<times> string" where
  "condition failure = (case failure of
       None \<Rightarrow> (False, ''volume is healthy'')
     | Some t \<Rightarrow> (True, ''ext4 forced the staged filesystem read-only at '' @ formatTime t @
         ''; the backing file is unusable until the volume is re-staged''))"

definition usage :: "statfs \<Rightarrow> int option \<Rightarrow> volumeStats" where
  "usage st since =
     (let total = wrap64 (wrap64 (st_blocks st) * st_bsize st); free = wrap64 (wrap64 (st_bavail st) * st_bsize st)
      in \<lparr>totalBytes = total, availableBytes = free, usedBytes = wrap64 (total - free),
          totalInodes = wrap64 (st_files st), availableInodes = wrap64 (st_ffree st), usedInodes = wrap64 (st_files st - st_ffree st),
          Abnormal = fst (condition since), condMessage = snd (condition since)\<rparr>)"

definition NodeGetVolumeStats :: "'w host \<Rightarrow> string \<Rightarrow> string \<Rightarrow> (('w, 'm) node_st_scheme, goerr + volumeStats) state" where
  "NodeGetVolumeStats E v path =
     (if v = [] then ret (Inl (Status InvalidArgument ''volume_id is required''))
      else if path = [] then ret (Inl (Status InvalidArgument ''volume_path is required''))
      else do {
        entry \<leftarrow> stateGet v;
        if entry = None then ret (Inl (Status NotFound ''volume not staged on this node''))
        else onErr (sysc (h_stat E path))
            (\<lambda>e. if error_is e ErrNotExist then Status NotFound ''volume_path does not exist'' else Status Internal ''stat'') (\<lambda>_.
          onErr (sysc (h_statfs E path)) (\<lambda>_. Status Internal ''statfs'') (\<lambda>st. do {
            failure \<leftarrow> failGet v;
            ret (Inr (usage st failure))
          }))
      })"

text \<open>The answer is the required size, or zero without a range.\<close>

definition NodeExpandVolume :: "'w host \<Rightarrow> string \<Rightarrow> string \<Rightarrow> capacityRange option \<Rightarrow> (('w, 'm) node_st_scheme, goerr + int) state" where
  "NodeExpandVolume E v path r =
     (if v = [] then ret (Inl (Status InvalidArgument ''volume_id is required''))
      else if path = [] then ret (Inl (Status InvalidArgument ''volume_path is required''))
      else do {
        entry \<leftarrow> stateGet v;
        case entry of None \<Rightarrow> ret (Inl (Status NotFound ''volume not staged on this node''))
        | Some m \<Rightarrow>
            onErr (SetCapacity E (LoopDev m)) (\<lambda>_. Status Internal ''set capacity'') (\<lambda>_.
            onErr (if CryptDev m \<noteq> [] then cryptResize E (base (CryptDev m)) else ret (Inr ())) (\<lambda>_. Status Internal ''cryptsetup resize'') (\<lambda>_.
            onErr (Resize2fs E (if CryptDev m \<noteq> [] then CryptDev m else LoopDev m)) (\<lambda>_. Status Internal ''resize2fs'') (\<lambda>_.
              ret (Inr (case r of None \<Rightarrow> 0 | Some c \<Rightarrow> RequiredBytes c)))))
      })"

end
