(* ===== verification/Node_Props.thy ===== *)
theory Node_Props
  imports Node
begin

text \<open>
  What the node service guarantees: an invariant of its tables that every call keeps, that a stage
  completes or is undone, that unstaging forgets a volume, and how a failed volume is re-staged.
\<close>

section \<open>What the node operations leave alone\<close>

text \<open>Predicates of the staged volumes, the cached keys and the failure marks only.\<close>

definition nstable :: "(('w, 'm) node_st_scheme \<Rightarrow> bool) \<Rightarrow> bool" where
  "nstable I \<longleftrightarrow> (\<forall>s t. lstate t = lstate s \<longrightarrow> nkeys t = nkeys s \<longrightarrow> failed t = failed s \<longrightarrow> I s \<longrightarrow> I t)"

lemma nstable_modify: "nstable I \<Longrightarrow> (\<And>s. lstate (f s) = lstate s \<and> nkeys (f s) = nkeys s \<and> failed (f s) = failed s) \<Longrightarrow> keeps I (modify f)"
  by (simp add: nstable_def keeps_def)

lemma nstable_stable: "nstable I \<Longrightarrow> stable I" "nstable I \<Longrightarrow> kstable I" "nstable I \<Longrightarrow> rstable I"
  by (simp_all add: nstable_def stable_def kstable_def rstable_def)

lemma nstable_regGet:
  fixes I :: "('w, 'm) node_st_scheme \<Rightarrow> bool"
  assumes I: "nstable I"
  shows "keeps I (regGet E R cfg)"
proof -
  have m: "keeps I (regMountNew E R cfg)"
  proof (cases "mounterFor E R (Type cfg) :: goerr + (string \<Rightarrow> config \<Rightarrow> (('w, 'm) node_st_scheme, goerr + unit) state)")
    case (Inr mnt)
    then show ?thesis unfolding regMountNew_def
      by (simp, intro kept nstable_stable keeps_mounterFor [OF _ Inr] nstable_modify I) simp_all
  qed (simp add: regMountNew_def, intro kept nstable_stable I)
  show ?thesis unfolding regGet_def regMount_def regCached_def regStore_def
    by (intro kept nstable_stable m nstable_modify I; simp)
qed

lemma stable_popLoop: "stable I \<Longrightarrow> keeps I (popLoop E path k)"
proof (induction k)
  case 0
  show ?case unfolding popLoop.simps [of E path 0] nat.case by (intro kept 0)
next
  case (Suc k)
  show ?case unfolding popLoop.simps [of E path "Suc k"] nat.case by (intro kept Suc)
qed

lemma stable_node [kept]:
  assumes "stable I"
  shows "keeps I (popStageMounts E path)" "keeps I (loopSectorSize E p n b)" "keeps I (loopBusy E r d)"
    "keeps I (release E v d b)" "keeps I (detachLoops E ds)" "keeps I (unstageClose E v m)"
  unfolding popStageMounts_def loopSectorSize_def loopBusy_def release_def detachLoops_def unstageClose_def
  by (intro kept stable_popLoop assms)+

lemma stable_stage [kept]:
  assumes "stable I"
  shows "keeps I (refuseBusy E r ds)" "keeps I (refuseOpen E r v b)" "keeps I (attachLoop E p n b)"
    "keeps I (openTarget E v d b ks f)" "keeps I (mountTarget E req d t b)"
  unfolding refuseBusy_def refuseOpen_def attachLoop_def openTarget_def mountTarget_def Let_def
  by (intro kept stable_node assms)+

section \<open>The invariant\<close>

text \<open>
  Keys and failure marks belong to volumes in the table, and a cached key is one a stage request
  could bring again.
\<close>

definition node_inv :: "('w, 'm) node_st_scheme \<Rightarrow> bool" where
  "node_inv s \<longleftrightarrow> lstate_inv s \<and> gm_wf (nkeys s) \<and> gm_wf (failed s)
     \<and> (\<forall>v k. gm_get (nkeys s) v = Some k \<longrightarrow> gm_get (lstate s) v \<noteq> None \<and> MinKeyLen \<le> length (Current k))
     \<and> (\<forall>v. gm_get (failed s) v \<noteq> None \<longrightarrow> gm_get (lstate s) v \<noteq> None)"

lemma nstable_inv: "nstable node_inv"
  by (simp add: nstable_def node_inv_def lstate_inv_def)

lemmas inv_stable [kept] = nstable_stable [OF nstable_inv]

lemma keeps_inv_small [kept]:
  "keeps node_inv (lockVolume v)" "keeps node_inv (failClear v)" "keeps node_inv (forgetKeys v)" "keeps node_inv (failGet v)"
  "keeps node_inv (statePut E path m)" "keeps node_inv (regGet E R cfg)" "keeps node_inv (publishEvent E N req msg)"
proof -
  show "keeps node_inv (statePut E path m)" unfolding statePut_def
    by (intro keeps_bind keeps_flush nstable_stable nstable_inv)
      (auto simp: keeps_def node_inv_def lstate_inv_def gm_get_put split: if_splits)
  show "keeps node_inv (lockVolume v)" unfolding lockVolume_def by (rule nstable_modify [OF nstable_inv]) simp
  show "keeps node_inv (regGet E R cfg)" by (rule nstable_regGet [OF nstable_inv])
  show "keeps node_inv (publishEvent E N req msg)" unfolding publishEvent_def Let_def by (intro kept)
qed (auto simp: keeps_def failClear_def forgetKeys_def failGet_def node_inv_def lstate_inv_def gm_get_del split: if_splits)

lemma wp_ret_fun: "wp (ret x) Q = Q x"
  by (rule ext) (rule wp_ret)

lemma stageParse_key: "stageParse req = Inr (cfg, encrypted, ks, f) \<Longrightarrow> encrypted \<Longrightarrow> MinKeyLen \<le> length (Current ks)"
  by (auto simp: stageParse_def keysFromSecrets_def Let_def split: if_splits sum.splits)

lemma wp_statePut: "node_inv s \<Longrightarrow> wp (statePut E path m) (\<lambda>r s'. node_inv s' \<and> gm_get (lstate s') (sVolumeID m) \<noteq> None) s"
  by (rule wpI) (auto simp: keeps_run [OF keeps_inv_small(5)] gm_get_put dest!: statePut_lstate)

lemma cacheKeys_inv:
  "node_inv s \<Longrightarrow> gm_get (lstate s) v \<noteq> None \<Longrightarrow> MinKeyLen \<le> length (Current ks) \<Longrightarrow> wp (cacheKeys v ks b) (\<lambda>_. node_inv) s"
  by (auto simp: cacheKeys_def wps node_inv_def lstate_inv_def gm_get_put split: if_splits)

lemma recordStage_inv:
  "node_inv s \<Longrightarrow> gm_get (lstate s) v \<noteq> None \<Longrightarrow> encrypted \<longrightarrow> MinKeyLen \<le> length (Current ks) \<Longrightarrow>
     wp (recordStage v ks encrypted) (\<lambda>_. node_inv) s"
proof -
  assume s: "node_inv s" "gm_get (lstate s) v \<noteq> None" "encrypted \<longrightarrow> MinKeyLen \<le> length (Current ks)"
  have c: "keeps node_inv (State_Monad.bind (failClear v) (\<lambda>_. ret (Inr ())))" by (intro kept)
  have "wp (if encrypted then cacheKeys v ks True else ret ()) (\<lambda>_. node_inv) s" using s by (simp add: wps cacheKeys_inv)
  then show ?thesis
    unfolding recordStage_def wp_bind [of "if encrypted then _ else _"] by (rule wp_mono) (rule keeps_wp [OF c])
qed

lemma keeps_persist:
  assumes "encrypted \<longrightarrow> MinKeyLen \<le> length (Current ks)"
  shows "keeps node_inv (persistStage E N req imgPath dev cryptDev encrypted ks)"
proof (rule keepsI)
  fix s :: "('a, 'b) node_st_scheme"
  assume s: "node_inv s"
  have c: "keeps node_inv (State_Monad.bind (ignore (Unmount E (srPath req))) (\<lambda>_. release E (srVolumeID req) dev encrypted))"
    by (intro kept)
  show "wp (persistStage E N req imgPath dev cryptDev encrypted ks) (\<lambda>_. node_inv) s"
    unfolding persistStage_def wp_onFail
    by (rule wp_mono [OF wp_statePut [OF s]])
      (auto simp: stagedEntry_def recordStage_inv assms keeps_wp [OF c] split: sum.split)
qed

lemma keeps_adopt:
  fixes E :: "'w host"
  assumes "encrypted \<longrightarrow> MinKeyLen \<le> length (Current ks)"
  shows "keeps (node_inv :: ('w, 'm) node_st_scheme \<Rightarrow> bool) (adoptStage E N req imgPath loops encrypted ks)"
proof -
  have p: "keeps (node_inv :: ('w, 'm) node_st_scheme \<Rightarrow> bool) (onErr (statePut E (nStatePath N) (stagedEntry req imgPath dev cryptDev)) (\<lambda>_. Status Internal ''persist state'')
      (\<lambda>_. recordStage (srVolumeID req) ks encrypted))" for dev cryptDev
    by (rule keepsI, unfold wp_onErr, erule wp_mono [OF wp_statePut]) (auto simp: stagedEntry_def recordStage_inv assms split: sum.split)
  show ?thesis unfolding adoptStage_def Let_def by (intro p kept)
qed

lemma keeps_stageImage:
  assumes "encrypted \<longrightarrow> MinKeyLen \<le> length (Current ks)"
  shows "keeps node_inv (stageImage E N req backing b encrypted ks f)"
  unfolding stageImage_def stageFresh_def stageOn_def Let_def by (intro kept keeps_adopt keeps_persist assms)

lemma keeps_staged_before:
  assumes "encrypted \<longrightarrow> MinKeyLen \<le> length (Current ks)"
  shows "keeps node_inv (do {
     existing \<leftarrow> stateGet v;
     if (case existing of Some m \<Rightarrow> P m | None \<Rightarrow> False)
     then do { (if encrypted then cacheKeys v ks False else ret ()); ret (Inr ()) }
     else stageImage E N req backing b encrypted ks f })"
proof (rule keepsI)
  fix s :: "('a, 'b) node_st_scheme"
  assume s: "node_inv s"
  show "wp (do {
     existing \<leftarrow> stateGet v;
     if (case existing of Some m \<Rightarrow> P m | None \<Rightarrow> False)
     then do { (if encrypted then cacheKeys v ks False else ret ()); ret (Inr ()) }
     else stageImage E N req backing b encrypted ks f }) (\<lambda>_. node_inv) s"
    using cacheKeys_inv [OF s, of v ks] keeps_wp [OF keeps_stageImage [OF assms] s] s assms
    by (auto simp: stateGet_def wp_bind wp_gets wp_ret_fun split: option.split)
qed

lemma keeps_stageLocked [kept]: "keeps node_inv (stageLocked E N req)"
proof (cases "stageParse req")
  case (Inr r)
  obtain cfg encrypted ks f where r: "r = (cfg, encrypted, ks, f)" by (cases r)
  have k: "encrypted \<longrightarrow> MinKeyLen \<le> length (Current ks)" using stageParse_key Inr r by blast
  show ?thesis
    unfolding stageLocked_def Inr r sum.case prod.case by (intro keeps_onErr keeps_case_option keeps_ret keeps_staged_before k kept)
qed (simp add: stageLocked_def keeps_ret)

lemma keeps_restage: "keeps node_inv (restageFailed E N req)"
  unfolding restageFailed_def restageEntry_def restageKeys_def tearDown_def stateGet_def failGet_def Let_def by (intro kept)

text \<open>The tables a device operation does not touch.\<close>

abbreviation sameKeys :: "('w, 'm) node_st_scheme \<Rightarrow> ('w, 'm) node_st_scheme \<Rightarrow> bool" where
  "sameKeys s t \<equiv> nkeys t = nkeys s \<and> failed t = failed s"

lemma stable_sameKeys: "stable (sameKeys s)"
  by (simp add: stable_def)

text \<open>Unstaging forgets a volume completely.\<close>

lemma forgetVolume_run:
  assumes "run_state (forgetVolume E N v m) s = (r, s')"
  shows "r = Inr ()" "nkeys s' = gm_del v (nkeys s)" "failed s' = gm_del v (failed s)"
    "lstate s' = (if m = None then lstate s else gm_del v (lstate s))" "calls s' = calls s"
proof -
  let ?t = "s\<lparr>nkeys := gm_del v (nkeys s)\<rparr>" and ?d = "if m \<noteq> None then ignore (stateDelete E (nStatePath N) v) else ret ()"
  obtain u t where t: "run_state ?d ?t = (u, t)" by (rule prod.exhaust)
  have "keeps (sameKeys ?t) ?d" unfolding stateDelete_def by (intro kept keeps_flush stable_sameKeys) (simp_all add: keeps_def)
  from keeps_run [OF this _ t] have "nkeys t = gm_del v (nkeys s)" "failed t = failed s" by simp_all
  moreover have "lstate t = (if m = None then lstate s else gm_del v (lstate s))"
    using t by (auto simp: run_ignore stateDelete_lstate [OF surjective_pairing])
  moreover have "logs (\<lambda>_. False) ?d" unfolding stateDelete_def by (intro logged logs_flush) simp
  from logs_none [OF this, of ?t] t have "calls t = calls s" by simp
  ultimately show "r = Inr ()" "nkeys s' = gm_del v (nkeys s)" "failed s' = gm_del v (failed s)"
    "lstate s' = (if m = None then lstate s else gm_del v (lstate s))" "calls s' = calls s"
    using assms t by (auto simp: forgetVolume_def forgetKeys_def failClear_def)
qed

lemma forgets_inv: "keeps node_inv (forgetVolume E N v m)"
  unfolding keeps_def
proof (intro allI impI)
  fix s :: "('a, 'b) node_st_scheme"
  assume s: "node_inv s"
  obtain r s' where f: "run_state (forgetVolume E N v m) s = (r, s')" by (rule prod.exhaust)
  from forgetVolume_run(2,3,4) [OF f] s f show "node_inv (snd (run_state (forgetVolume E N v m) s))"
    by (auto simp: node_inv_def lstate_inv_def gm_get_del)
qed

lemma keeps_node [kept]:
  "keeps node_inv (NodeStageVolume E N rq)" "keeps node_inv (NodeUnstageVolume E N v path)" "keeps node_inv (NodePublishVolume E N pr)"
  "keeps node_inv (NodeUnpublishVolume E v path)" "keeps node_inv (NodeGetVolumeStats E v path)" "keeps node_inv (NodeExpandVolume E v path r)"
  unfolding NodeStageVolume_def NodeUnstageVolume_def NodePublishVolume_def NodeUnpublishVolume_def NodeGetVolumeStats_def NodeExpandVolume_def
    stateGet_def failGet_def
  by (intro kept keeps_restage forgets_inv)+

section \<open>Staging\<close>

text \<open>\<open>runs cs m\<close>: whatever its outcome, \<open>m\<close> runs exactly the commands \<open>cs\<close>.\<close>

definition runs :: "cmd list \<Rightarrow> (('w, 'm) sys_scheme, 'a) state \<Rightarrow> bool" where
  "runs cs m \<longleftrightarrow> (\<forall>s. calls (snd (run_state m s)) = calls s @ cs)"

lemma runsD: "runs cs m \<Longrightarrow> run_state m s = (r, s') \<Longrightarrow> calls s' = calls s @ cs"
  by (auto simp: runs_def dest!: spec [of _ s])

lemma runs_ignore: "runs cs m \<Longrightarrow> runs cs (ignore m)"
  by (simp add: runs_def run_ignore)

definition detachCmd :: "string \<Rightarrow> cmd" where
  "detachCmd dev = plain ''losetup'' [''--detach'', dev]"

definition mountCmds :: "stageRequest \<Rightarrow> string \<Rightarrow> string \<Rightarrow> bool \<Rightarrow> cmd list" where
  "mountCmds req dev target encrypted =
     plain ''e2fsck'' [''-p'', ''-f'', target] # (if encrypted then [] else [plain ''losetup'' [''--set-capacity'', dev]])
     @ [plain ''resize2fs'' [target],
        (let opts = mountOptionsFromCap (srCap req) in
         plain ''mount'' ([''-t'', DefaultFs] @ (if opts \<noteq> [] then [''-o'', join '','' opts] else []) @ [target, srPath req]))]"

lemma runs_tools:
  "runs [plain ''e2fsck'' [''-p'', ''-f'', t]] (Fsck E t)"
  "runs [plain ''losetup'' [''--set-capacity'', d]] (SetCapacity E d)"
  "runs [plain ''resize2fs'' [t]] (Resize2fs E t)"
  "runs [plain ''mount'' ([''-t'', fs] @ (if opts \<noteq> [] then [''-o'', join '','' opts] else []) @ [t, p])] (doMount E t p fs opts)"
  "runs [detachCmd d] (loDetach E d)"
  "runs [closeCmd n] (cryptClose E n)"
  by (simp_all add: runs_def Fsck_def SetCapacity_def Resize2fs_def doMount_def loDetach_def cryptClose_def detachCmd_def
      RunE_def Run_def RunCmdE_def run_onErr run_RunCmd split: sum.split prod.split option.split)

lemma runs_release: "runs ((if encrypted then [closeCmd (MapperName v)] else []) @ [detachCmd dev]) (release E v dev encrypted)"
  using runs_tools(5) [of dev E] runs_tools(6) [of "MapperName v" E]
  by (auto simp: runs_def release_def run_ignore split: prod.split)

text \<open>The device a volume is mounted from.\<close>

definition targetOf :: "string \<Rightarrow> string \<Rightarrow> bool \<Rightarrow> string" where
  "targetOf v dev encrypted = (if encrypted then MapperPath (MapperName v) else dev)"

text \<open>\<open>attempts cs u m\<close>: \<open>m\<close> runs all of \<open>cs\<close> and succeeds, or stops somewhere in \<open>cs\<close>, runs \<open>u\<close> and fails.\<close>

definition attempts :: "cmd list \<Rightarrow> cmd list \<Rightarrow> (('w, 'm) sys_scheme, goerr + 'a) state \<Rightarrow> bool" where
  "attempts cs u m \<longleftrightarrow> (\<forall>s. case run_state m s of
       (Inr _, s') \<Rightarrow> calls s' = calls s @ cs
     | (Inl _, s') \<Rightarrow> \<exists>n. calls s' = calls s @ take n cs @ u)"

lemma attempts_ret: "attempts [] u (ret (Inr x))"
  by (simp add: attempts_def)

lemma attempts_step:
  assumes "runs c m" "runs u cl" "\<And>x. attempts cs u (k x)"
  shows "attempts (c @ cs) u (onFail m cl h k)"
  unfolding attempts_def
proof
  fix s
  obtain r s1 where m: "run_state m s = (r, s1)" by (rule prod.exhaust)
  have c: "calls s1 = calls s @ c" by (rule runsD [OF assms(1) m])
  show "case run_state (onFail m cl h k) s of (Inr _, s') \<Rightarrow> calls s' = calls s @ c @ cs | (Inl _, s') \<Rightarrow> \<exists>n. calls s' = calls s @ take n (c @ cs) @ u"
  proof (cases r)
    case (Inl e)
    have "calls (snd (run_state cl s1)) = calls s @ c @ u" using assms(2) c by (simp add: runs_def)
    then show ?thesis using m Inl by (auto simp: run_onFail intro!: exI [of _ "length c"])
  next
    case (Inr x)
    obtain r2 s2 where k: "run_state (k x) s1 = (r2, s2)" by (rule prod.exhaust)
    have "\<exists>i. c @ take n cs = take i c @ take (i - length c) cs" for n by (rule exI [of _ "length c + n"]) simp
    moreover have "case (r2, s2) of (Inr _, s') \<Rightarrow> calls s' = calls s1 @ cs | (Inl _, s') \<Rightarrow> \<exists>n. calls s' = calls s1 @ take n cs @ u"
      using assms(3) [of x] k unfolding attempts_def by (metis (no_types, lifting))
    ultimately show ?thesis using m Inr k c by (auto simp: run_onFail split: sum.splits)
  qed
qed

lemma runs_pure: "runs [] (sysc f)" "runs [] (ret x)"
  by (simp_all add: runs_def run_sysc)

abbreviation undoCmds :: "string \<Rightarrow> string \<Rightarrow> bool \<Rightarrow> cmd list" where
  "undoCmds v dev encrypted \<equiv> (if encrypted then [closeCmd (MapperName v)] else []) @ [detachCmd dev]"

lemma mountTarget_cmds:
  "attempts (mountCmds req dev target encrypted) (undoCmds (srVolumeID req) dev encrypted) (mountTarget E req dev target encrypted)"
proof -
  let ?o = "mountOptionsFromCap (srCap req)"
  have "mountCmds req dev target encrypted = [plain ''e2fsck'' [''-p'', ''-f'', target]]
     @ (if encrypted then [] else [plain ''losetup'' [''--set-capacity'', dev]]) @ [plain ''resize2fs'' [target]] @ []
     @ [plain ''mount'' ([''-t'', DefaultFs] @ (if ?o \<noteq> [] then [''-o'', join '','' ?o] else []) @ [target, srPath req])] @ []"
    by (simp add: mountCmds_def)
  moreover have "runs (if encrypted then [] else [plain ''losetup'' [''--set-capacity'', dev]]) (if encrypted then ret (Inr ()) else SetCapacity E dev)"
    using runs_pure(2) runs_tools(2) by auto
  ultimately show ?thesis
    unfolding mountTarget_def Let_def by (simp only:) (intro attempts_step runs_tools runs_release runs_pure attempts_ret; assumption?)
qed

text \<open>The commands of opening a volume only matter in that the last one of a failure detaches.\<close>

definition ends :: "cmd \<Rightarrow> (('w, 'm) sys_scheme, goerr + 'a) state \<Rightarrow> bool" where
  "ends c m \<longleftrightarrow> (\<forall>s. \<exists>cs. calls (snd (run_state m s)) = calls s @ cs \<and> (isl (fst (run_state m s)) \<longrightarrow> cs \<noteq> [] \<and> last cs = c))"

lemma endsD: "ends c m \<Longrightarrow> run_state m s = (r, s') \<Longrightarrow> \<exists>cs. calls s' = calls s @ cs \<and> (isl r \<longrightarrow> cs \<noteq> [] \<and> last cs = c)"
  by (auto simp: ends_def dest!: spec [of _ s])

lemma ends_ret: "ends c (ret (Inr x))"
  by (simp add: ends_def)

lemma ends_attempts: "attempts cs (u @ [c]) m \<Longrightarrow> ends c m"
  unfolding attempts_def ends_def by (intro allI, drule_tac x = s in spec) (fastforce split: prod.splits sum.splits)

lemma ends_onErr:
  assumes "ends c m" "\<And>x. ends c (k x)"
  shows "ends c (onErr m id k)"
  unfolding ends_def
proof
  fix s
  obtain r s1 where m: "run_state m s = (r, s1)" by (rule prod.exhaust)
  show "\<exists>cs. calls (snd (run_state (onErr m id k) s)) = calls s @ cs \<and> (isl (fst (run_state (onErr m id k) s)) \<longrightarrow> cs \<noteq> [] \<and> last cs = c)"
  proof (cases r)
    case (Inr x)
    obtain r2 s2 where k: "run_state (k x) s1 = (r2, s2)" by (rule prod.exhaust)
    with endsD [OF assms(1) m] endsD [OF assms(2) k] m Inr show ?thesis by (auto simp: run_onErr)
  qed (use endsD [OF assms(1) m] m in \<open>auto simp: run_onErr\<close>)
qed

definition tails :: "cmd \<Rightarrow> (('w, 'm) sys_scheme, 'a) state \<Rightarrow> bool" where
  "tails c m \<longleftrightarrow> (\<forall>s. \<exists>cs. calls (snd (run_state m s)) = calls s @ cs @ [c])"

lemma tails_runs: "runs (cs @ [c]) m \<Longrightarrow> tails c m" "runs [c] m \<Longrightarrow> tails c m"
  by (auto simp: tails_def runs_def)

lemma tails_bind:
  assumes "logs (\<lambda>_. True) m" "tails c m'"
  shows "tails c (State_Monad.bind m (\<lambda>_. m'))"
  unfolding tails_def
proof
  fix s
  obtain r s1 where m: "run_state m s = (r, s1)" by (rule prod.exhaust)
  obtain cs cs' where "calls s1 = calls s @ cs" "calls (snd (run_state m' s1)) = calls s1 @ cs' @ [c]"
    using logsD [OF assms(1) m] assms(2) unfolding tails_def by blast
  then show "\<exists>cs. calls (snd (run_state (State_Monad.bind m (\<lambda>_. m')) s)) = calls s @ cs @ [c]" using m by auto
qed

lemma ends_onFail:
  assumes "logs (\<lambda>_. True) m" "tails c cl" "\<And>x. ends c (k x)"
  shows "ends c (onFail m cl h k)"
  unfolding ends_def
proof
  fix s
  obtain r s1 where m: "run_state m s = (r, s1)" by (rule prod.exhaust)
  obtain cs cs0 where cs: "calls s1 = calls s @ cs" "calls (snd (run_state cl s1)) = calls s1 @ cs0 @ [c]"
    using logsD [OF assms(1) m] assms(2) unfolding tails_def by blast
  show "\<exists>cs. calls (snd (run_state (onFail m cl h k) s)) = calls s @ cs \<and> (isl (fst (run_state (onFail m cl h k) s)) \<longrightarrow> cs \<noteq> [] \<and> last cs = c)"
  proof (cases r)
    case (Inr x)
    obtain r2 t where k: "run_state (k x) s1 = (r2, t)" by (rule prod.exhaust)
    with endsD [OF assms(3) k] m Inr cs show ?thesis by (auto simp: run_onFail)
  qed (use m cs in \<open>auto simp: run_onFail\<close>)
qed

lemma logs_Prepare_any: "logs (\<lambda>_. True) (Prepare E dev name ks f)"
  unfolding Prepare_def ensureLuks_def
  by (intro logged logs_isBlank logs_isLuks logs_openMapped) simp_all

lemma logs_runs: "runs cs m \<Longrightarrow> logs (\<lambda>_. True) m"
  by (auto simp: logs_def runs_def list_all_iff)

lemma ends_openTarget: "ends (detachCmd dev) (openTarget E v dev encrypted ks f)"
proof -
  have "tails (detachCmd dev) (ignore (loDetach E dev))" by (rule tails_runs(2) [OF runs_ignore [OF runs_tools(5)]])
  moreover have "ends (detachCmd dev) (case x of (c, oc) \<Rightarrow> ret (Inr (c, c)))" for x :: "string \<times> outcome"
    by (cases x) (simp add: ends_ret)
  ultimately show ?thesis
    unfolding openTarget_def
    by (cases encrypted) (auto intro!: ends_ret ends_onFail logs_runs [OF runs_tools(2)] logs_Prepare_any)
qed

lemma openTarget_result:
  "run_state (openTarget E v dev encrypted ks f) s = (Inr x, s') \<Longrightarrow>
     x = (targetOf v dev encrypted, if encrypted then MapperPath (MapperName v) else [])"
  by (auto simp: openTarget_def targetOf_def Prepare_def openMapped_def run_onErr run_onFail split: if_splits prod.splits sum.splits)

lemma logs_Unmount: "logs (\<lambda>_. True) (Unmount E t)"
  unfolding Unmount_def IsMountPoint_def by (intro logged) simp_all

lemma logs_statePut: "logs P (statePut E path m)"
  unfolding statePut_def by (intro logged logs_flush) simp

lemma runs_recordStage: "runs [] (recordStage v ks encrypted)"
  by (auto simp: runs_def recordStage_def cacheKeys_def failClear_def)

lemma ends_persist: "ends (detachCmd dev) (persistStage E N req imgPath dev cryptDev encrypted ks)"
proof -
  have "tails (detachCmd dev) (do { ignore (Unmount E (srPath req)); release E (srVolumeID req) dev encrypted })"
    by (rule tails_bind [OF _ tails_runs(1) [OF runs_release]]) (intro logged logs_Unmount)
  moreover have "ends (detachCmd dev) (recordStage (srVolumeID req) ks encrypted)"
    using runs_recordStage by (auto simp: ends_def runs_def recordStage_def cacheKeys_def failClear_def)
  ultimately show ?thesis
    unfolding persistStage_def by (intro ends_onFail logs_statePut)
qed

lemma keeps_statePut_keys: "keeps (sameKeys s) (statePut E path m)"
  unfolding statePut_def by (intro keeps_bind keeps_flush stable_sameKeys) (simp add: keeps_def)

lemma persist_ok:
  assumes "run_state (persistStage E N req imgPath dev cryptDev encrypted ks) s = (Inr (), s')"
  shows "calls s' = calls s" "lstate s' = gm_put (srVolumeID req) (stagedEntry req imgPath dev cryptDev) (lstate s)"
    "failed s' = gm_del (srVolumeID req) (failed s)" "nkeys s' = (if encrypted then gm_put (srVolumeID req) ks (nkeys s) else nkeys s)"
proof -
  let ?m = "stagedEntry req imgPath dev cryptDev"
  obtain r t where p: "run_state (statePut E (nStatePath N) ?m) s = (r, t)" by (rule prod.exhaust)
  have t: "lstate t = gm_put (srVolumeID req) ?m (lstate s)" "sameKeys s t" "calls t = calls s"
    using statePut_lstate [OF p] keeps_run [OF keeps_statePut_keys _ p, of s] logs_none [OF logs_statePut, of E "nStatePath N" ?m s] p
    by (simp_all add: stagedEntry_def)
  have "r = Inr ()" "run_state (recordStage (srVolumeID req) ks encrypted) t = (Inr (), s')"
    using assms p by (auto simp: persistStage_def run_onFail split: sum.splits)
  with t show "calls s' = calls s" "lstate s' = gm_put (srVolumeID req) ?m (lstate s)"
    "failed s' = gm_del (srVolumeID req) (failed s)" "nkeys s' = (if encrypted then gm_put (srVolumeID req) ks (nkeys s) else nkeys s)"
    by (auto simp: recordStage_def cacheKeys_def failClear_def split: if_splits)
qed

lemma persist_fails:
  assumes "run_state (persistStage E N req imgPath dev cryptDev encrypted ks) s = (Inl e, s')"
  shows "sameKeys s s'"
proof -
  let ?c = "do { ignore (Unmount E (srPath req)); release E (srVolumeID req) dev encrypted }"
  obtain r t where p: "run_state (statePut E (nStatePath N) (stagedEntry req imgPath dev cryptDev)) s = (r, t)" by (rule prod.exhaust)
  have "keeps (sameKeys s) ?c" by (intro kept stable_sameKeys)
  moreover have "sameKeys s t" using keeps_run [OF keeps_statePut_keys _ p, of s] by simp
  ultimately have "sameKeys s (snd (run_state ?c t))" by (rule keeps_snd)
  moreover have "snd (run_state ?c t) = s'"
    using assms p by (auto simp: persistStage_def run_onFail recordStage_def cacheKeys_def failClear_def split: sum.splits if_splits)
  ultimately show ?thesis by simp
qed

lemma stageOn_steps:
  assumes "run_state (stageOn E N req imgPath dev encrypted ks f) s = (Inr (), s')"
  obtains s1 s2 where "run_state (openTarget E (srVolumeID req) dev encrypted ks f) s
      = (Inr (targetOf (srVolumeID req) dev encrypted, if encrypted then MapperPath (MapperName (srVolumeID req)) else []), s1)"
    "run_state (mountTarget E req dev (targetOf (srVolumeID req) dev encrypted) encrypted) s1 = (Inr (), s2)"
    "run_state (persistStage E N req imgPath dev (if encrypted then MapperPath (MapperName (srVolumeID req)) else []) encrypted ks) s2 = (Inr (), s')"
proof -
  obtain r s1 where o: "run_state (openTarget E (srVolumeID req) dev encrypted ks f) s = (r, s1)" by (rule prod.exhaust)
  obtain x where r: "r = Inr x" using assms o by (cases r) (auto simp: stageOn_def run_onErr)
  note x = openTarget_result [OF o [unfolded r]]
  obtain q s2 where m: "run_state (mountTarget E req dev (targetOf (srVolumeID req) dev encrypted) encrypted) s1 = (q, s2)" by (rule prod.exhaust)
  have "q = Inr ()" "run_state (persistStage E N req imgPath dev (if encrypted then MapperPath (MapperName (srVolumeID req)) else []) encrypted ks) s2 = (Inr (), s')"
    using assms o m by (auto simp: stageOn_def run_onErr r x split: sum.splits)
  with that o m show thesis by (simp add: r x)
qed

lemma ends_stageOn: "ends (detachCmd dev) (stageOn E N req imgPath dev encrypted ks f)"
proof -
  have "ends (detachCmd dev) (onErr (mountTarget E req dev t encrypted) id (\<lambda>_. persistStage E N req imgPath dev c encrypted ks))" for t c
    by (intro ends_onErr ends_attempts [OF mountTarget_cmds] ends_persist)
  then show ?thesis unfolding stageOn_def by (intro ends_onErr ends_openTarget) (auto split: prod.split)
qed

lemma stageOn_fails:
  assumes "run_state (stageOn E N req imgPath dev encrypted ks f) s = (Inl e, s')"
  shows "sameKeys s s'"
proof -
  obtain r s1 where o: "run_state (openTarget E (srVolumeID req) dev encrypted ks f) s = (r, s1)" by (rule prod.exhaust)
  have 1: "sameKeys s s1" by (rule keeps_run [OF stable_stage(4) [OF stable_sameKeys] _ o]) simp
  show ?thesis
  proof (cases r)
    case (Inr x)
    obtain t c where x: "x = (t, c)" by (cases x)
    obtain q s2 where m: "run_state (mountTarget E req dev t encrypted) s1 = (q, s2)" by (rule prod.exhaust)
    have "sameKeys s1 s2" by (rule keeps_run [OF stable_stage(5) [OF stable_sameKeys] _ m]) simp
    with 1 Inr x o m assms show ?thesis
      by (cases q) (auto simp: stageOn_def run_onErr dest: persist_fails)
  qed (use assms o 1 in \<open>auto simp: stageOn_def run_onErr\<close>)
qed

text \<open>
  C1: A stage completes or is undone. Once its loop device is attached, a stage that succeeds has run, as
  its last commands and in this order, the check of the file system, the growth of loop and file
  system and the mount, and has recorded the volume's entry (and key) and cleared its failure
  mark; one that fails ends by detaching the device, and neither caches a key nor clears a mark.
\<close>

theorem stage_all_or_nothing:
  assumes "run_state (stageOn E N req imgPath dev encrypted ks f) s = (r, s')"
  shows "case r of
      Inr _ \<Rightarrow> (\<exists>pre. newcalls s s' = pre @ mountCmds req dev (targetOf (srVolumeID req) dev encrypted) encrypted)
        \<and> gm_get (lstate s') (srVolumeID req)
            = Some (stagedEntry req imgPath dev (if encrypted then MapperPath (MapperName (srVolumeID req)) else []))
        \<and> gm_get (failed s') (srVolumeID req) = None \<and> (encrypted \<longrightarrow> gm_get (nkeys s') (srVolumeID req) = Some ks)
    | Inl _ \<Rightarrow> newcalls s s' \<noteq> [] \<and> last (newcalls s s') = detachCmd dev \<and> nkeys s' = nkeys s \<and> failed s' = failed s"
proof (cases r)
  case (Inl e)
  then show ?thesis
    using endsD [OF ends_stageOn assms] stageOn_fails [OF assms [unfolded Inl]] by (auto simp: newcalls_def)
next
  case (Inr u)
  then have "run_state (stageOn E N req imgPath dev encrypted ks f) s = (Inr (), s')" using assms by simp
  from stageOn_steps [OF this] obtain s1 s2 where st:
    "run_state (openTarget E (srVolumeID req) dev encrypted ks f) s
      = (Inr (targetOf (srVolumeID req) dev encrypted, if encrypted then MapperPath (MapperName (srVolumeID req)) else []), s1)"
    "run_state (mountTarget E req dev (targetOf (srVolumeID req) dev encrypted) encrypted) s1 = (Inr (), s2)"
    "run_state (persistStage E N req imgPath dev (if encrypted then MapperPath (MapperName (srVolumeID req)) else []) encrypted ks) s2 = (Inr (), s')"
    by metis
  have "calls s2 = calls s1 @ mountCmds req dev (targetOf (srVolumeID req) dev encrypted) encrypted"
    using mountTarget_cmds [of req dev "targetOf (srVolumeID req) dev encrypted" encrypted E] st(2) unfolding attempts_def
    by (auto dest!: spec [of _ s1])
  moreover obtain cs where "calls s1 = calls s @ cs" using endsD [OF ends_openTarget st(1)] by blast
  ultimately show ?thesis
    using persist_ok [OF st(3)] Inr by (auto simp: newcalls_def gm_get_put gm_get_del)
qed

section \<open>Stacked mounts\<close>

text \<open>
  \<^verbatim>\<open>umount\<close> of a mount point takes away the topmost of its mounts or, failing (the mount is busy),
  changes nothing.
\<close>

definition umount_law :: "'w host \<Rightarrow> ('w \<Rightarrow> string list) \<Rightarrow> bool" where
  "umount_law E mounts \<longleftrightarrow> (\<forall>t w. t \<in> set (mounts w) \<longrightarrow> mounts (snd (exec E ''umount'' [t] w)) =
     (if snd (fst (exec E ''umount'' [t] w)) = None then remove1 t (mounts w) else mounts w))"

definition never_busy :: "'w host \<Rightarrow> ('w \<Rightarrow> string list) \<Rightarrow> string \<Rightarrow> bool" where
  "never_busy E mounts t \<longleftrightarrow> (\<forall>w. t \<in> set (mounts w) \<longrightarrow> snd (fst (exec E ''umount'' [t] w)) = None)"

text \<open>The path can be looked at: it is there or it is not.\<close>

definition stat_plain :: "'w host \<Rightarrow> string \<Rightarrow> bool" where
  "stat_plain E t \<longleftrightarrow> (\<forall>w e. fst (h_stat E t w) = Inl e \<longrightarrow> error_is e ErrNotExist)"

definition umounts :: "cmd list \<Rightarrow> nat" where
  "umounts cs = length (filter (\<lambda>c. cName c = ''umount'') cs)"

lemma umounts_simps [simp]: "umounts [] = 0" "umounts (c # cs) = (if cName c = ''umount'' then 1 else 0) + umounts cs"
  "umounts (as @ bs) = umounts as + umounts bs"
  by (simp_all add: umounts_def)

lemma count_remove1: "count_list (remove1 t xs) u = (if u = t then count_list xs t - 1 else count_list xs u)"
  by (induction xs) (auto simp: count_list_0_iff)

lemma count_pos: "0 < count_list xs t \<longleftrightarrow> t \<in> set xs"
  by (simp add: zero_less_iff_neq_zero count_list_0_iff)

lemma IsMountPoint_run:
  assumes "findmnt_law E mounts" "stat_plain E t"
  shows "\<exists>cs. run_state (IsMountPoint E t) s = (Inr (t \<in> set (mounts (world s))), s\<lparr>calls := calls s @ cs\<rparr>) \<and> umounts cs = 0"
proof -
  obtain cs where q: "run_state (IsMountPoint E t) s =
           ((case fst (h_stat E t (world s)) of
               Inl e \<Rightarrow> if error_is e ErrNotExist then Inr False else Inl e
             | Inr _ \<Rightarrow> Inr (t \<in> set (mounts (world s)))), s\<lparr>calls := calls s @ cs\<rparr>)"
      and cs: "\<forall>c \<in> set cs. cName c = ''findmnt''"
    using IsMountPoint_correct [OF assms(1)] by blast
  from cs have "umounts cs = 0" by (induction cs) simp_all
  moreover have "fst (h_stat E t (world s)) = Inl e \<Longrightarrow> t \<notin> set (mounts (world s)) \<and> error_is e ErrNotExist" for e
    using findmnt_lawD(2) [OF assms(1), of t "world s"] assms(2) by (auto simp: stat_plain_def)
  ultimately show ?thesis using q by (cases "fst (h_stat E t (world s))") auto
qed

lemma Unmount_run:
  assumes "findmnt_law E mounts" "stat_plain E t" "umount_law E mounts" "t \<in> set (mounts (world s))"
    and "run_state (Unmount E t) s = (r, s')"
  shows "\<exists>cs. calls s' = calls s @ cs \<and> umounts cs = 1 \<and> mounts (world s') = (if r = Inr () then remove1 t (mounts (world s)) else mounts (world s))
    \<and> (never_busy E mounts t \<longrightarrow> r = Inr ())"
proof -
  obtain cs where q: "run_state (IsMountPoint E t) s = (Inr True, s\<lparr>calls := calls s @ cs\<rparr>)" "umounts cs = 0"
    using IsMountPoint_run [OF assms(1,2), where s = s] assms(4) by auto
  let ?x = "exec E ''umount'' [t] (world s)"
  have "mounts (snd ?x) = (if snd (fst ?x) = None then remove1 t (mounts (world s)) else mounts (world s))"
      "never_busy E mounts t \<Longrightarrow> snd (fst ?x) = None"
    using assms(3,4) by (auto simp: umount_law_def never_busy_def)
  with q assms(5) show ?thesis
    by (intro exI [of _ "cs @ [plain ''umount'' [t]]"])
      (auto simp: Unmount_def run_onErr RunE_def Run_def run_RunCmd asErr_cases split: sum.splits option.splits)
qed

text \<open>
  The outcome of popping with \<open>k\<close> unmounts allowed: \<open>n\<close> mounts before, \<open>m\<close> left, \<open>u\<close> commands run. The
  last one may have failed.
\<close>

definition popped :: "nat \<Rightarrow> bool \<Rightarrow> bool \<Rightarrow> nat \<Rightarrow> nat \<Rightarrow> nat \<Rightarrow> bool" where
  "popped k ok idle n m u \<longleftrightarrow>
     (if ok then m = 0 \<and> u = n \<and> n \<le> k else 0 < m \<and> (n = m + k \<and> u = k \<or> \<not> idle \<and> Suc n = m + u \<and> u \<le> k))"

lemma popLoop_pops:
  assumes law: "findmnt_law E mounts" "stat_plain E t" "umount_law E mounts"
    and run: "run_state (popLoop E t k) s = (r, s')"
  shows "\<exists>cs. calls s' = calls s @ cs \<and> (\<forall>x. x \<noteq> t \<longrightarrow> count_list (mounts (world s')) x = count_list (mounts (world s)) x)
    \<and> popped k (r = Inr ()) (never_busy E mounts t) (count_list (mounts (world s)) t) (count_list (mounts (world s')) t) (umounts cs)"
  using run
proof (induction k arbitrary: s)
  case 0
  obtain cs where "run_state (IsMountPoint E t) s = (Inr (t \<in> set (mounts (world s))), s\<lparr>calls := calls s @ cs\<rparr>)" "umounts cs = 0"
    using IsMountPoint_run [OF law(1,2)] by blast
  with 0 show ?case
    by (subst (asm) popLoop.simps) (intro exI [of _ cs], auto simp: popped_def run_onErr count_list_0_iff count_pos split: if_splits)
next
  case (Suc k)
  obtain cs where p: "run_state (IsMountPoint E t) s = (Inr (t \<in> set (mounts (world s))), s\<lparr>calls := calls s @ cs\<rparr>)" "umounts cs = 0"
    using IsMountPoint_run [OF law(1,2)] by blast
  show ?case
  proof (cases "t \<in> set (mounts (world s))")
    case False
    with Suc.prems p show ?thesis
      by (subst (asm) popLoop.simps) (intro exI [of _ cs], auto simp: popped_def run_onErr count_list_0_iff)
  next
    case True
    let ?s = "s\<lparr>calls := calls s @ cs\<rparr>"
    obtain q s2 where u: "run_state (Unmount E t) ?s = (q, s2)" by (rule prod.exhaust)
    obtain ds where ds: "calls s2 = calls s @ cs @ ds" "umounts ds = 1"
        "mounts (world s2) = (if q = Inr () then remove1 t (mounts (world s)) else mounts (world s))" "never_busy E mounts t \<longrightarrow> q = Inr ()"
      using Unmount_run [OF law _ u] True by auto
    obtain c where c: "count_list (mounts (world s)) t = Suc c"
      using True by (cases "count_list (mounts (world s)) t") (simp_all add: count_list_0_iff)
    show ?thesis
    proof (cases q)
      case (Inl e)
      then have "s' = s2" "r \<noteq> Inr ()" using Suc.prems True p u by (subst (asm) popLoop.simps, auto simp: run_onErr)+
      then show ?thesis using ds p(2) c Inl by (intro exI [of _ "cs @ ds"]) (auto simp: popped_def)
    next
      case (Inr x)
      then have "run_state (popLoop E t k) s2 = (r, s')"
        using Suc.prems True p u by (subst (asm) popLoop.simps) (simp add: run_onErr)
      from Suc.IH [OF this] obtain es where es: "calls s' = calls s2 @ es"
          "\<forall>x. x \<noteq> t \<longrightarrow> count_list (mounts (world s')) x = count_list (mounts (world s2)) x"
          "popped k (r = Inr ()) (never_busy E mounts t) (count_list (mounts (world s2)) t) (count_list (mounts (world s')) t) (umounts es)"
        by blast
      then show ?thesis using ds p(2) c Inr
        by (intro exI [of _ "cs @ ds @ es"]) (auto simp: popped_def count_remove1 split: if_splits)
    qed
  qed
qed

text \<open>
  C17: Unmounting a staging path ends. Whatever is stacked on it and whichever unmount fails,
  popStageMounts runs at most eight unmounts; it succeeds exactly when it has removed every
  mount, with one unmount for each; otherwise it has removed eight, or stopped at the first
  unmount that failed. When none fails it succeeds exactly when no more than eight mounts were
  there. No other mount is touched.
\<close>

theorem popStageMounts_bounded:
  fixes E :: "'w host" and s s' :: "('w, 'm) sys_scheme"
  assumes "findmnt_law E mounts" "umount_law E mounts" "stat_plain E path"
    and "run_state (popStageMounts E path) s = (r, s')"
  defines "n \<equiv> count_list (mounts (world s)) path" and "m \<equiv> count_list (mounts (world s')) path" and "u \<equiv> umounts (newcalls s s')"
  shows "u \<le> 8 \<and> (r = Inr () \<longleftrightarrow> m = 0) \<and> (r = Inr () \<longrightarrow> u = n) \<and> (r \<noteq> Inr () \<longrightarrow> n = m + 8 \<or> Suc n = m + u)
       \<and> (never_busy E mounts path \<longrightarrow> (r = Inr () \<longleftrightarrow> n \<le> 8) \<and> m = n - 8)
       \<and> (\<forall>t. t \<noteq> path \<longrightarrow> count_list (mounts (world s')) t = count_list (mounts (world s)) t)"
  using popLoop_pops [OF assms(1,3,2) assms(4) [unfolded popStageMounts_def]]
  by (auto simp: maxStageUnmounts_def popped_def newcalls_def n_def m_def u_def split: if_splits)

section \<open>Unstaging\<close>

abbreviation sameView :: "('w, 'm) node_st_scheme \<Rightarrow> ('w, 'm) node_st_scheme \<Rightarrow> bool" where
  "sameView s t \<equiv> lstate t = lstate s \<and> nkeys t = nkeys s \<and> failed t = failed s"

lemma stable_sameView: "stable (sameView s)"
  by (simp add: stable_def)

lemma detachLoops_runs:
  "run_state (detachLoops E ds) s = (Inr (), s') \<Longrightarrow> calls s' = calls s @ map detachCmd ds"
proof (induction ds arbitrary: s)
  case (Cons d ds)
  obtain r t where d: "run_state (loDetach E d) s = (r, t)" by (rule prod.exhaust)
  with Cons.prems have "r = Inr ()" "run_state (detachLoops E ds) t = (Inr (), s')"
    by (auto simp: detachLoops_def run_onErr split: sum.splits)
  with Cons.IH [of t] runsD [OF runs_tools(5) d] show ?case by simp
qed (simp add: detachLoops_def)

lemma logs_listing: "logs (\<lambda>_. True) (popStageMounts E path)" "logs (\<lambda>_. True) (unstageClose E v m)" "logs (\<lambda>_. True) (loFind E P)"
proof -
  have "logs (\<lambda>_. True) (popLoop E path k)" for k
  proof (induction k)
    case 0
    show ?case unfolding popLoop.simps [of E path 0] nat.case IsMountPoint_def by (intro logged) simp_all
  next
    case (Suc k)
    show ?case unfolding popLoop.simps [of E path "Suc k"] nat.case IsMountPoint_def by (intro logged logs_Unmount Suc) simp_all
  qed
  then show "logs (\<lambda>_. True) (popStageMounts E path)" by (simp add: popStageMounts_def)
  show "logs (\<lambda>_. True) (unstageClose E v m)"
    unfolding unstageClose_def by (intro logged logs_runs [OF runs_tools(6)])
  show "logs (\<lambda>_. True) (loFind E P)" unfolding loFind_def loList_def by (intro logged) simp_all
qed

text \<open>What a run of a device operation leaves: the tables, and the history as a prefix.\<close>

definition follows :: "('w, 'm) node_st_scheme \<Rightarrow> ('w, 'm) node_st_scheme \<Rightarrow> bool" where
  "follows s t \<longleftrightarrow> sameView s t \<and> (\<exists>cs. calls t = calls s @ cs)"

lemma follows_trans: "follows s t \<Longrightarrow> follows t u \<Longrightarrow> follows s u"
  by (auto simp: follows_def)

lemma follows_run: "keeps (sameView s) m \<Longrightarrow> logs (\<lambda>_. True) m \<Longrightarrow> run_state m s = (r, t) \<Longrightarrow> follows s t"
  using keeps_run [of "sameView s" m s r t] logsD [of "\<lambda>_. True" m s r t] by (auto simp: follows_def)

lemma follows_devices:
  "run_state (popStageMounts E path) s = (r1, t) \<Longrightarrow> follows s t"
  "run_state (unstageClose E v m) s = (r2, t) \<Longrightarrow> follows s t"
  "run_state (loFind E P) s = (r3, t) \<Longrightarrow> follows s t"
  "run_state (detachLoops E ds) s = (r2, t) \<Longrightarrow> follows s t"
  "run_state (ignore (sysc f)) s = (u, t) \<Longrightarrow> follows s t" "run_state (lockVolume v) s = (u, t) \<Longrightarrow> follows s t"
proof -
  have "logs (\<lambda>_. True) (detachLoops E ds)" unfolding detachLoops_def by (intro logged logs_runs [OF runs_tools(5)])
  then show "run_state (detachLoops E ds) s = (r2, t) \<Longrightarrow> follows s t" by (rule follows_run [OF stable_node(5) [OF stable_sameView]])
  show "run_state (popStageMounts E path) s = (r1, t) \<Longrightarrow> follows s t"
    by (rule follows_run [OF stable_node(1) [OF stable_sameView] logs_listing(1)])
  show "run_state (unstageClose E v m) s = (r2, t) \<Longrightarrow> follows s t"
    by (rule follows_run [OF stable_node(6) [OF stable_sameView] logs_listing(2)])
  show "run_state (loFind E P) s = (r3, t) \<Longrightarrow> follows s t"
    by (rule follows_run [OF stable_losetup(4) [OF stable_sameView] logs_listing(3)])
qed (auto simp: follows_def run_ignore run_sysc lockVolume_def)

definition unstageDevices :: "'w host \<Rightarrow> string \<Rightarrow> string \<Rightarrow> staged option \<Rightarrow> (('w, 'm) node_st_scheme, goerr + unit) state" where
  "unstageDevices E v path m = do {
     lockVolume v;
     onErr (popStageMounts E path) id (\<lambda>_. do { ignore (sysc (h_remove E path)); unstageClose E v m })
   }"

lemma unstageDevices_follows:
  assumes "run_state (unstageDevices E v path m) s = (r, t)"
  shows "follows s t"
proof -
  obtain u s0 where a: "run_state (lockVolume v) s = (u, s0)" by (rule prod.exhaust)
  obtain r1 s1 where b: "run_state (popStageMounts E path) s0 = (r1, s1)" by (rule prod.exhaust)
  obtain u2 s2 where c: "run_state (ignore (sysc (h_remove E path))) s1 = (u2, s2)" by (rule prod.exhaust)
  obtain r3 s3 where d: "run_state (unstageClose E v m) s2 = (r3, s3)" by (rule prod.exhaust)
  have "t = s1 \<or> t = s3" using assms a b c d by (cases r1) (auto simp: unstageDevices_def run_onErr)
  then show ?thesis
    using follows_devices(6) [OF a] follows_devices(1) [OF b] follows_devices(5) [OF c] follows_devices(2) [OF d] by (blast intro: follows_trans)
qed

lemma NodeUnstage_unfold:
  assumes "v \<noteq> []" "path \<noteq> []"
  shows "run_state (NodeUnstageVolume E N v path) s = run_state (onErr (unstageDevices E v path (gm_get (lstate s) v)) id (\<lambda>_.
     onErr (loFind E (unstageMatch v (gm_get (lstate s) v))) (\<lambda>_. Status Internal ''find loop devices'') (\<lambda>loops.
     onErr (detachLoops E loops) id (\<lambda>_. forgetVolume E N v (gm_get (lstate s) v))))) s"
proof -
  obtain u s0 where a: "run_state (lockVolume v) s = (u, s0)" by (rule prod.exhaust)
  obtain r1 s1 where b: "run_state (popStageMounts E path) s0 = (r1, s1)" by (rule prod.exhaust)
  obtain u2 s2 where c: "run_state (ignore (sysc (h_remove E path))) s1 = (u2, s2)" by (rule prod.exhaust)
  have "run_state (stateGet v) s2 = (gm_get (lstate s) v, s2)"
    using follows_devices(6) [OF a] follows_devices(1) [OF b] follows_devices(5) [OF c] by (simp add: follows_def stateGet_def)
  then show ?thesis
    using a b c assms by (cases r1) (simp_all add: NodeUnstageVolume_def unstageDevices_def run_onErr)
qed

lemma unstage_cases:
  assumes run: "run_state (NodeUnstageVolume E N v path) s = (r, s')"
  shows "(\<exists>e. r = Inl e) \<and> sameView s s'
     \<or> r = Inr () \<and> (\<exists>s1 s2 s3 ds. run_state (unstageDevices E v path (gm_get (lstate s) v)) s = (Inr (), s1)
         \<and> run_state (loFind E (unstageMatch v (gm_get (lstate s) v))) s1 = (Inr ds, s2)
         \<and> run_state (detachLoops E ds) s2 = (Inr (), s3) \<and> run_state (forgetVolume E N v (gm_get (lstate s) v)) s3 = (Inr (), s'))"
proof (cases "v = [] \<or> path = []")
  case False
  let ?m = "gm_get (lstate s) v"
  obtain r1 s1 where a: "run_state (unstageDevices E v path ?m) s = (r1, s1)" by (rule prod.exhaust)
  obtain r2 s2 where l: "run_state (loFind E (unstageMatch v ?m)) s1 = (r2, s2)" by (rule prod.exhaust)
  have f: "follows s s1" "follows s s2"
    using unstageDevices_follows [OF a] follows_devices(3) [OF l] by (blast intro: follows_trans)+
  show ?thesis
  proof (cases r2)
    case (Inr ds)
    obtain r3 s3 where d: "run_state (detachLoops E ds) s2 = (r3, s3)" by (rule prod.exhaust)
    have "follows s s3" using f(2) follows_devices(4) [OF d] by (rule follows_trans)
    moreover obtain r4 s4 where fv: "run_state (forgetVolume E N v ?m) s3 = (r4, s4)" by (rule prod.exhaust)
    moreover note forgetVolume_run(1) [OF fv]
    ultimately show ?thesis
      using run False a l d f Inr by (cases r1; cases r3) (auto simp: NodeUnstage_unfold run_onErr follows_def)
  qed (use run False a l f in \<open>cases r1; auto simp: NodeUnstage_unfold run_onErr follows_def\<close>)
qed (use run in \<open>auto simp: NodeUnstageVolume_def\<close>)

text \<open>
  C10: Unstaging forgets a volume, or nothing. When NodeUnstageVolume succeeds, the entry, the cached key
  and the failure mark of the volume are gone, those of every other volume are as before, and every
  loop device that the listing (taken after the unmount and the close) showed on the volume's image (by name, or silly-renamed under
  the entry's own device) has been detached. When it fails all three tables are unchanged, so that it
  can be retried.
\<close>

theorem unstage_forgets:
  assumes "run_state (NodeUnstageVolume E N v path) s = (r, s')"
  shows "case r of
      Inl _ \<Rightarrow> lstate s' = lstate s \<and> nkeys s' = nkeys s \<and> failed s' = failed s
    | Inr _ \<Rightarrow> (\<forall>u. gm_get (lstate s') u = (if u = v then None else gm_get (lstate s) u)
          \<and> gm_get (nkeys s') u = (if u = v then None else gm_get (nkeys s) u) \<and> gm_get (failed s') u = (if u = v then None else gm_get (failed s) u))
        \<and> (\<exists>s1 s2 live. run_state (unstageDevices E v path (gm_get (lstate s) v)) s = (Inr (), s1) \<and> run_state (loList E) s1 = (Inr live, s2)
             \<and> (\<forall>a \<in> set live. unstageMatch v (gm_get (lstate s) v) a \<longrightarrow> detachCmd (Device a) \<in> set (newcalls s s')))"
proof -
  consider e where "r = Inl e" "sameView s s'"
    | s1 s2 s3 ds where "r = Inr ()" "run_state (unstageDevices E v path (gm_get (lstate s) v)) s = (Inr (), s1)"
        "run_state (loFind E (unstageMatch v (gm_get (lstate s) v))) s1 = (Inr ds, s2)"
        "run_state (detachLoops E ds) s2 = (Inr (), s3)" "run_state (forgetVolume E N v (gm_get (lstate s) v)) s3 = (Inr (), s')"
    using unstage_cases [OF assms] by blast
  then show ?thesis
  proof cases
    case 2
    from 2(3) obtain live where l: "run_state (loList E) s1 = (Inr live, s2)" "ds = map Device (filter (unstageMatch v (gm_get (lstate s) v)) live)"
      by (auto simp: loFind_def run_onErr split: prod.splits sum.splits)
    obtain cs where "calls s2 = calls s @ cs" "sameView s s3"
      using follows_trans [OF unstageDevices_follows [OF 2(2)] follows_devices(3) [OF 2(3)]] follows_devices(4) [OF 2(4)] by (auto simp: follows_def)
    moreover have "calls s' = calls s2 @ map detachCmd ds" using detachLoops_runs [OF 2(4)] forgetVolume_run(5) [OF 2(5)] by simp
    ultimately show ?thesis
      using forgetVolume_run(2-4) [OF 2(5)] l 2(1,2) by (auto simp: gm_get_del newcalls_def)
  qed simp
qed

section \<open>Re-staging\<close>

lemma stageLocked_cong:
  assumes "stageParse rq = stageParse req" "srVolumeID rq = srVolumeID req" "srPath rq = srPath req" "srContext rq = srContext req"
    "validateCapability (srCap rq) = validateCapability (srCap req)" "mountOptionsFromCap (srCap rq) = mountOptionsFromCap (srCap req)"
  shows "stageLocked E N rq = stageLocked E N req"
  unfolding stageLocked_def stageImage_def stageFresh_def stageOn_def adoptStage_def openTarget_def mountTarget_def persistStage_def stagedEntry_def assms
  by (rule refl)

lemma keys_again: "MinKeyLen \<le> length (Current ks) \<Longrightarrow> keysFromSecrets (restageSecrets ks) = Inr ks"
  by (cases ks) (auto simp: keysFromSecrets_def restageSecrets_def sget_def secretKey_def secretPreviousKey_def MinKeyLen_def Let_def)

lemma restageRequest_sel [simp]: "srVolumeID (restageRequest v m ctx sec) = v" "srPath (restageRequest v m ctx sec) = StagePath m"
    "srContext (restageRequest v m ctx sec) = ctx"
  by (simp_all add: restageRequest_def)

lemma stageParse_ctx:
  assumes "\<And>k. gm_get ctx k = gm_get (srContext req) k"
  shows "stageParse (req\<lparr>srContext := ctx\<rparr>) = stageParse req"
proof -
  have g: "sget ctx k = sget (srContext req) k" for k by (simp add: sget_def assms)
  have c: "ConfigFromVolumeContext ctx = ConfigFromVolumeContext (srContext req)"
    unfolding ConfigFromVolumeContext_def by (rule ConfigFromParams_cong) (rule g)
  have "formatFromParams ctx True = formatFromParams (srContext req) True" by (simp add: formatFromParams_def g)
  then show ?thesis by (simp add: stageParse_def c g split: sum.split)
qed

text \<open>An entry that keeps the path, the flags and, as a map, the context of a request repeats it.\<close>

lemma restage_again:
  fixes E :: "'w host"
  assumes parse: "stageParse req = Inr (cfg, encrypted, ks, f)" and cap: "validateCapability (srCap req) = None"
    and m: "StagePath m = srPath req" "MountFlags m = mountOptionsFromCap (srCap req)" and ctx: "\<And>k. gm_get ctx k = gm_get (srContext req) k"
  shows "(stageLocked E N (restageRequest (srVolumeID req) m ctx (if encrypted then restageSecrets ks else [])) :: (('w, 'm) node_st_scheme, goerr + unit) state)
     = stageLocked E N (req\<lparr>srContext := ctx\<rparr>)"
proof (rule stageLocked_cong)
  let ?rq = "restageRequest (srVolumeID req) m ctx (if encrypted then restageSecrets ks else [])"
  have "stageParse (req\<lparr>srContext := ctx\<rparr>) = Inr (cfg, encrypted, ks, f)" using stageParse_ctx [OF ctx] parse by simp
  moreover have "encrypted \<Longrightarrow> keysFromSecrets (restageSecrets ks) = Inr ks" by (rule keys_again [OF stageParse_key [OF parse]])
  ultimately show "stageParse ?rq = stageParse (req\<lparr>srContext := ctx\<rparr>)"
    by (auto simp: stageParse_def restageRequest_def m split: if_splits sum.splits)
qed (use cap in \<open>simp_all add: restageRequest_def m validateCapability_def validateCap_def mountOptionsFromCap_def\<close>)

lemma restageKeys_again:
  assumes "stageParse req = Inr (cfg, encrypted, ks, f)" "encrypted \<longrightarrow> gm_get (nkeys s) (prVolumeID rq) = Some ks"
  shows "run_state (restageKeys E N rq (srContext req)) s = (Inr (if encrypted then restageSecrets ks else []), s)"
  using assms by (auto simp: stageParse_def restageKeys_def split: if_splits sum.splits)

text \<open>
  C9: A re-stage is the stage it repeats. From the entry a stage recorded and the key it cached, restageFailed
  rebuilds a request on which stageLocked is the same operation as on the original request. So it is
  for the entry read back from the state file, as part of any table of UTF-8 strings: its
  context is the same map, and stageLocked on the rebuilt request is the operation on the original one with
  the context in the file's order.
\<close>

theorem restage_repeats_stage:
  fixes E :: "'w host"
  assumes "stageParse req = Inr (cfg, encrypted, ks, f)" "validateCapability (srCap req) = None"
    and m: "m = stagedEntry req imgPath dev cryptDev"
  defines "secrets \<equiv> if encrypted then restageSecrets ks else []"
  shows "StageContext m = Some (srContext req)
     \<and> (\<forall>rq s. prVolumeID rq = srVolumeID req \<longrightarrow> (encrypted \<longrightarrow> gm_get (nkeys s) (srVolumeID req) = Some ks) \<longrightarrow>
          run_state (restageKeys E N rq (srContext req)) (s :: ('w, 'm) node_st_scheme) = (Inr secrets, s))
     \<and> (stageLocked E N (restageRequest (srVolumeID req) m (srContext req) secrets) :: (('w, 'm) node_st_scheme, goerr + unit) state) = stageLocked E N req
     \<and> (\<forall>d. table_ok d \<and> gm_get d (srVolumeID req) = Some m \<longrightarrow>
          (\<exists>d' m' ctx. parseState (stateText d) = Some d' \<and> gm_get d' (srVolumeID req) = Some m' \<and> StageContext m' = Some ctx
             \<and> (\<forall>k. gm_get ctx k = gm_get (srContext req) k)
             \<and> (stageLocked E N (restageRequest (srVolumeID req) m' ctx secrets) :: (('w, 'm) node_st_scheme, goerr + unit) state)
                 = stageLocked E N (req\<lparr>srContext := ctx\<rparr>)))"
proof (intro conjI allI impI)
  have sel: "StagePath m = srPath req" "MountFlags m = mountOptionsFromCap (srCap req)" "StageContext m = Some (srContext req)"
    by (simp_all add: m stagedEntry_def)
  then show "StageContext m = Some (srContext req)" by simp
  show "stageLocked E N (restageRequest (srVolumeID req) m (srContext req) secrets) = stageLocked E N req"
    unfolding secrets_def by (rule trans [OF restage_again [OF assms(1,2) sel(1,2) refl]]) simp
  fix d assume d: "table_ok d \<and> gm_get d (srVolumeID req) = Some m"
  then obtain d' where d': "parseState (stateText d) = Some d'" "gm_get d' (srVolumeID req) = Some (normStaged m)"
    using parseState_stateText [of d] by auto
  have "srContext req \<noteq> []"
    using assms(1) by (auto simp: stageParse_def ConfigFromVolumeContext_def ConfigFromParams_def Let_def split: if_splits)
  moreover have "gm_wf (srContext req)" using table_ok_get [of d _ m] d sel(3) by (auto simp: ctx_wf_def)
  ultimately obtain ctx where c: "StageContext (normStaged m) = Some ctx" "\<And>k. gm_get ctx k = gm_get (srContext req) k"
    using normStaged_same(7) [OF sel(3)] by blast
  have "stageLocked E N (restageRequest (srVolumeID req) (normStaged m) ctx secrets) = stageLocked E N (req\<lparr>srContext := ctx\<rparr>)"
    unfolding secrets_def by (rule restage_again [OF assms(1,2) _ _ c(2)]) (simp_all add: normStaged_same sel)
  with d' c show "\<exists>d' m' ctx. parseState (stateText d) = Some d' \<and> gm_get d' (srVolumeID req) = Some m' \<and> StageContext m' = Some ctx
      \<and> (\<forall>k. gm_get ctx k = gm_get (srContext req) k)
      \<and> stageLocked E N (restageRequest (srVolumeID req) m' ctx secrets) = stageLocked E N (req\<lparr>srContext := ctx\<rparr>)" by blast
qed (unfold secrets_def, rule restageKeys_again [OF assms(1)], simp)

section \<open>Publishing a failed volume\<close>

lemma stageImage_clears:
  assumes "run_state (stageImage E N req backing b encrypted ks f) s = (Inr (), s')"
  shows "gm_get (failed s') (srVolumeID req) = None"
proof -
  have rec: "gm_get (failed t') v = None" if "run_state (recordStage v ks encrypted) t = (Inr (), t')" for v and t t' :: "('a, 'b) node_st_scheme"
    using that by (auto simp: recordStage_def failClear_def gm_get_del split: prod.splits)
  have adopt: "gm_get (failed t') (srVolumeID req) = None"
    if "run_state (adoptStage E N req p loops encrypted ks) t = (Inr (), t')" for p loops and t t' :: "('a, 'b) node_st_scheme"
    using that by (auto simp: adoptStage_def run_onErr Let_def split: prod.splits sum.splits option.splits if_splits intro: rec)
  have on: "gm_get (failed t') (srVolumeID req) = None"
    if "run_state (stageOn E N req p dev encrypted ks f) t = (Inr (), t')" for p dev and t t' :: "('a, 'b) node_st_scheme"
    using stageOn_steps [OF that] persist_ok(3) by (metis delete_conv' fun_upd_same)
  have fresh: "gm_get (failed t') (srVolumeID req) = None"
    if "run_state (stageFresh E N req p n loops encrypted ks f) t = (Inr (), t')" for p n loops and t t' :: "('a, 'b) node_st_scheme"
    using that by (auto simp: stageFresh_def run_onErr split: prod.splits sum.splits intro: on)
  show ?thesis
    using assms by (auto simp: stageImage_def run_onErr Let_def split: prod.splits sum.splits if_splits intro: adopt fresh)
qed

text \<open>A stage that succeeds clears the mark, or found the volume staged at a path that is mounted.\<close>

definition stagedAlready :: "'w host \<Rightarrow> nodeServer \<Rightarrow> stageRequest \<Rightarrow> ('w, 'm) node_st_scheme \<Rightarrow> bool" where
  "stagedAlready E N req s \<longleftrightarrow> (\<exists>cfg rest p t t'. stageParse req = Inr (cfg, rest) \<and> run_state (regGet E (nRegistry N) cfg) s = (Inr p, t)
     \<and> run_state (IsMountPoint E (srPath req)) t = (Inr True, t'))"

lemma stageLocked_clears:
  assumes "run_state (stageLocked E N req) s = (Inr (), s')"
  shows "gm_get (failed s') (srVolumeID req) = None \<or> stagedAlready E N req s"
proof -
  obtain cfg encrypted ks f where p: "stageParse req = Inr (cfg, encrypted, ks, f)"
    using assms by (cases "stageParse req") (auto simp: stageLocked_def)
  obtain r t where g: "run_state (regGet E (nRegistry N) cfg) s = (r, t)" by (rule prod.exhaust)
  obtain q t' where i: "run_state (IsMountPoint E (srPath req)) t = (q, t')" by (rule prod.exhaust)
  show ?thesis
  proof (cases "q = Inr True")
    case True
    moreover obtain path where "r = Inr path" using assms p g by (cases r) (auto simp: stageLocked_def run_onErr)
    ultimately show ?thesis using p g i by (auto simp: stagedAlready_def)
  next
    case False
    then show ?thesis
      using assms p g i by (auto simp: stageLocked_def stateGet_def run_onErr split: sum.splits option.splits if_splits dest: stageImage_clears)
  qed
qed

text \<open>The commands that release the devices of an entry.\<close>

definition releaseCmds :: "staged \<Rightarrow> cmd list" where
  "releaseCmds m = (if LoopDev m = [] then [] else
     (if CryptDev m \<noteq> [] then [closeCmd (base (CryptDev m))] else []) @ [detachCmd (LoopDev m)])"

lemma popLoop_empties:
  "run_state (popLoop E path k) s = (Inr (), t) \<Longrightarrow> \<exists>u. run_state (IsMountPoint E path) u = (Inr False, t)"
proof (induction k arbitrary: s)
  case 0
  then show ?case by (subst (asm) popLoop.simps) (auto simp: run_onErr split: prod.splits sum.splits if_splits)
next
  case (Suc k)
  then show ?case by (subst (asm) popLoop.simps) (fastforce simp: run_onErr split: prod.splits sum.splits if_splits)
qed

lemma tearDown_releases:
  assumes "run_state (tearDown E N m) s = (Inr (), s')"
  shows "\<exists>t u. run_state (popStageMounts E (StagePath m)) s = (Inr (), t) \<and> run_state (IsMountPoint E (StagePath m)) u = (Inr False, t)
     \<and> calls s' = calls t @ releaseCmds m
     \<and> (LoopDev m \<noteq> [] \<longrightarrow> gm_get (lstate s') (sVolumeID m) = Some (m\<lparr>LoopDev := [], CryptDev := []\<rparr>))"
proof -
  obtain r t where p: "run_state (popStageMounts E (StagePath m)) s = (r, t)" by (rule prod.exhaust)
  have r: "r = Inr ()" using assms p by (cases r) (auto simp: tearDown_def run_onErr)
  obtain u where u: "run_state (IsMountPoint E (StagePath m)) u = (Inr False, t)"
    using popLoop_empties p r unfolding popStageMounts_def by blast
  show ?thesis
  proof (cases "LoopDev m = []")
    case True
    then show ?thesis using assms p r u by (auto simp: tearDown_def run_onErr releaseCmds_def)
  next
    case False
    let ?close = "if CryptDev m \<noteq> [] then cryptClose E (base (CryptDev m)) else ret (Inr ())" and ?n = "m\<lparr>LoopDev := [], CryptDev := []\<rparr>"
    obtain q1 t1 where c: "run_state ?close t = (q1, t1)" by (rule prod.exhaust)
    obtain q2 t2 where d: "run_state (loDetach E (LoopDev m)) t1 = (q2, t2)" by (rule prod.exhaust)
    obtain q3 t3 where w: "run_state (statePut E (nStatePath N) ?n) t2 = (q3, t3)" by (rule prod.exhaust)
    have "s' = t3" using assms p r c d w False by (cases q1; cases q2; cases q3) (auto simp: tearDown_def run_onErr)
    moreover have "calls t1 = calls t @ (if CryptDev m \<noteq> [] then [closeCmd (base (CryptDev m))] else [])"
      using c runsD [OF runs_tools(6)] by (auto split: if_splits)
    moreover have "calls t3 = calls t2" using logs_none [OF logs_statePut, of E "nStatePath N" ?n t2] w by simp
    ultimately show ?thesis
      using p r u False runsD [OF runs_tools(5) d] state_contract(1) [OF w, of "sVolumeID m"] by (auto simp: releaseCmds_def)
  qed
qed

lemma restage_steps:
  assumes "gm_get (failed s) (prVolumeID req) \<noteq> None" "run_state (restageFailed E N req) s = (Inr (), s')"
  shows "\<exists>m ctx entries secrets s0 s1 s2 s3. gm_get (lstate s) (prVolumeID req) = Some m \<and> StageContext m = Some ctx
     \<and> run_state (lockVolume (prVolumeID req)) s = ((), s0) \<and> run_state (ReadMountInfo E (nMountInfo N)) s0 = (Inr entries, s1)
     \<and> \<not> stillPublished entries (StagePath m)
     \<and> run_state (restageKeys E N req ctx) s1 = (Inr secrets, s2) \<and> run_state (tearDown E N m) s2 = (Inr (), s3)
     \<and> run_state (stageLocked E N (restageRequest (prVolumeID req) m ctx secrets)) s3 = (Inr (), s')"
proof -
  obtain s0 where l: "run_state (lockVolume (prVolumeID req)) s = ((), s0)" by (cases "run_state (lockVolume (prVolumeID req)) s") auto
  have v: "sameView s s0" using follows_devices(6) [OF l] by (simp add: follows_def)
  obtain m where m: "gm_get (lstate s) (prVolumeID req) = Some m"
    using assms l v by (auto simp: restageFailed_def failGet_def stateGet_def split: option.splits)
  obtain r s1 where i: "run_state (ReadMountInfo E (nMountInfo N)) s0 = (r, s1)" by (rule prod.exhaust)
  obtain entries where r: "r = Inr entries" "\<not> stillPublished entries (StagePath m)" and e: "run_state (restageEntry E N req m) s1 = (Inr (), s')"
    using assms l v m i by (auto simp: restageFailed_def failGet_def stateGet_def run_onErr split: option.splits sum.splits if_splits)
  obtain ctx where ctx: "StageContext m = Some ctx" using e by (cases "StageContext m") (auto simp: restageEntry_def split: prod.splits)
  obtain k s2 where k: "run_state (restageKeys E N req ctx) s1 = (k, s2)" by (rule prod.exhaust)
  obtain secrets where ks: "k = Inr secrets" using e ctx k by (cases k) (auto simp: restageEntry_def run_onErr)
  obtain u s3 where t: "run_state (tearDown E N m) s2 = (u, s3)" by (rule prod.exhaust)
  have "u = Inr ()" "run_state (stageLocked E N (restageRequest (prVolumeID req) m ctx secrets)) s3 = (Inr (), s')"
    using e ctx k ks t by (auto simp: restageEntry_def run_onErr split: sum.splits prod.splits)
  with m ctx l i r k ks t show ?thesis by blast
qed

text \<open>
  C5: A pod never gets a failed file system. When publishing a volume that is marked as failed succeeds,
  then first, in this order: nothing on the node published it any more, its staging path was emptied
  (the last check found nothing mounted there), its mapping was closed and its loop device
  detached, and its entry recorded without them, unless an earlier attempt had done so, and it was
  staged again from its recorded request. The mark is cleared by then, unless that stage found the
  emptied path mounted again.
\<close>

theorem publish_rebuilds_failed:
  assumes "gm_get (failed s) (prVolumeID req) = Some since" "run_state (NodePublishVolume E N req) s = (Inr (), s')"
  shows "\<exists>m ctx entries secrets s0 s1 s2 s3 s4. gm_get (lstate s) (prVolumeID req) = Some m \<and> StageContext m = Some ctx
     \<and> run_state (lockVolume (prVolumeID req)) s = ((), s0) \<and> run_state (ReadMountInfo E (nMountInfo N)) s0 = (Inr entries, s1)
     \<and> \<not> stillPublished entries (StagePath m)
     \<and> run_state (restageKeys E N req ctx) s1 = (Inr secrets, s2) \<and> run_state (tearDown E N m) s2 = (Inr (), s3)
     \<and> (\<exists>t u. run_state (popStageMounts E (StagePath m)) s2 = (Inr (), t) \<and> run_state (IsMountPoint E (StagePath m)) u = (Inr False, t)
          \<and> calls s3 = calls t @ releaseCmds m
          \<and> (LoopDev m \<noteq> [] \<longrightarrow> gm_get (lstate s3) (sVolumeID m) = Some (m\<lparr>LoopDev := [], CryptDev := []\<rparr>)))
     \<and> run_state (stageLocked E N (restageRequest (prVolumeID req) m ctx secrets)) s3 = (Inr (), s4)
     \<and> (gm_get (failed s') (prVolumeID req) = None \<or> stagedAlready E N (restageRequest (prVolumeID req) m ctx secrets) s3)"
proof -
  let ?bind = "onErr (sysc (h_mkdirAll E (prTarget req))) (\<lambda>_. Status Internal ''mkdir target'') (\<lambda>_. do {
     mounted \<leftarrow> IsMountPoint E (prTarget req);
     if mounted = Inr True then ret (Inr ())
     else onErr (BindMount E (prStage req) (prTarget req) (prReadonly req)) (\<lambda>_. Status Internal ''bind mount'') (\<lambda>_. ret (Inr ())) })"
  obtain r s4 where r: "run_state (restageFailed E N req) s = (r, s4)" by (rule prod.exhaust)
  have ok: "r = Inr ()" "run_state ?bind s4 = (Inr (), s')"
    using assms r by (auto simp: NodePublishVolume_def failGet_def run_onErr split: if_splits option.splits sum.splits)
  have "keeps (sameView s4) ?bind" by (intro kept stable_sameView)
  from keeps_run [OF this _ ok(2)] have "failed s' = failed s4" by simp
  moreover obtain m ctx entries secrets s0 s1 s2 s3 where st: "gm_get (lstate s) (prVolumeID req) = Some m" "StageContext m = Some ctx"
      "run_state (lockVolume (prVolumeID req)) s = ((), s0)" "run_state (ReadMountInfo E (nMountInfo N)) s0 = (Inr entries, s1)"
      "\<not> stillPublished entries (StagePath m)" "run_state (restageKeys E N req ctx) s1 = (Inr secrets, s2)"
      "run_state (tearDown E N m) s2 = (Inr (), s3)" "run_state (stageLocked E N (restageRequest (prVolumeID req) m ctx secrets)) s3 = (Inr (), s4)"
    using restage_steps [of s req E N s4] assms(1) r ok(1) by blast
  ultimately show ?thesis
    using tearDown_releases [OF st(7)] stageLocked_clears [OF st(8)] by (metis restageRequest_sel(1))
qed

text \<open>
  The entry is in the table before it is on disk: when that write fails, the stage is undone, but
  the table in memory keeps an entry that names the released devices.
\<close>

lemma persist_failed_entry:
  assumes "run_state (persistStage E N req imgPath dev cryptDev encrypted ks) s = (Inl e, s')"
  shows "gm_get (lstate s') (srVolumeID req) = Some (stagedEntry req imgPath dev cryptDev)"
proof -
  let ?m = "stagedEntry req imgPath dev cryptDev"
  let ?I = "\<lambda>t. lstate t = gm_put (srVolumeID req) ?m (lstate s)"
  obtain r t where p: "run_state (statePut E (nStatePath N) ?m) s = (r, t)" by (rule prod.exhaust)
  then have "gm_get (lstate t) (srVolumeID req) = Some ?m"
    using state_contract(1) [OF p, of "srVolumeID req"] by (simp add: stagedEntry_def)
  moreover have k: "keeps (\<lambda>u. lstate u = lstate t) (do { ignore (Unmount E (srPath req)); release E (srVolumeID req) dev encrypted })"
    by (intro kept) (simp_all add: stable_def nstable_def)
  moreover have "\<exists>x. r = Inl x"
    using assms p by (auto simp: persistStage_def run_onFail recordStage_def split: sum.splits prod.splits if_splits)
  ultimately show ?thesis
    using assms p k [unfolded keeps_def, rule_format, of t] by (auto simp: persistStage_def run_onFail gm_get_put split: prod.splits)
qed

end
