(* ===== verification/Monitor.thy ===== *)
theory Monitor
  imports Node_Props
begin

text \<open>
  \<^verbatim>\<open>pkg/driver/monitor.go\<close>: finds staged volumes whose ext4 was forced read-only, marks them and, when
  allowed to, deletes the pods that use them so that they are re-staged. The per-failure memory
  is three maps to true, kept here as the lists of their keys; a nil map reads like an empty one and
  is made before its first write. Log lines are left out, so \<^verbatim>\<open>offLogged\<close> has no effect but on itself.
\<close>

section \<open>Definitions\<close>

record 'w mon_st = "'w node_st" +
  offLogged :: "string list"
  eventSent :: "string list"
  skipEvented :: "string list"

record monitor =
  mNode :: string
  mKube :: "httpClient option"
  AutoDelete :: bool
  mMountInfo :: string

definition MonitorInterval :: int where
  "MonitorInterval = 10 * nsPerSecond"

definition RemediationHold :: int where
  "RemediationHold = 5 * 60 * nsPerSecond"

definition PodDeletePolicyName :: string where
  "PodDeletePolicyName = ''fileblock-node-pod-delete''"

definition forget :: "string \<Rightarrow> (('w, 'm) mon_st_scheme, unit) state" where
  "forget v = modify (\<lambda>s. s\<lparr>offLogged := removeAll v (offLogged s), eventSent := removeAll v (eventSent s),
     skipEvented := filter (\<lambda>k. \<not> hasPrefix k (v @ ''/'')) (skipEvented s)\<rparr>)"

text \<open>Why a pod is left alone; empty when it may be deleted.\<close>

definition skipReason :: "pod \<Rightarrow> int \<Rightarrow> string" where
  "skipReason p failedAt =
     (if ControllerOwner p = None then ''no controller would recreate it''
      else if DeletionTimestamp p \<noteq> None then ''already terminating''
      else if (case StartTime p of None \<Rightarrow> True | Some t \<Rightarrow> \<not> t < failedAt) then ''started after the volume failed''
      else [])"

definition monEvent :: "'w host \<Rightarrow> httpClient \<Rightarrow> pod \<Rightarrow> string \<Rightarrow> (('w, 'm) mon_st_scheme, unit) state" where
  "monEvent E k p msg = ignore (PodEvent E k p EventReasonVolumeFailed msg)"

definition byUID :: "pod list \<Rightarrow> (string, pod) gomap" where
  "byUID pods = fold (\<lambda>p m. gm_put (pUID p) p m) pods []"

text \<open>The pods of this node the volume is published to, once per target.\<close>

definition usersOf :: "publishTarget list \<Rightarrow> pod list \<Rightarrow> pod list" where
  "usersOf targets pods = List.map_filter (\<lambda>t. gm_get (byUID pods) (PodUID t)) targets"

definition failedMsg :: "string \<Rightarrow> string" where
  "failedMsg v = ''fileblock volume '' @ v @ '' was forced read-only by ext4 (backing-store I/O error); it must be re-staged''"

definition skipMsg :: "string \<Rightarrow> string \<Rightarrow> string" where
  "skipMsg v reason = ''fileblock volume '' @ v @ '' failed but this pod was not deleted automatically: '' @ reason"

text \<open>The first events of a failure.\<close>

definition announce :: "'w host \<Rightarrow> httpClient \<Rightarrow> string \<Rightarrow> pod list \<Rightarrow> (('w, 'm) mon_st_scheme, unit) state" where
  "announce E k v users = do {
     sent \<leftarrow> gets (\<lambda>s. v \<in> set (eventSent s));
     if sent then ret ()
     else do {
       modify (\<lambda>s. s\<lparr>eventSent := v # eventSent s\<rparr>);
       forEach users (\<lambda>p. monEvent E k p (failedMsg v))
     }
   }"

text \<open>The loop over the users; true when a deletion was attempted.\<close>

fun deleteUsers :: "'w host \<Rightarrow> httpClient \<Rightarrow> string \<Rightarrow> int \<Rightarrow> pod list \<Rightarrow> (('w, 'm) mon_st_scheme, bool) state" where
  "deleteUsers E k v failedAt [] = ret False"
| "deleteUsers E k v failedAt (p # ps) =
     (let reason = skipReason p failedAt; key = v @ ''/'' @ pUID p in
      if reason \<noteq> [] then do {
        sent \<leftarrow> gets (\<lambda>s. key \<in> set (skipEvented s));
        (if sent then ret ()
         else do { modify (\<lambda>s. s\<lparr>skipEvented := key # skipEvented s\<rparr>); monEvent E k p (skipMsg v reason) });
        deleteUsers E k v failedAt ps
      }
      else do {
        ignore (DeletePod E k (pNamespace p) (pName p) (pUID p));
        ignore (deleteUsers E k v failedAt ps);
        ret True
      })"

definition remediate :: "'w host \<Rightarrow> monitor \<Rightarrow> httpClient \<Rightarrow> string \<Rightarrow> int \<Rightarrow> int \<Rightarrow> pod list \<Rightarrow> (('w, 'm) mon_st_scheme, unit) state" where
  "remediate E M k v now failedAt users =
     (if \<not> AutoDelete M then modify (\<lambda>s. if v \<in> set (offLogged s) then s else s\<lparr>offLogged := v # offLogged s\<rparr>)
      else do {
        until \<leftarrow> HeldUntil v;
        if now < until then ret ()
        else do {
          attempted \<leftarrow> deleteUsers E k v failedAt users;
          if attempted then failHold v (now + RemediationHold) else ret ()
        }
      })"

text \<open>What follows the mark when there is a client.\<close>

definition reportFailed :: "'w host \<Rightarrow> monitor \<Rightarrow> httpClient \<Rightarrow> string \<Rightarrow> int \<Rightarrow> int \<Rightarrow> publishTarget list \<Rightarrow> (('w, 'm) mon_st_scheme, unit) state" where
  "reportFailed E M k v now failedAt targets = do {
     sent \<leftarrow> gets (\<lambda>s. v \<in> set (eventSent s));
     until \<leftarrow> HeldUntil v;
     if sent \<and> \<not> (AutoDelete M \<and> \<not> now < until) then ret ()
     else do {
       r \<leftarrow> ListPodsOnNode E k (mNode M);
       case r of
         Inl _ \<Rightarrow> ret ()
       | Inr pods \<Rightarrow> do {
           let users = usersOf targets pods;
           announce E k v users;
           remediate E M k v now failedAt users
         }
     }
   }"

definition handleFailed :: "'w host \<Rightarrow> monitor \<Rightarrow> staged \<Rightarrow> mountinfo \<Rightarrow> mountinfo list \<Rightarrow> (('w, 'm) mon_st_scheme, unit) state" where
  "handleFailed E M vol e entries = do {
     let v = sVolumeID vol;
     now \<leftarrow> sysc (h_now E);
     isNew \<leftarrow> failMark v now;
     at \<leftarrow> failGet v;
     let failedAt = (case at of Some t \<Rightarrow> t | None \<Rightarrow> zeroTime);
     (if isNew then forget v else ret ());
     (case mKube M of None \<Rightarrow> ret ()
      | Some k \<Rightarrow> reportFailed E M k v now failedAt (PublishTargets entries (MajorMinor e)))
   }"

text \<open>One volume of the pass, and the pass.\<close>

definition tickVolume :: "'w host \<Rightarrow> monitor \<Rightarrow> mountinfo list \<Rightarrow> staged \<Rightarrow> (('w, 'm) mon_st_scheme, unit) state" where
  "tickVolume E M entries vol = (case LastAt entries (StagePath vol) of
       None \<Rightarrow> forget (sVolumeID vol)
     | Some e \<Rightarrow> if ForcedReadOnly e then handleFailed E M vol e entries
                 else do { failClear (sVolumeID vol); forget (sVolumeID vol) })"

definition Tick :: "'w host \<Rightarrow> monitor \<Rightarrow> (('w, 'm) mon_st_scheme, unit) state" where
  "Tick E M = do {
     r \<leftarrow> ReadMountInfo E (mMountInfo M);
     case r of
       Inl _ \<Rightarrow> ret ()
     | Inr entries \<Rightarrow> do {
         vols \<leftarrow> stateAll;
         forEach vols (tickVolume E M entries)
       }
   }"

text \<open>\<^verbatim>\<open>Run\<close> until the context is done, after \<open>n\<close> more ticks of the timer.\<close>

fun monRun :: "'w host \<Rightarrow> monitor \<Rightarrow> nat \<Rightarrow> (('w, 'm) mon_st_scheme, unit) state" where
  "monRun E M 0 = Tick E M"
| "monRun E M (Suc n) = do { Tick E M; monRun E M n }"

end
