(* ===== verification/Monitor_Props.thy ===== *)
theory Monitor_Props
  imports Monitor
begin

text \<open>
  What the plugin guarantees as a whole: its tables stay consistent through every sequence of calls and
  monitor passes, the monitor deletes only pods that can recover, and it does delete those.
\<close>

section \<open>The invariant of the plugin\<close>

lemma nstable_mon_small [kept]:
  assumes "nstable I"
  shows "keeps I (forget v)" "keeps I (failHold v t)" "keeps I (HeldUntil v)" "keeps I (monEvent E k p msg)"
  unfolding forget_def failHold_def HeldUntil_def monEvent_def
  by (intro kept nstable_modify nstable_stable assms; simp)+

lemma nstable_deleteUsers: "nstable I \<Longrightarrow> keeps I (deleteUsers E k v t users)"
proof (induction users)
  case (Cons p ps)
  then have ps: "keeps I (deleteUsers E k v t ps)" by simp
  show ?case unfolding deleteUsers.simps Let_def by (intro kept ps nstable_modify nstable_stable Cons.prems; simp)
qed (simp add: keeps_ret)

lemma nstable_report:
  assumes "nstable I"
  shows "keeps I (reportFailed E M k v now t targets)"
  unfolding reportFailed_def announce_def remediate_def Let_def
  by (intro kept nstable_deleteUsers nstable_modify nstable_stable assms; simp)

text \<open>The monitor does not change the table, so it marks volumes that are in it.\<close>

abbreviation inv_of :: "(string, staged) gomap \<Rightarrow> ('w, 'm) node_st_scheme \<Rightarrow> bool" where
  "inv_of d s \<equiv> node_inv s \<and> lstate s = d"

lemma nstable_inv_of: "nstable (inv_of d)"
  using nstable_inv unfolding nstable_def by (metis (no_types, lifting))

lemma keeps_tickVolume:
  assumes "gm_get d (sVolumeID vol) \<noteq> None"
  shows "keeps (inv_of d) (tickVolume E M entries vol)"
proof -
  have m: "keeps (inv_of d) (failMark (sVolumeID vol) now)" for now
    using assms by (auto simp: keeps_def failMark_def node_inv_def lstate_inv_def gm_get_put split: option.splits)
  have c: "keeps (inv_of d) (failClear (sVolumeID vol))"
    by (auto simp: keeps_def failClear_def node_inv_def lstate_inv_def gm_get_del)
  show ?thesis
    unfolding tickVolume_def handleFailed_def failGet_def Let_def
    by (intro kept m c nstable_report nstable_stable nstable_inv_of)
qed

lemma keeps_Tick: "keeps node_inv (Tick E M)"
  unfolding keeps_def
proof (intro allI impI)
  fix s :: "('a, 'b) mon_st_scheme"
  assume s: "node_inv s"
  obtain r t where t: "run_state (ReadMountInfo E (mMountInfo M)) s = (r, t)" by (rule prod.exhaust)
  have i: "inv_of (lstate s) t" using keeps_run [OF stable_ReadMountInfo [OF nstable_stable(1) [OF nstable_inv_of]] _ t] s by blast
  have "gm_get (lstate s) (sVolumeID vol) \<noteq> None" if "vol \<in> set (map snd (lstate s))" for vol
    using s that by (auto simp: node_inv_def lstate_inv_def gm_get_set [symmetric] dest!: in_set_zipE)
  then have "keeps (inv_of (lstate s)) (forEach (map snd (lstate s)) (tickVolume E M entries))" for entries
    by (intro keeps_forEach keeps_tickVolume)
  from keeps_snd [OF this i] i t show "node_inv (snd (run_state (Tick E M) s))"
    by (auto simp: Tick_def stateAll_def split: sum.split)
qed

text \<open>The states of a plugin: started with a table it loaded, then serving calls and ticking, in a changing world.\<close>

inductive plug_reach :: "'w host \<Rightarrow> nodeServer \<Rightarrow> monitor \<Rightarrow> ('w, 'm) mon_st_scheme \<Rightarrow> bool" for E N M where
  plug_start: "lstate_inv s \<Longrightarrow> plug_reach E N M (snd (run_state initNode s))"
| plug_stage: "plug_reach E N M s \<Longrightarrow> plug_reach E N M (snd (run_state (NodeStageVolume E N rq) s))"
| plug_unstage: "plug_reach E N M s \<Longrightarrow> plug_reach E N M (snd (run_state (NodeUnstageVolume E N v path) s))"
| plug_publish: "plug_reach E N M s \<Longrightarrow> plug_reach E N M (snd (run_state (NodePublishVolume E N pr) s))"
| plug_unpublish: "plug_reach E N M s \<Longrightarrow> plug_reach E N M (snd (run_state (NodeUnpublishVolume E v path) s))"
| plug_stats: "plug_reach E N M s \<Longrightarrow> plug_reach E N M (snd (run_state (NodeGetVolumeStats E v path) s))"
| plug_expand: "plug_reach E N M s \<Longrightarrow> plug_reach E N M (snd (run_state (NodeExpandVolume E v path r) s))"
| plug_tick: "plug_reach E N M s \<Longrightarrow> plug_reach E N M (snd (run_state (Tick E M) s))"
| plug_env: "plug_reach E N M s \<Longrightarrow> plug_reach E N M (s\<lparr>world := w\<rparr>)"

lemma plug_inv: "plug_reach E N M s \<Longrightarrow> node_inv s"
proof (induction rule: plug_reach.induct)
  case (plug_start s)
  then show ?case by (simp add: initNode_def newFailures_def node_inv_def lstate_inv_def)
next
  case (plug_env s w)
  show ?case by (rule stableD(1) [OF nstable_stable(1) [OF nstable_inv] plug_env.IH])
qed (erule keeps_snd [rotated], rule keeps_node keeps_Tick)+

text \<open>
  C8: The tables of the plugin stay consistent. After any sequence of calls and monitor passes, whatever
  happens on the machine in between, every entry is filed under its own volume; a failure mark or a
  cached key belongs to a volume with an entry; and each cached key is one from which a re-stage builds a
  secret that is accepted and gives back the same key.
\<close>

theorem plugin_invariant:
  assumes "plug_reach E N M s"
  shows "(\<forall>v m. gm_get (lstate s) v = Some m \<longrightarrow> sVolumeID m = v)
       \<and> (\<forall>v. gm_get (failed s) v \<noteq> None \<longrightarrow> gm_get (lstate s) v \<noteq> None)
       \<and> (\<forall>v k. gm_get (nkeys s) v = Some k \<longrightarrow> gm_get (lstate s) v \<noteq> None \<and> keysFromSecrets (restageSecrets k) = Inr k)"
  using plug_inv [OF assms] keys_again by (auto simp: node_inv_def lstate_inv_def)

section \<open>Which pods the monitor deletes\<close>

lemma skipReason_empty: "skipReason p since = [] \<longleftrightarrow>
    ControllerOwner p \<noteq> None \<and> DeletionTimestamp p = None \<and> (\<exists>t. StartTime p = Some t \<and> t < since)"
  by (auto simp: skipReason_def split: option.splits)

lemma deleteUsers_asks:
  "asks (\<lambda>rq. rq_method rq = ''DELETE'' \<longrightarrow> (\<exists>p \<in> set users. skipReason p t = [] \<and> deletionOf k p rq)) (deleteUsers E k v t users)"
proof (induction users)
  case (Cons p ps)
  show ?case
  proof (cases "skipReason p t = []")
    case True
    have "asks (\<lambda>rq. rq_method rq = ''DELETE'' \<longrightarrow> (\<exists>p \<in> set (p # ps). skipReason p t = [] \<and> deletionOf k p rq)) (DeletePod E k (pNamespace p) (pName p) (pUID p))"
      by (rule kc.deletes_one_of) (simp_all add: True)
    then show ?thesis
      by (simp only: deleteUsers.simps Let_def True simp_thms if_False) (intro asked asks_mono [OF Cons.IH]; auto)
  next
    case False
    then show ?thesis unfolding deleteUsers.simps Let_def monEvent_def by simp (intro asked kc.quiet asks_mono [OF Cons.IH]; auto)
  qed
qed (simp add: asked)

lemma deleteUsers_attempted: "fst (run_state (deleteUsers E k v t users) s) \<longleftrightarrow> (\<exists>p \<in> set users. skipReason p t = [])"
  by (induction users arbitrary: s) (auto simp: Let_def run_ignore split: prod.splits)

definition heldOf :: "('w, 'm) fail_st_scheme \<Rightarrow> string \<Rightarrow> int" where
  "heldOf s v = (case gm_get (held s) v of Some t \<Rightarrow> t | None \<Rightarrow> zeroTime)"

text \<open>The pods the API server listed for the monitor's node.\<close>

definition listed :: "'w host \<Rightarrow> monitor \<Rightarrow> httpClient \<Rightarrow> pod list \<Rightarrow> bool" where
  "listed E M k pods \<longleftrightarrow> (\<exists>tok code body. answered E (apiRequest k tok ''GET'' (podsPath (mNode M)) None) code body \<and> code < 300
     \<and> jpods (take (4 * 2 ^ 20) body) = Some pods)"

lemma ListPods_listed:
  assumes "run_state (ListPodsOnNode E k (mNode M)) s = (Inr pods, s')"
  shows "listed E M k pods"
proof -
  obtain r t where d: "run_state (kubeDo E k ''GET'' (podsPath (mNode M)) None) s = (r, t)" by (rule prod.exhaust)
  with assms obtain data where "r = Inr data" "jpods data = Some pods"
    by (auto simp: ListPodsOnNode_def run_onErr split: sum.splits option.splits)
  with kubeDo_request [OF d] show ?thesis by (auto simp: listed_def)
qed

lemma asks_announce: "asks (\<lambda>rq. rq_method rq \<noteq> ''DELETE'') (announce E k v users)"
  unfolding announce_def monEvent_def by (intro asked kc.event_posts; simp)

lemma keeps_held:
  assumes "kstable I" "\<And>s x. I s \<Longrightarrow> I (s\<lparr>eventSent := x\<rparr>)"
  shows "keeps I (announce E k v users)"
  unfolding announce_def monEvent_def by (intro kept assms(1)) (simp add: keeps_def assms(2))

lemma deleteUsers_held: "held (snd (run_state (deleteUsers E k v t users) s)) = held s"
proof -
  have "keeps (\<lambda>u. held u = held s) (deleteUsers E k v t users)"
  proof (induction users)
    case (Cons p ps)
    show ?case unfolding deleteUsers.simps Let_def monEvent_def
      by (intro kept Cons.IH) (simp_all add: kstable_def stable_def keeps_def)
  qed (simp add: keeps_ret)
  from keeps_snd [OF this, of s] show ?thesis by simp
qed

text \<open>When the monitor asks for a deletion, and what it notes down then.\<close>

definition mayDelete :: "'w host \<Rightarrow> monitor \<Rightarrow> httpClient \<Rightarrow> int \<Rightarrow> publishTarget list \<Rightarrow> http_req \<Rightarrow> bool" where
  "mayDelete E M k since targets rq \<longleftrightarrow> AutoDelete M
     \<and> (\<exists>pods p. listed E M k pods \<and> p \<in> set (usersOf targets pods) \<and> skipReason p since = [] \<and> deletionOf k p rq)"

lemma remediate_requests:
  assumes "run_state (remediate E M k v now since users) s = (u, s')"
  shows "\<exists>rs. requests s' = requests s @ rs \<and> (\<forall>rq \<in> set rs. rq_method rq = ''DELETE'' \<longrightarrow>
       AutoDelete M \<and> heldOf s v \<le> now \<and> gm_get (held s') v = Some (now + RemediationHold)
     \<and> (\<exists>p \<in> set users. skipReason p since = [] \<and> deletionOf k p rq))"
proof (cases "AutoDelete M \<and> \<not> now < heldOf s v")
  case True
  obtain a t where d: "run_state (deleteUsers E k v since users) s = (a, t)" by (rule prod.exhaust)
  from asksD [OF deleteUsers_asks d] obtain rs where rs: "requests t = requests s @ rs"
    "\<forall>rq \<in> set rs. rq_method rq = ''DELETE'' \<longrightarrow> (\<exists>p \<in> set users. skipReason p since = [] \<and> deletionOf k p rq)"
    by (auto simp: list_all_iff)
  have "a \<longleftrightarrow> (\<exists>p \<in> set users. skipReason p since = [])" using deleteUsers_attempted [of E k v since users s] d by simp
  then show ?thesis
    using assms True d rs by (intro exI [of _ rs])
      (auto simp: remediate_def HeldUntil_def heldOf_def [symmetric] failHold_def gm_get_put split: if_splits)
next
  case False
  then have "requests s' = requests s"
    using assms by (auto simp: remediate_def HeldUntil_def heldOf_def [symmetric] split: if_splits)
  then show ?thesis by simp
qed

lemma report_requests:
  assumes "run_state (reportFailed E M k v now since targets) s = (u, s')"
  shows "\<exists>rs. requests s' = requests s @ rs \<and> (\<forall>rq \<in> set rs. rq_method rq = ''DELETE'' \<longrightarrow>
       mayDelete E M k since targets rq \<and> heldOf s v \<le> now \<and> gm_get (held s') v = Some (now + RemediationHold))"
proof -
  obtain r s1 where l: "run_state (ListPodsOnNode E k (mNode M)) s = (r, s1)" by (rule prod.exhaust)
  have ks: "kstable (\<lambda>t. held t = held s)" by (simp add: kstable_def stable_def)
  have h1: "held s1 = held s" using keeps_run [OF kstable_kube(1) [OF ks] _ l] by simp
  obtain rs1 where r1: "requests s1 = requests s @ rs1" "\<forall>rq \<in> set rs1. rq_method rq \<noteq> ''DELETE''"
    using asksD [OF asks_kube(1) l, of "\<lambda>rq. rq_method rq \<noteq> ''DELETE''"] by (auto simp: list_all_iff)
  show ?thesis
  proof (cases "(v \<in> set (eventSent s) \<and> \<not> (AutoDelete M \<and> \<not> now < heldOf s v)) \<or> isl r")
    case True
    then have "requests s' = requests s \<or> requests s' = requests s1"
      using assms l by (auto simp: reportFailed_def HeldUntil_def heldOf_def [symmetric] split: if_splits sum.splits)
    then show ?thesis
    proof
      assume "requests s' = requests s1"
      with r1 show ?thesis by (intro exI [of _ rs1]) auto
    qed simp
  next
    case False
    then obtain pods where p: "r = Inr pods" by (cases r) auto
    let ?users = "usersOf targets pods"
    obtain u2 s2 where a: "run_state (announce E k v ?users) s1 = (u2, s2)" by (rule prod.exhaust)
    have h2: "held s2 = held s" using keeps_run [OF keeps_held [OF ks] _ a] h1 by simp
    obtain rs2 where r2: "requests s2 = requests s1 @ rs2" "\<forall>rq \<in> set rs2. rq_method rq \<noteq> ''DELETE''"
      using asksD [OF asks_announce a] by (auto simp: list_all_iff)
    have "run_state (remediate E M k v now since ?users) s2 = (u, s')"
      using assms l a p False by (auto simp: reportFailed_def HeldUntil_def heldOf_def [symmetric] Let_def split: if_splits)
    from remediate_requests [OF this] obtain rs3 where "requests s' = requests s2 @ rs3"
      "\<forall>rq \<in> set rs3. rq_method rq = ''DELETE'' \<longrightarrow> AutoDelete M \<and> heldOf s2 v \<le> now \<and> gm_get (held s') v = Some (now + RemediationHold)
         \<and> (\<exists>p \<in> set ?users. skipReason p since = [] \<and> deletionOf k p rq)" by blast
    with r1 r2 h2 ListPods_listed [OF l [unfolded p]] show ?thesis
      by (intro exI [of _ "rs1 @ rs2 @ rs3"]) (auto simp: mayDelete_def heldOf_def, blast)
  qed
qed

text \<open>A volume's pass touches the marks and hold-offs of no other volume.\<close>

abbreviation others :: "string \<Rightarrow> ('w, 'm) fail_st_scheme \<Rightarrow> ('w, 'm) fail_st_scheme \<Rightarrow> bool" where
  "others v s t \<equiv> \<forall>u. u \<noteq> v \<longrightarrow> gm_get (failed t) u = gm_get (failed s) u \<and> gm_get (held t) u = gm_get (held s) u"

lemma keeps_report_frame:
  "keeps (\<lambda>t. failed t = F \<and> (\<forall>u. u \<noteq> v \<longrightarrow> gm_get (held t) u = H u)) (reportFailed E M k v now since targets)" (is "keeps ?I _")
proof -
  have ks: "kstable ?I" by (simp add: kstable_def stable_def)
  have d: "keeps ?I (deleteUsers E k v since users)" for users
  proof (induction users)
    case (Cons p ps)
    show ?case unfolding deleteUsers.simps Let_def monEvent_def by (intro kept Cons.IH ks) (simp add: keeps_def)
  qed (simp add: keeps_ret)
  have h: "keeps ?I (failHold v t)" for t by (auto simp: keeps_def failHold_def gm_get_put)
  show ?thesis
    unfolding reportFailed_def remediate_def HeldUntil_def Let_def
    by (intro kept ks d h keeps_held) (simp_all add: keeps_def)
qed

definition deletes :: "'w host \<Rightarrow> monitor \<Rightarrow> mountinfo list \<Rightarrow> staged \<Rightarrow> ('w, 'm) mon_st_scheme \<Rightarrow> ('w, 'm) mon_st_scheme \<Rightarrow> http_req \<Rightarrow> bool" where
  "deletes E M entries vol s s' rq \<longleftrightarrow> (\<exists>e k w now since. LastAt entries (StagePath vol) = Some e \<and> ForcedReadOnly e \<and> mKube M = Some k
     \<and> now = fst (h_now E w) \<and> gm_get (failed s') (sVolumeID vol) = Some since
     \<and> mayDelete E M k since (PublishTargets entries (MajorMinor e)) rq
     \<and> heldOf s (sVolumeID vol) \<le> now \<and> gm_get (held s') (sVolumeID vol) = Some (now + RemediationHold))"

text \<open>Marking a volume, and the report that follows.\<close>

definition sinceOf :: "'w host \<Rightarrow> ('w, 'm) fail_st_scheme \<Rightarrow> string \<Rightarrow> int" where
  "sinceOf E s v = (case gm_get (failed s) v of Some t \<Rightarrow> t | None \<Rightarrow> fst (h_now E (world s)))"

lemma handleFailed_parts:
  assumes run: "run_state (handleFailed E M vol e entries) s = (u, s')"
  obtains t where "\<And>v. gm_get (failed t) v = (if v = sVolumeID vol then Some (sinceOf E s v) else gm_get (failed s) v)"
    "held t = held s" "requests t = requests s"
    "run_state (case mKube M of None \<Rightarrow> ret () | Some k \<Rightarrow> reportFailed E M k (sVolumeID vol) (fst (h_now E (world s)))
        (sinceOf E s (sVolumeID vol)) (PublishTargets entries (MajorMinor e))) t = (u, s')"
proof -
  let ?v = "sVolumeID vol" and ?now = "fst (h_now E (world s))" and ?w = "snd (h_now E (world s))"
  define t where "t = (if gm_get (failed s) ?v = None then snd (run_state (forget ?v) (s\<lparr>world := ?w, failed := gm_put ?v ?now (failed s)\<rparr>))
      else s\<lparr>world := ?w\<rparr>)"
  have "run_state (case mKube M of None \<Rightarrow> ret ()
      | Some k \<Rightarrow> reportFailed E M k ?v ?now (sinceOf E s ?v) (PublishTargets entries (MajorMinor e))) t = (u, s')"
    using run by (cases "gm_get (failed s) ?v"; cases "mKube M")
      (simp_all add: gm_get_put handleFailed_def run_sysc failMark_def failGet_def Let_def t_def sinceOf_def forget_def)
  then show thesis
    by (rule that [rotated 3]) (auto simp: t_def forget_def gm_get_put sinceOf_def)
qed

lemma report_frame:
  assumes "run_state (case mKube M of None \<Rightarrow> ret () | Some k \<Rightarrow> reportFailed E M k v now since targets) t = (u, s')"
  shows "failed s' = failed t" "w \<noteq> v \<Longrightarrow> gm_get (held s') w = gm_get (held t) w"
proof -
  have "failed s' = failed t \<and> (\<forall>w. w \<noteq> v \<longrightarrow> gm_get (held s') w = gm_get (held t) w)"
  proof (cases "mKube M")
    case (Some k)
    show ?thesis
      using keeps_run [OF keeps_report_frame [where F = "failed t" and v = v and H = "gm_get (held t)"], of t] assms Some by simp
  qed (use assms in simp)
  then show "failed s' = failed t" "w \<noteq> v \<Longrightarrow> gm_get (held s') w = gm_get (held t) w" by auto
qed

lemma handleFailed_run:
  assumes run: "run_state (handleFailed E M vol e entries) s = (u, s')"
    and e: "LastAt entries (StagePath vol) = Some e" "ForcedReadOnly e"
  shows "others (sVolumeID vol) s s' \<and> (\<exists>rs. requests s' = requests s @ rs \<and> (\<forall>rq \<in> set rs. rq_method rq = ''DELETE'' \<longrightarrow> deletes E M entries vol s s' rq))"
proof -
  let ?v = "sVolumeID vol" and ?now = "fst (h_now E (world s))"
  obtain t where t: "\<And>v. gm_get (failed t) v = (if v = ?v then Some (sinceOf E s v) else gm_get (failed s) v)"
    "held t = held s" "requests t = requests s"
    and r: "run_state (case mKube M of None \<Rightarrow> ret () | Some k \<Rightarrow> reportFailed E M k ?v ?now (sinceOf E s ?v) (PublishTargets entries (MajorMinor e))) t = (u, s')"
    using handleFailed_parts [OF run] by metis
  note fr = report_frame [OF r]
  show ?thesis
  proof (cases "mKube M")
    case None
    with r t show ?thesis by simp
  next
    case (Some k)
    with r have "run_state (reportFailed E M k ?v ?now (sinceOf E s ?v) (PublishTargets entries (MajorMinor e))) t = (u, s')" by simp
    from report_requests [OF this] t fr e Some show ?thesis
      by (auto simp: deletes_def heldOf_def intro!: exI [of _ "world s"])
  qed
qed

lemma tickVolume_run:
  assumes "run_state (tickVolume E M entries vol) s = (u, s')"
  shows "others (sVolumeID vol) s s' \<and> (\<exists>rs. requests s' = requests s @ rs \<and> (\<forall>rq \<in> set rs. rq_method rq = ''DELETE'' \<longrightarrow> deletes E M entries vol s s' rq))"
proof (cases "LastAt entries (StagePath vol)")
  case (Some e)
  show ?thesis
  proof (cases "ForcedReadOnly e")
    case True
    then show ?thesis using handleFailed_run [of E M vol e entries s u s'] assms Some by (simp add: tickVolume_def)
  qed (use assms Some in \<open>auto simp: tickVolume_def failClear_def forget_def gm_get_del\<close>)
qed (use assms in \<open>auto simp: tickVolume_def forget_def\<close>)

lemma tickAll_run:
  assumes "run_state (forEach vols (tickVolume E M entries)) s = (u, s')" "distinct (map sVolumeID vols)"
  shows "(\<forall>v. v \<notin> sVolumeID ` set vols \<longrightarrow> gm_get (failed s') v = gm_get (failed s) v \<and> gm_get (held s') v = gm_get (held s) v)
    \<and> (\<exists>rs. requests s' = requests s @ rs \<and> (\<forall>rq \<in> set rs. rq_method rq = ''DELETE'' \<longrightarrow> (\<exists>vol \<in> set vols. deletes E M entries vol s s' rq)))"
  using assms
proof (induction vols arbitrary: s)
  case (Cons vol vols)
  obtain u1 s1 where 1: "run_state (tickVolume E M entries vol) s = (u1, s1)" by (rule prod.exhaust)
  with Cons.prems have 2: "run_state (forEach vols (tickVolume E M entries)) s1 = (u, s')" by simp
  note a = tickVolume_run [OF 1] and b = Cons.IH [OF 2]
  obtain rs1 where r1: "requests s1 = requests s @ rs1" "\<forall>rq \<in> set rs1. rq_method rq = ''DELETE'' \<longrightarrow> deletes E M entries vol s s1 rq" using a by blast
  obtain rs2 where r2: "requests s' = requests s1 @ rs2" "\<forall>rq \<in> set rs2. rq_method rq = ''DELETE'' \<longrightarrow> (\<exists>w \<in> set vols. deletes E M entries w s1 s' rq)"
    and o2: "\<And>v. v \<notin> sVolumeID ` set vols \<Longrightarrow> gm_get (failed s') v = gm_get (failed s1) v \<and> gm_get (held s') v = gm_get (held s1) v"
    using b Cons.prems(2) by auto
  have "sVolumeID vol \<notin> sVolumeID ` set vols" using Cons.prems(2) by simp
  then have "deletes E M entries vol s s' rq" if "deletes E M entries vol s s1 rq" for rq
    using that o2 [of "sVolumeID vol"] by (simp add: deletes_def)
  moreover have "deletes E M entries w s s' rq" if "w \<in> set vols" "deletes E M entries w s1 s' rq" for w rq
  proof -
    have "sVolumeID w \<noteq> sVolumeID vol" using that(1) Cons.prems(2) by (metis distinct.simps(2) image_eqI list.set_map list.simps(9))
    then have "heldOf s1 (sVolumeID w) = heldOf s (sVolumeID w)" using a by (simp add: heldOf_def)
    then show ?thesis using that(2) by (simp add: deletes_def)
  qed
  ultimately show ?case
    using a o2 r1 r2 by (intro conjI exI [of _ "rs1 @ rs2"]) (auto, blast)
qed simp

lemma ReadMountInfo_frame:
  assumes "run_state (ReadMountInfo E path) s = (r, t)"
  shows "lstate t = lstate s" "failed t = failed s" "held t = held s" "requests t = requests s"
proof -
  have "keeps (\<lambda>t. lstate t = lstate s \<and> failed t = failed s \<and> held t = held s \<and> requests t = requests s) (ReadMountInfo E path)"
    by (rule stable_ReadMountInfo) (simp add: stable_def)
  from keeps_run [OF this _ assms] show "lstate t = lstate s" "failed t = failed s" "held t = held s" "requests t = requests s" by simp_all
qed

lemma inv_volumes:
  assumes "node_inv s"
  shows "distinct (map sVolumeID (map snd (lstate s)))" "vol \<in> set (map snd (lstate s)) \<longleftrightarrow> gm_get (lstate s) (sVolumeID vol) = Some vol"
proof -
  have l: "gm_wf (lstate s)" "\<And>k m. gm_get (lstate s) k = Some m \<Longrightarrow> sVolumeID m = k" using assms by (auto simp: node_inv_def lstate_inv_def)
  then have "map sVolumeID (map snd (lstate s)) = map fst (lstate s)" by (auto simp: gm_get_set)
  with l(1) show "distinct (map sVolumeID (map snd (lstate s)))" unfolding gm_wf_def by (simp only:)
  show "vol \<in> set (map snd (lstate s)) \<longleftrightarrow> gm_get (lstate s) (sVolumeID vol) = Some vol"
  proof
    assume "vol \<in> set (map snd (lstate s))"
    then obtain k where "gm_get (lstate s) k = Some vol" using l(1) by (auto simp: gm_get_set)
    with l(2) show "gm_get (lstate s) (sVolumeID vol) = Some vol" by metis
  next
    assume "gm_get (lstate s) (sVolumeID vol) = Some vol"
    then have "(sVolumeID vol, vol) \<in> set (lstate s)" by (rule map_of_SomeD)
    then show "vol \<in> set (map snd (lstate s))" by (metis image_eqI list.set_map snd_conv)
  qed
qed

text \<open>
  C2: Only pods that can recover are deleted, and not in quick succession. A monitor pass asks for the deletion of
  a pod only when automatic deletion is on, a staged volume's own mount was forced read-only, the API server
  listed the pod on this node, the volume is published to it, a controller owns it, it is not
  terminating, and it started before the volume was marked as failed. Then the volume's hold-off was over
  and is now five minutes from the monitor's clock.
\<close>

theorem Tick_deletes_only:
  assumes inv: "node_inv s" and run: "run_state (Tick E M) s = (u, s')"
    and rq: "rq \<in> set (newreqs s s')" "rq_method rq = ''DELETE''"
  shows "AutoDelete M \<and> (\<exists>entries t vol e k pods p w since started.
       run_state (ReadMountInfo E (mMountInfo M)) s = (Inr entries, t)
     \<and> gm_get (lstate s) (sVolumeID vol) = Some vol \<and> LastAt entries (StagePath vol) = Some e \<and> ForcedReadOnly e
     \<and> mKube M = Some k \<and> listed E M k pods \<and> p \<in> set (usersOf (PublishTargets entries (MajorMinor e)) pods)
     \<and> ControllerOwner p \<noteq> None \<and> DeletionTimestamp p = None
     \<and> gm_get (failed s') (sVolumeID vol) = Some since \<and> StartTime p = Some started \<and> started < since
     \<and> deletionOf k p rq \<and> heldOf s (sVolumeID vol) \<le> fst (h_now E w)
     \<and> heldOf s' (sVolumeID vol) = fst (h_now E w) + RemediationHold)"
proof -
  obtain r t where i: "run_state (ReadMountInfo E (mMountInfo M)) s = (r, t)" by (rule prod.exhaust)
  note t = ReadMountInfo_frame [OF i]
  obtain entries where r: "r = Inr entries" using run i t rq by (cases r) (auto simp: Tick_def newreqs_def)
  have all: "run_state (forEach (map snd (lstate s)) (tickVolume E M entries)) t = (u, s')"
    using run i r t by (simp add: Tick_def stateAll_def)
  from tickAll_run [OF all inv_volumes(1) [OF inv]] obtain rs where "requests s' = requests s @ rs"
    "\<forall>rq \<in> set rs. rq_method rq = ''DELETE'' \<longrightarrow> (\<exists>vol \<in> set (map snd (lstate s)). deletes E M entries vol t s' rq)" using t(4) by auto
  then obtain vol where vol: "vol \<in> set (map snd (lstate s))" "deletes E M entries vol t s' rq"
    using rq unfolding newreqs_def by (metis append_eq_conv_conj)
  then have "gm_get (lstate s) (sVolumeID vol) = Some vol" using inv_volumes(2) [OF inv] by blast
  moreover from vol(2) obtain e k w since where d: "LastAt entries (StagePath vol) = Some e" "ForcedReadOnly e" "mKube M = Some k"
    "gm_get (failed s') (sVolumeID vol) = Some since" "mayDelete E M k since (PublishTargets entries (MajorMinor e)) rq"
    "heldOf t (sVolumeID vol) \<le> fst (h_now E w)" "gm_get (held s') (sVolumeID vol) = Some (fst (h_now E w) + RemediationHold)"
    by (auto simp: deletes_def)
  moreover from d(5) obtain pods p where "AutoDelete M" "listed E M k pods" "p \<in> set (usersOf (PublishTargets entries (MajorMinor e)) pods)"
    "skipReason p since = []" "deletionOf k p rq" by (auto simp: mayDelete_def)
  moreover have "heldOf t (sVolumeID vol) = heldOf s (sVolumeID vol)" "heldOf s' (sVolumeID vol) = fst (h_now E w) + RemediationHold"
    using t(3) d(7) by (simp_all add: heldOf_def)
  ultimately show ?thesis using i r unfolding skipReason_empty by (intro conjI) (assumption, metis)
qed

section \<open>A failed volume is remedied\<close>

text \<open>The API server can be reached and keeps answering that these pods run on the node.\<close>

definition api_up :: "'w host \<Rightarrow> httpClient \<Rightarrow> string \<Rightarrow> pod list \<Rightarrow> bool" where
  "api_up E k node pods \<longleftrightarrow> (\<forall>w. \<exists>tok. fst (h_readFile E (tokenPath k) w) = Inr tok)
     \<and> (\<exists>body. jpods (take (4 * 2 ^ 20) body) = Some pods
          \<and> (\<forall>tok w. fst (h_http E (apiRequest k tok ''GET'' (podsPath node) None) w) = Inr (200, body)))"

lemma api_up_list: "api_up E k node pods \<Longrightarrow> \<exists>s'. run_state (ListPodsOnNode E k node) s = (Inr pods, s')"
proof -
  assume up: "api_up E k node pods"
  obtain tok where "fst (h_readFile E (tokenPath k) (world s)) = Inr tok" using up unfolding api_up_def by blast
  with up show ?thesis
    by (auto simp: api_up_def ListPodsOnNode_def kubeDo_def sendRequest_def run_onErr run_sysc Let_def)
qed

lemma api_up_delete:
  assumes "api_up E k node pods"
  shows "\<exists>rq. deletionOf k p rq \<and> requests (snd (run_state (DeletePod E k (pNamespace p) (pName p) (pUID p)) s)) = requests s @ [rq]"
proof -
  obtain tok where "fst (h_readFile E (tokenPath k) (world s)) = Inr tok" using assms unfolding api_up_def by blast
  then show ?thesis
    by (auto simp: DeletePod_def kubeDo_def sendRequest_def run_onErr run_sysc Let_def deletionOf_def split: sum.split prod.split)
qed

lemma deleteUsers_sends:
  assumes "api_up E k node pods" "p \<in> set users" "skipReason p t = []"
  shows "\<exists>rq rs. deletionOf k p rq \<and> requests (snd (run_state (deleteUsers E k v t users) s)) = requests s @ rs \<and> rq \<in> set rs"
  using assms(2)
proof (induction users arbitrary: s)
  case (Cons q users)
  have grow: "\<exists>rs. requests (snd (run_state (deleteUsers E k v t us) s0)) = requests s0 @ rs" for us and s0 :: "('a, 'b) mon_st_scheme"
    using asksD [OF deleteUsers_asks surjective_pairing] by blast
  show ?case
  proof (cases "skipReason q t = []")
    case True
    let ?s1 = "snd (run_state (DeletePod E k (pNamespace q) (pName q) (pUID q)) s)"
    obtain rq where rq: "deletionOf k q rq" "requests ?s1 = requests s @ [rq]" using api_up_delete [OF assms(1)] by blast
    have eq: "snd (run_state (deleteUsers E k v t (q # users)) s) = snd (run_state (deleteUsers E k v t users) ?s1)"
      using True by (simp add: Let_def run_ignore split: prod.splits)
    show ?thesis
    proof (cases "q = p")
      case True
      with grow [of users ?s1] rq eq show ?thesis by fastforce
    next
      case False
      with Cons.IH [of ?s1] Cons.prems rq eq show ?thesis by fastforce
    qed
  next
    case False
    let ?m = "do { sent \<leftarrow> gets (\<lambda>s. v @ ''/'' @ pUID q \<in> set (skipEvented s)); (if sent then ret () else do {
       modify (\<lambda>s. s\<lparr>skipEvented := (v @ ''/'' @ pUID q) # skipEvented s\<rparr>); monEvent E k q (skipMsg v (skipReason q t)) }) }"
    have eq: "run_state (deleteUsers E k v t (q # users)) s = run_state (deleteUsers E k v t users) (snd (run_state ?m s))"
      using False by (simp add: Let_def split: prod.splits)
    have "asks (\<lambda>_. True) ?m" unfolding monEvent_def by (intro asked asks_mono [OF kc.event_posts]; simp)
    from asksD [OF this surjective_pairing] obtain rs where "requests (snd (run_state ?m s)) = requests s @ rs" by blast
    moreover have "p \<in> set users" using Cons.prems False assms(3) by auto
    ultimately show ?thesis using Cons.IH [of "snd (run_state ?m s)"] eq by fastforce
  qed
qed simp

lemma report_sends:
  assumes up: "api_up E k (mNode M) pods" and a: "AutoDelete M" "heldOf s v \<le> now"
    and p: "p \<in> set (usersOf targets pods)" "skipReason p since = []"
    and run: "run_state (reportFailed E M k v now since targets) s = (u, s')"
  shows "\<exists>rq rs. deletionOf k p rq \<and> requests s' = requests s @ rs \<and> rq \<in> set rs"
proof -
  obtain s1 where l: "run_state (ListPodsOnNode E k (mNode M)) s = (Inr pods, s1)" using api_up_list [OF up] by blast
  obtain u2 s2 where an: "run_state (announce E k v (usersOf targets pods)) s1 = (u2, s2)" by (rule prod.exhaust)
  have ks: "kstable (\<lambda>t. held t = held s)" by (simp add: kstable_def stable_def)
  have "held s1 = held s" using keeps_run [OF kstable_kube(1) [OF ks] _ l] by simp
  then have h2: "heldOf s2 v = heldOf s v" using keeps_run [OF keeps_held [OF ks] _ an] by (simp add: heldOf_def)
  have g: "\<exists>rs. requests s1 = requests s @ rs" "\<exists>rs. requests s2 = requests s1 @ rs"
    using asksD [OF asks_kube(1) l, of "\<lambda>_. True"] asksD [OF asks_announce an] by blast+
  have "run_state (remediate E M k v now since (usersOf targets pods)) s2 = (u, s')"
    using run l an a by (simp add: reportFailed_def HeldUntil_def heldOf_def [symmetric] Let_def)
  then have "requests s' = requests (snd (run_state (deleteUsers E k v since (usersOf targets pods)) s2))"
    using a h2 by (auto simp: remediate_def HeldUntil_def heldOf_def [symmetric] failHold_def split: prod.splits if_splits)
  with deleteUsers_sends [OF up p, of v s2] g show ?thesis by fastforce
qed

lemma usersOf_mem:
  assumes "distinct (map pUID pods)" "p \<in> set pods" "tg \<in> set targets" "PodUID tg = pUID p"
  shows "p \<in> set (usersOf targets pods)"
proof -
  have "gm_get (fold (\<lambda>p m. gm_put (pUID p) p m) ps m) (pUID p) = Some p"
    if "distinct (map pUID ps)" "p \<in> set ps" for ps m
    using that
  proof (induction ps arbitrary: m)
    case (Cons q ps)
    have keep: "gm_get (fold (\<lambda>p m. gm_put (pUID p) p m) ps m) x = gm_get m x" if "x \<notin> pUID ` set ps" for x and m :: "(string, pod) gomap"
      using that by (induction ps arbitrary: m) (auto simp: gm_get_put)
    show ?case
    proof (cases "p = q")
      case True
      with Cons.prems keep [of "pUID p" "gm_put (pUID q) q m"] show ?thesis by (simp add: gm_get_put)
    next
      case False
      with Cons show ?thesis by simp
    qed
  qed simp
  from this [OF assms(1,2)] assms(3,4) show ?thesis
    by (force simp: usersOf_def byUID_def List.map_filter_def image_iff)
qed

lemma handleFailed_sends:
  assumes "mKube M = Some k" "AutoDelete M" "api_up E k (mNode M) pods" "heldOf s (sVolumeID vol) \<le> fst (h_now E (world s))"
    and p: "p \<in> set (usersOf (PublishTargets entries (MajorMinor e)) pods)" "skipReason p (sinceOf E s (sVolumeID vol)) = []"
    and run: "run_state (handleFailed E M vol e entries) s = (u, s')"
  shows "gm_get (failed s') (sVolumeID vol) \<noteq> None \<and> (\<exists>rq rs. deletionOf k p rq \<and> requests s' = requests s @ rs \<and> rq \<in> set rs)"
proof -
  let ?v = "sVolumeID vol"
  obtain x where x: "\<And>w. gm_get (failed x) w = (if w = ?v then Some (sinceOf E s w) else gm_get (failed s) w)" "held x = held s" "requests x = requests s"
    and r: "run_state (case mKube M of None \<Rightarrow> ret () | Some k \<Rightarrow> reportFailed E M k ?v (fst (h_now E (world s))) (sinceOf E s ?v)
        (PublishTargets entries (MajorMinor e))) x = (u, s')"
    using handleFailed_parts [OF run] by metis
  have "heldOf x ?v \<le> fst (h_now E (world s))" using x(2) assms(4) by (simp add: heldOf_def)
  moreover have "run_state (reportFailed E M k ?v (fst (h_now E (world s))) (sinceOf E s ?v) (PublishTargets entries (MajorMinor e))) x = (u, s')"
    using r assms(1) by simp
  ultimately have "\<exists>rq rs. deletionOf k p rq \<and> requests s' = requests x @ rs \<and> rq \<in> set rs"
    by (rule report_sends [OF assms(3,2) _ p])
  then show ?thesis using report_frame(1) [OF r] x by simp
qed

lemma run_forEach_append: "run_state (forEach (xs @ ys) f) s = run_state (forEach ys f) (snd (run_state (forEach xs f) s))"
  by (induction xs arbitrary: s) (simp_all split: prod.splits)

lemma tick_sends:
  assumes inv: "node_inv s" and M: "mKube M = Some k" "AutoDelete M" and up: "api_up E k (mNode M) pods" "distinct (map pUID pods)"
    and vol: "gm_get (lstate s) v = Some vol" "LastAt entries (StagePath vol) = Some e" "ForcedReadOnly e"
    and tg: "tg \<in> set (PublishTargets entries (MajorMinor e))" "p \<in> set pods" "PodUID tg = pUID p"
    and p: "ControllerOwner p \<noteq> None" "DeletionTimestamp p = None" "StartTime p = Some started"
    and clock: "\<forall>w. heldOf s v \<le> fst (h_now E w) \<and> started < fst (h_now E w)" "\<forall>since. gm_get (failed s) v = Some since \<longrightarrow> started < since"
    and run: "run_state (ReadMountInfo E (mMountInfo M)) s = (Inr entries, t)" "run_state (Tick E M) s = (u, s')"
  shows "gm_get (failed s') v \<noteq> None \<and> (\<exists>rq \<in> set (newreqs s s'). deletionOf k p rq)"
proof -
  note t = ReadMountInfo_frame [OF run(1)]
  have v: "sVolumeID vol = v" using inv vol(1) by (simp add: node_inv_def lstate_inv_def)
  then obtain pre post where split: "map snd (lstate s) = pre @ vol # post"
    using inv_volumes(2) [OF inv, of vol] vol(1) by (meson split_list)
  obtain u1 s1 where a: "run_state (forEach pre (tickVolume E M entries)) t = (u1, s1)" by (rule prod.exhaust)
  obtain u2 s2 where b: "run_state (handleFailed E M vol e entries) s1 = (u2, s2)" by (rule prod.exhaust)
  have c: "run_state (forEach post (tickVolume E M entries)) s2 = (u, s')"
    using run t split a b vol run_forEach_append [of pre "vol # post" "tickVolume E M entries" t]
    by (simp add: Tick_def stateAll_def tickVolume_def)
  have d: "distinct (map sVolumeID pre)" "distinct (map sVolumeID post)" "v \<notin> sVolumeID ` set pre" "v \<notin> sVolumeID ` set post"
    using inv_volumes(1) [OF inv] v unfolding split by auto
  have s1: "gm_get (failed s1) v = gm_get (failed s) v" "heldOf s1 v = heldOf s v" "\<exists>rs. requests s1 = requests s @ rs"
    using tickAll_run [OF a d(1)] d(3) t by (auto simp: heldOf_def)
  have s': "gm_get (failed s') v = gm_get (failed s2) v" "\<exists>rs. requests s' = requests s2 @ rs"
    using tickAll_run [OF c d(2)] d(4) by auto
  have "skipReason p (sinceOf E s1 v) = []"
    using p clock s1(1) by (auto simp: skipReason_empty sinceOf_def split: option.split)
  with handleFailed_sends [OF M up(1) _ usersOf_mem [OF up(2) tg(2,1,3)] _ b] v s1(2) clock(1)
  have "gm_get (failed s2) v \<noteq> None \<and> (\<exists>rq rs. deletionOf k p rq \<and> requests s2 = requests s1 @ rs \<and> rq \<in> set rs)" by simp
  with s1(3) s' show ?thesis by (auto simp: newreqs_def)
qed

text \<open>
  C11: A failed volume is remedied. While the API server answers, a monitor pass with automatic deletion on
  marks every staged volume whose mount was forced read-only and, unless the volume is held off, asks for the
  deletion of each listed pod it is published to that has a controller, is not terminating and
  started before the failure.
\<close>

theorem Tick_remedies:
  assumes inv: "node_inv s" and M: "mKube M = Some k" "AutoDelete M" and up: "api_up E k (mNode M) pods" "distinct (map pUID pods)"
    and vol: "gm_get (lstate s) v = Some vol" "LastAt entries (StagePath vol) = Some e" "ForcedReadOnly e"
    and tg: "tg \<in> set (PublishTargets entries (MajorMinor e))" "p \<in> set pods" "PodUID tg = pUID p"
    and p: "ControllerOwner p \<noteq> None" "DeletionTimestamp p = None" "StartTime p = Some started"
    and clock: "\<forall>w. heldOf s v \<le> fst (h_now E w) \<and> started < fst (h_now E w)" "\<forall>since. gm_get (failed s) v = Some since \<longrightarrow> started < since"
    and run: "run_state (ReadMountInfo E (mMountInfo M)) s = (Inr entries, t)" "run_state (Tick E M) s = (u, s')"
  shows "gm_get (failed s') v \<noteq> None \<and> (\<exists>rq \<in> set (newreqs s s'). deletionOf k p rq)"
  by (rule tick_sends [OF assms])

end
