(* ===== verification/Server.thy ===== *)
theory Server
  imports Monitor_Props Controller
begin

text \<open>
  \<^verbatim>\<open>pkg/driver/identity.go\<close>, \<^verbatim>\<open>pkg/driver/server.go\<close> and the two programs \<^verbatim>\<open>cmd/node\<close> and
  \<^verbatim>\<open>cmd/controller\<close>: what a plugin says about itself, where it listens, and what it does before it
  serves. \<^verbatim>\<open>url.Parse\<close>, the listener, gRPC's own loop and the environment are arguments; the
  goroutine of the monitor and the logger are left out.
\<close>

section \<open>Identity\<close>

definition DriverName :: string where
  "DriverName = ''fileblock.csi''"

definition Version :: string where
  "Version = ''0.1.0''"

record identityServer =
  hasController :: bool

definition NewIdentityServer :: "bool \<Rightarrow> identityServer" where
  "NewIdentityServer b = \<lparr>hasController = b\<rparr>"

definition GetPluginInfo :: "identityServer \<Rightarrow> string \<times> string" where
  "GetPluginInfo i = (DriverName, Version)"

datatype pluginCap = CONTROLLER_SERVICE | VOLUME_ACCESSIBILITY_CONSTRAINTS | EXPANSION_OFFLINE

text \<open>The same for both plugins: \<^verbatim>\<open>hasController\<close> is not looked at.\<close>

definition GetPluginCapabilities :: "identityServer \<Rightarrow> pluginCap list" where
  "GetPluginCapabilities i = [CONTROLLER_SERVICE, VOLUME_ACCESSIBILITY_CONSTRAINTS, EXPANSION_OFFLINE]"

definition Probe :: "identityServer \<Rightarrow> bool" where
  "Probe i = True"

section \<open>The server\<close>

record url =
  uScheme :: string
  uHost :: string
  uPath :: string

definition parseEndpoint :: "(string \<Rightarrow> goerr + url) \<Rightarrow> string \<Rightarrow> goerr + string \<times> string" where
  "parseEndpoint urlParse ep =
     (if hasPrefix ep ''/'' then Inr (''unix'', ep)
      else case urlParse ep of
        Inl e \<Rightarrow> Inl e
      | Inr u \<Rightarrow>
          if uScheme u = ''unix'' then Inr (''unix'', if uPath u = [] then uHost u @ uPath u else uPath u)
          else if uScheme u = ''tcp'' then Inr (''tcp'', uHost u)
          else Inl (Msg (''unsupported endpoint scheme: '' @ uScheme u)))"

text \<open>Serve up to the point where the listener is open.\<close>

definition openListener :: "'w host \<Rightarrow> (string \<Rightarrow> goerr + url) \<Rightarrow> (string \<Rightarrow> string \<Rightarrow> 'w \<Rightarrow> (goerr + unit) \<times> 'w) \<Rightarrow> string \<Rightarrow>
    (('w, 'm) sys_scheme, goerr + unit) state" where
  "openListener E urlParse listen endpoint =
     onErr (ret (parseEndpoint urlParse endpoint)) id (\<lambda>(scheme, addr). do {
       (if scheme = ''unix'' then ignore (sysc (h_remove E addr)) else ret ());
       onErr (sysc (listen scheme addr)) (Wrap (''listen '' @ endpoint)) (\<lambda>_. ret (Inr ()))
     })"

text \<open>The server and the services it registers; a service that was not passed in is skipped.\<close>

record server =
  svEndpoint :: string
  svIdentity :: "identityServer option"
  svController :: "registry option"
  svNode :: "nodeServer option"

definition NewServer :: "string \<Rightarrow> identityServer option \<Rightarrow> registry option \<Rightarrow> nodeServer option \<Rightarrow> server" where
  "NewServer endpoint i c n = \<lparr>svEndpoint = endpoint, svIdentity = i, svController = c, svNode = n\<rparr>"

datatype service = IdentityService identityServer | ControllerService registry | NodeService nodeServer

definition services :: "server \<Rightarrow> service list" where
  "services S = (case svIdentity S of Some i \<Rightarrow> [IdentityService i] | None \<Rightarrow> [])
     @ (case svController S of Some r \<Rightarrow> [ControllerService r] | None \<Rightarrow> [])
     @ (case svNode S of Some n \<Rightarrow> [NodeService n] | None \<Rightarrow> [])"

text \<open>\<open>serving\<close> stands for the wait for the end of gRPC's loop or of the context.\<close>

definition Serve :: "'w host \<Rightarrow> (string \<Rightarrow> goerr + url) \<Rightarrow> (string \<Rightarrow> string \<Rightarrow> 'w \<Rightarrow> (goerr + unit) \<times> 'w) \<Rightarrow>
    (service list \<Rightarrow> 'w \<Rightarrow> (goerr + unit) \<times> 'w) \<Rightarrow> server \<Rightarrow> (('w, 'm) sys_scheme, goerr + unit) state" where
  "Serve E urlParse listen serving S = onErr (openListener E urlParse listen (svEndpoint S)) id (\<lambda>_. sysc (serving (services S)))"

section \<open>The programs\<close>

record nodeFlags =
  fEndpoint :: string
  fNodeID :: string
  fStateDir :: string
  fStoresRoot :: string
  fAutoDelete :: bool

text \<open>Both mounters and the mount-point check are always given.\<close>

definition registryAt :: "string \<Rightarrow> registry" where
  "registryAt root = \<lparr>r_root = root, r_nfsM = True, r_localM = True, r_mp = True\<rparr>"

definition reconcilerAt :: "string \<Rightarrow> string \<Rightarrow> reconciler" where
  "reconcilerAt statePath root = \<lparr>rc_path = statePath, rc_crypt = True, rc_sysRoot = ''/sys'', rc_backing = root\<rparr>"

text \<open>Whether the monitor may delete: asked for, and the admission policy is enforced.\<close>

definition mayAutoDelete :: "'w host \<Rightarrow> httpClient option \<Rightarrow> bool \<Rightarrow> (('w, 'm) kube_st_scheme, bool) state" where
  "mayAutoDelete E kc wanted = (case kc of
       None \<Rightarrow> ret False
     | Some k \<Rightarrow> if \<not> wanted then ret False
                else do { r \<leftarrow> PolicyEnforced E k PodDeletePolicyName; ret (r = Inr True) })"

text \<open>The last part of the node program's start: its server, client and monitor.\<close>

definition startServing :: "'w host \<Rightarrow> (string \<Rightarrow> string) \<Rightarrow> (string \<Rightarrow> bool) \<Rightarrow> nodeFlags \<Rightarrow> string \<Rightarrow>
    (('w, 'm) mon_st_scheme, int + nodeServer \<times> monitor) state" where
  "startServing E getenv certs flags statePath = do {
     initNode;
     modify (\<lambda>s. s\<lparr>offLogged := [], eventSent := [], skipEvented := []\<rparr>);
     c \<leftarrow> InCluster E getenv certs;
     let kc = (case c of Inl _ \<Rightarrow> None | Inr k \<Rightarrow> Some k);
     let N = NewNodeServer (fNodeID flags) statePath (registryAt (fStoresRoot flags));
     deleting \<leftarrow> mayAutoDelete E kc (fAutoDelete flags);
     ret (Inr (case kc of None \<Rightarrow> N | Some k \<Rightarrow> SetKube k N,
               \<lparr>mNode = fNodeID flags, mKube = kc, AutoDelete = deleting, mMountInfo = ''/proc/self/mountinfo''\<rparr>))
   }"

text \<open>The node program up to serving: its server and monitor, or the exit code.\<close>

definition startNode :: "'w host \<Rightarrow> (string \<Rightarrow> string) \<Rightarrow> (string \<Rightarrow> bool) \<Rightarrow> nodeFlags \<Rightarrow>
    (('w, 'm) mon_st_scheme, int + nodeServer \<times> monitor) state" where
  "startNode E getenv certs flags =
     (if fNodeID flags = [] then ret (Inl 2)
      else onErr (sysc (h_mkdirAll E (fStateDir flags))) (\<lambda>_. 2) (\<lambda>_.
      onErr (sysc (h_mkdirAll E (fStoresRoot flags))) (\<lambda>_. 2) (\<lambda>_.
      let statePath = joinPath [fStateDir flags, ''loop-mappings.json''] in
      onErr (LoadState E statePath) (\<lambda>_. 2) (\<lambda>_. do {
        ignore (sysc (h_mkdirAll E ''/run/cryptsetup''));
        ignore (Reconcile E (reconcilerAt statePath (fStoresRoot flags)));
        NewRegistry;
        ignore (AdoptExisting E (registryAt (fStoresRoot flags)));
        startServing E getenv certs flags statePath
      }))))"

text \<open>The controller program up to serving.\<close>

definition startController :: "'w host \<Rightarrow> string \<Rightarrow> (('w, 'm) reg_st_scheme, int + registry) state" where
  "startController E storesRoot =
     onErr (sysc (h_mkdirAll E storesRoot)) (\<lambda>_. 2) (\<lambda>_. do {
       NewRegistry;
       ignore (AdoptExisting E (registryAt storesRoot));
       ret (Inr (registryAt storesRoot))
     })"

text \<open>The two programs, with the exit code as their result.\<close>

definition exitAfter :: "goerr + unit \<Rightarrow> int" where
  "exitAfter r = (case r of Inl _ \<Rightarrow> 1 | Inr _ \<Rightarrow> 0)"

definition nodeMain :: "'w host \<Rightarrow> (string \<Rightarrow> string) \<Rightarrow> (string \<Rightarrow> bool) \<Rightarrow> (string \<Rightarrow> goerr + url) \<Rightarrow>
    (string \<Rightarrow> string \<Rightarrow> 'w \<Rightarrow> (goerr + unit) \<times> 'w) \<Rightarrow> (service list \<Rightarrow> 'w \<Rightarrow> (goerr + unit) \<times> 'w) \<Rightarrow> nodeFlags \<Rightarrow>
    (('w, 'm) mon_st_scheme, int) state" where
  "nodeMain E getenv certs urlParse listen serving flags = do {
     st \<leftarrow> startNode E getenv certs flags;
     case st of
       Inl code \<Rightarrow> ret code
     | Inr (N, M) \<Rightarrow> do {
         r \<leftarrow> Serve E urlParse listen serving (NewServer (fEndpoint flags) (Some (NewIdentityServer False)) None (Some N));
         ret (exitAfter r)
       }
   }"

definition controllerMain :: "'w host \<Rightarrow> (string \<Rightarrow> goerr + url) \<Rightarrow> (string \<Rightarrow> string \<Rightarrow> 'w \<Rightarrow> (goerr + unit) \<times> 'w) \<Rightarrow>
    (service list \<Rightarrow> 'w \<Rightarrow> (goerr + unit) \<times> 'w) \<Rightarrow> string \<Rightarrow> string \<Rightarrow> (('w, 'm) reg_st_scheme, int) state" where
  "controllerMain E urlParse listen serving endpoint storesRoot = do {
     st \<leftarrow> startController E storesRoot;
     case st of
       Inl code \<Rightarrow> ret code
     | Inr reg \<Rightarrow> do {
         r \<leftarrow> Serve E urlParse listen serving (NewServer endpoint (Some (NewIdentityServer True)) (Some reg) None);
         ret (exitAfter r)
       }
   }"

section \<open>What a start guarantees\<close>

text \<open>The node program exits with 2 exactly when it could not start, with 1 when serving failed.\<close>

lemma startNode_fails: "run_state (startNode E getenv certs flags) s = (Inl code, s') \<Longrightarrow> code = 2"
  by (auto simp: startNode_def startServing_def run_onErr Let_def split: if_splits prod.splits sum.splits)

lemma nodeMain_exit:
  "fst (run_state (nodeMain E getenv certs urlParse listen serving flags) s) \<in> {0, 1, 2}"
  "fst (run_state (nodeMain E getenv certs urlParse listen serving flags) s) = 2 \<longleftrightarrow> isl (fst (run_state (startNode E getenv certs flags) s))"
  using startNode_fails [of E getenv certs flags s]
  by (auto simp: nodeMain_def exitAfter_def split: prod.splits sum.splits)

text \<open>An endpoint that cannot be listened on is refused before anything is touched.\<close>

lemma Serve_refused: "parseEndpoint urlParse (svEndpoint S) = Inl e \<Longrightarrow> run_state (Serve E urlParse listen serving S) s = (Inl e, s)"
  by (simp add: Serve_def openListener_def run_onErr)

lemma parseEndpoint_scheme: "parseEndpoint urlParse ep = Inr (scheme, addr) \<Longrightarrow> scheme \<in> {''unix'', ''tcp''}"
  by (auto simp: parseEndpoint_def split: if_splits sum.splits)

lemma mayAutoDelete_yes:
  "run_state (mayAutoDelete E kc wanted) s = (True, s') \<Longrightarrow>
     wanted \<and> (\<exists>k. kc = Some k \<and> run_state (PolicyEnforced E k PodDeletePolicyName) s = (Inr True, s'))"
  by (auto simp: mayAutoDelete_def split: option.splits if_splits prod.splits)

lemma startServing_run:
  assumes "run_state (startServing E getenv certs flags statePath) s = (Inr (N, M), s')"
  shows "\<exists>t kc. run_state (mayAutoDelete E kc (fAutoDelete flags)) t = (AutoDelete M, s') \<and> mKube M = kc \<and> nKube N = kc \<and> mNode M = fNodeID flags"
    and "lstate s' = lstate s" "failed s' = []" "held s' = []" "nkeys s' = []" "volMutex s' = []"
proof -
  let ?s1 = "s\<lparr>failed := [], held := [], volMutex := [], nkeys := [], offLogged := [], eventSent := [], skipEvented := []\<rparr>"
  let ?I = "\<lambda>t. lstate t = lstate s \<and> failed t = [] \<and> held t = [] \<and> nkeys t = [] \<and> volMutex t = []"
  have ks: "kstable ?I" by (simp add: kstable_def stable_def)
  obtain c t where c: "run_state (InCluster E getenv certs) ?s1 = (c, t)" by (rule prod.exhaust)
  let ?kc = "case c of Inl _ \<Rightarrow> None | Inr k \<Rightarrow> Some k"
  have "keeps ?I (InCluster E getenv certs)" unfolding InCluster_def Let_def by (intro kept kstableD(1) [OF ks])
  from keeps_run [OF this _ c] have t: "?I t" by simp
  obtain d t' where d: "run_state (mayAutoDelete E ?kc (fAutoDelete flags)) t = (d, t')" by (rule prod.exhaust)
  have "keeps ?I (mayAutoDelete E ?kc (fAutoDelete flags))" unfolding mayAutoDelete_def by (intro kept ks)
  from keeps_run [OF this t d] have t': "?I t'" .
  have "s' = t'" and M: "AutoDelete M = d" "mKube M = ?kc" "nKube N = ?kc" "mNode M = fNodeID flags"
    using assms c d by (auto simp: startServing_def initNode_def newFailures_def Let_def NewNodeServer_def SetKube_def split: sum.splits)
  with t' d show "\<exists>t kc. run_state (mayAutoDelete E kc (fAutoDelete flags)) t = (AutoDelete M, s') \<and> mKube M = kc \<and> nKube N = kc \<and> mNode M = fNodeID flags"
    "lstate s' = lstate s" "failed s' = []" "held s' = []" "nkeys s' = []" "volMutex s' = []" by auto
qed

lemma keeps_adopt_lstate: "keeps (\<lambda>s. P (lstate s)) (AdoptExisting E R)" "keeps (\<lambda>s. P (lstate s)) NewRegistry"
proof -
  have "keeps (\<lambda>s. P (lstate s)) (adoptEntry E R e)" for e
    unfolding adoptEntry_def Let_def by (cases e) (auto intro!: kept stable_lstate simp: keeps_def [of _ "modify _"] split: bool.split)
  then show "keeps (\<lambda>s. P (lstate s)) (AdoptExisting E R)"
    unfolding AdoptExisting_def by (intro kept stable_sysc stable_lstate)
  show "keeps (\<lambda>s. P (lstate s)) NewRegistry" by (simp add: NewRegistry_def keeps_def)
qed

lemma startNode_steps:
  assumes "run_state (startNode E getenv certs flags) s = (Inr x, s')"
  defines "path \<equiv> joinPath [fStateDir flags, ''loop-mappings.json'']"
  shows "\<exists>a b c t. run_state (sysc (h_mkdirAll E (fStateDir flags))) s = (Inr (), a) \<and> run_state (sysc (h_mkdirAll E (fStoresRoot flags))) a = (Inr (), b)
     \<and> run_state (LoadState E path) b = (Inr (), c) \<and> (lstate_inv c \<longrightarrow> lstate_inv t) \<and> run_state (startServing E getenv certs flags path) t = (Inr x, s')"
proof -
  let ?rest = "do { ignore (sysc (h_mkdirAll E ''/run/cryptsetup'')); ignore (Reconcile E (reconcilerAt path (fStoresRoot flags)));
        NewRegistry; ignore (AdoptExisting E (registryAt (fStoresRoot flags))) }"
  have start: "startNode E getenv certs flags = (if fNodeID flags = [] then ret (Inl 2)
      else onErr (sysc (h_mkdirAll E (fStateDir flags))) (\<lambda>_. 2) (\<lambda>_. onErr (sysc (h_mkdirAll E (fStoresRoot flags))) (\<lambda>_. 2) (\<lambda>_.
        onErr (LoadState E path) (\<lambda>_. 2) (\<lambda>_. do { ?rest; startServing E getenv certs flags path }))))"
    by (simp add: startNode_def path_def Let_def)
  obtain q1 a where a: "run_state (sysc (h_mkdirAll E (fStateDir flags))) s = (q1, a)" by (rule prod.exhaust)
  obtain q2 b where b: "run_state (sysc (h_mkdirAll E (fStoresRoot flags))) a = (q2, b)" by (rule prod.exhaust)
  obtain q3 c where c: "run_state (LoadState E path) b = (q3, c)" by (rule prod.exhaust)
  obtain u t where t: "run_state ?rest c = (u, t)" by (rule prod.exhaust)
  have st: "stable lstate_inv" unfolding lstate_inv_def by (rule stable_lstate)
  have "keeps lstate_inv ?rest"
    using keeps_adopt_lstate [of "\<lambda>d. gm_wf d \<and> filed d"] unfolding filed_def lstate_inv_def [symmetric]
    by (intro kept st keeps_Reconcile) simp_all
  from keeps_run [OF this _ t] have "lstate_inv c \<longrightarrow> lstate_inv t" by blast
  moreover have "q1 = Inr ()" "q2 = Inr ()" "q3 = Inr ()" "run_state (startServing E getenv certs flags path) t = (Inr x, s')"
    using assms(1) a b c t unfolding start
    by (cases q1; cases q2; cases q3; auto simp: run_onErr run_state_bind split: if_splits prod.splits)+
  ultimately show ?thesis using a b c by blast
qed

text \<open>
  C14: The node plugin starts safely. When it gets as far as serving, its monitor may delete pods only if that
  was asked for and, as the last thing before serving, the API server confirmed that the admission policy
  is enforced, through the client that server and monitor then share. And if the table that LoadState found
  in the state file has every entry under its own volume, as any table the plugin wrote has, it
  serves from a state from which the invariant of the plugin holds: reconciliation and adoption do
  not break it.
\<close>

theorem startNode_guarded:
  assumes "run_state (startNode E getenv certs flags) s = (Inr (N, M), s')"
  shows "(AutoDelete M \<longrightarrow> fAutoDelete flags \<and> (\<exists>k t. mKube M = Some k \<and> run_state (PolicyEnforced E k PodDeletePolicyName) t = (Inr True, s')))
       \<and> nKube N = mKube M \<and> mNode M = fNodeID flags
       \<and> (\<exists>a b c. run_state (sysc (h_mkdirAll E (fStateDir flags))) s = (Inr (), a) \<and> run_state (sysc (h_mkdirAll E (fStoresRoot flags))) a = (Inr (), b)
            \<and> run_state (LoadState E (joinPath [fStateDir flags, ''loop-mappings.json''])) b = (Inr (), c)
            \<and> (filed (lstate c) \<longrightarrow> plug_reach E N M s'))"
proof -
  obtain a b c t where st: "run_state (sysc (h_mkdirAll E (fStateDir flags))) s = (Inr (), a)" "run_state (sysc (h_mkdirAll E (fStoresRoot flags))) a = (Inr (), b)"
      "run_state (LoadState E (joinPath [fStateDir flags, ''loop-mappings.json''])) b = (Inr (), c)" "lstate_inv c \<longrightarrow> lstate_inv t"
      "run_state (startServing E getenv certs flags (joinPath [fStateDir flags, ''loop-mappings.json''])) t = (Inr (N, M), s')"
    using startNode_steps [OF assms] by blast
  note r = startServing_run [OF st(5)]
  have "snd (run_state initNode s') = s'" using r by (simp add: initNode_def newFailures_def)
  moreover have "lstate_inv s' \<longleftrightarrow> lstate_inv t" unfolding lstate_inv_def r(2) ..
  ultimately have "filed (lstate c) \<longrightarrow> plug_reach E N M s'"
    using st(4) LoadState_inv [OF st(3)] plug_start [of s' E N M] by metis
  moreover have "AutoDelete M \<longrightarrow> fAutoDelete flags \<and> (\<exists>k t. mKube M = Some k \<and> run_state (PolicyEnforced E k PodDeletePolicyName) t = (Inr True, s'))"
      "nKube N = mKube M" "mNode M = fNodeID flags"
    using r(1) mayAutoDelete_yes by metis+
  ultimately show ?thesis using st(1-3) by blast
qed

end
