(* ===== verification/Csi_Call.thy ===== *)
theory Csi_Call
  imports Controller Node
begin

text \<open>
  \<^verbatim>\<open>hack/csi-call\<close>: the two calls of the smoke test's client. Flag parsing and the connection are not
  modelled: the arguments here are the values of the flags.
\<close>

text \<open>\<^verbatim>\<open>kv.Set\<close>: one \<^verbatim>\<open>key=val\<close>, split on the first \<^verbatim>\<open>=\<close> only.\<close>

definition kvSet :: "string \<Rightarrow> smap \<Rightarrow> goerr + smap" where
  "kvSet s m = (let k = takeWhile (\<lambda>c. c \<noteq> CHR ''='') s in
     if CHR ''='' \<notin> set s \<or> k = [] then Inl (Msg ''want key=val'') else Inr (gm_put k (drop (Suc (length k)) s) m))"

definition mountCap :: volumeCapability where
  "mountCap = \<lparr>AccessType = MountVolume ''ext4'' [], AccessMode = SINGLE_NODE_WRITER\<rparr>"

definition callCreate :: "string \<Rightarrow> int \<Rightarrow> smap \<Rightarrow> createVolumeRequest" where
  "callCreate name n params = \<lparr>cvName = name, cvCapabilities = [mountCap], cvParameters = params,
     cvRange = Some \<lparr>RequiredBytes = n, LimitBytes = 0\<rparr>, cvTopology = None\<rparr>"

definition callOutput :: "csiVolume \<Rightarrow> string" where
  "callOutput vol = VolumeId vol @ [CHR 0x0A] @ concat (map (\<lambda>(k, v). k @ ''='' @ v @ [CHR 0x0A]) (sortKeys (VolumeContext vol)))"

definition callStage :: "string \<Rightarrow> string \<Rightarrow> smap \<Rightarrow> smap \<Rightarrow> stageRequest" where
  "callStage volume staging ctx secrets = \<lparr>srVolumeID = volume, srPath = staging, srContext = ctx, srSecrets = secrets, srCap = Some mountCap\<rparr>"

text \<open>A flag carries one entry exactly, whatever commas and equal signs its value has, and the calls pass the servers' checks.\<close>

lemma kvSet_exact: "k \<noteq> [] \<Longrightarrow> CHR ''='' \<notin> set k \<Longrightarrow> kvSet (k @ ''='' @ v) m = Inr (gm_put k v m)"
proof -
  assume k: "k \<noteq> []" "CHR ''='' \<notin> set k"
  then have "takeWhile (\<lambda>c. c \<noteq> CHR ''='') (k @ CHR ''='' # v) = k" by (subst takeWhile_append2) auto
  with k show ?thesis by (simp add: kvSet_def Let_def)
qed

lemma mountCap_accepted: "validateCapabilities [mountCap] = None" "validateCapability (Some mountCap) = None"
  by (simp_all add: mountCap_def validateCapabilities_def validateCapability_def validateCap_def DefaultFs_def)

end
