(* ===== verification/Witnesses_Node.thy ===== *)
theory Witnesses_Node
  imports Witnesses_Driver Server Csi_Call
begin

text \<open>
  Applications of the properties of the node service to concrete inputs. Where a run has to
  succeed, that is shown with total-correctness rules on a machine on which nothing goes wrong.
\<close>

section \<open>Operations that return\<close>

text \<open>From every state the operation succeeds with a result that satisfies the predicate.\<close>

definition yields :: "('a \<Rightarrow> bool) \<Rightarrow> ('s, 'e + 'a) state \<Rightarrow> bool" where
  "yields Q m \<longleftrightarrow> (\<forall>s. \<exists>x. fst (run_state m s) = Inr x \<and> Q x)"

abbreviation works :: "('s, 'e + 'a) state \<Rightarrow> bool" where
  "works \<equiv> yields (\<lambda>_. True)"

lemma yields_ret: "Q x \<Longrightarrow> yields Q (ret (Inr x))"
  by (simp add: yields_def)

lemma yields_bind: "(\<And>x. yields Q (k x)) \<Longrightarrow> yields Q (State_Monad.bind m k)"
  by (simp add: yields_def split: prod.split)

lemma yields_bind': "yields P m \<Longrightarrow> (\<And>x. P x \<Longrightarrow> yields Q (k (Inr x))) \<Longrightarrow> yields Q (State_Monad.bind m k)"
  by (simp add: yields_def split: prod.split) (metis fst_conv)

lemma yields_onErr: "yields P m \<Longrightarrow> (\<And>x. P x \<Longrightarrow> yields Q (k x)) \<Longrightarrow> yields Q (onErr m h k)"
  unfolding onErr_def by (erule yields_bind') simp

lemma yields_onFail: "yields P m \<Longrightarrow> (\<And>x. P x \<Longrightarrow> yields Q (k x)) \<Longrightarrow> yields Q (onFail m c h k)"
  unfolding onFail_def by (erule yields_bind') simp

lemma yields_run: "yields Q m \<Longrightarrow> \<exists>x s'. run_state m s = (Inr x, s') \<and> Q x"
  unfolding yields_def by (metis prod.collapse)

lemmas yields_rules = yields_ret yields_onErr [where P = "\<lambda>_. True"] yields_onFail [where P = "\<lambda>_. True"]

section \<open>A machine without faults\<close>

text \<open>
  A machine on which nothing goes wrong: every path is a directory, nothing is seen mounted, and
  the API server says that the admission policy is enforced.
\<close>

definition calmHost :: "sim host" where
  "calmHost = simHost\<lparr>
     h_wait := (\<lambda>c w. ((if cName c = ''losetup'' \<and> hd (cArgs c) = ''--find'' then ''/dev/loop0'' else [], None), w)),
     h_stat := (\<lambda>p w. (Inr \<lparr>fi_size = 0, fi_dir = True\<rparr>, w)),
     h_readFile := (\<lambda>p w. (Inr [], w)),
     h_openTrunc := (\<lambda>p w. (Inr (), w)),
     h_http := (\<lambda>rq w. (Inr (200, policyText), w))\<rparr>"

lemma calm_sel [simp]: "h_stat calmHost p w = (Inr \<lparr>fi_size = 0, fi_dir = True\<rparr>, w)" "h_readFile calmHost p w = (Inr [], w)"
    "h_openTrunc calmHost p w = (Inr (), w)" "h_open calmHost p w = (Inr (), w)" "h_flock calmHost p w = (Inr (), w)" "h_write calmHost p b w = (Inr (), w)"
    "h_sync calmHost p w = (Inr (), w)" "h_close calmHost p w = (Inr (), w)" "h_rename calmHost p q w = (Inr (), w)"
    "fst (h_mkdirAll calmHost p w) = Inr ()" "h_readAt calmHost p off n w = (([], Some (Sentinel EOF)), w)"
    "h_http calmHost rq w = (Inr (200, policyText), w)"
  by (simp_all add: calmHost_def simHost_def)

definition calmOut :: "string \<Rightarrow> string list \<Rightarrow> string" where
  "calmOut n as = (if n = ''losetup'' \<and> hd as = ''--find'' then ''/dev/loop0'' else [])"

lemma calm_Run: "run_state (Run calmHost n as) s = ((calmOut n as, None), s\<lparr>calls := calls s @ [plain n as]\<rparr>)"
  by (simp add: Run_def run_RunCmd osRunCmd_def closeAll_def feedSecrets_def calmHost_def simHost_def calmOut_def)

lemma calm_RunE: "run_state (RunE calmHost n as) s = (Inr (calmOut n as), s\<lparr>calls := calls s @ [plain n as]\<rparr>)"
  by (simp add: RunE_def asErr_def calm_Run)

lemma calm_sysc: "(\<And>w. \<exists>x. fst (f w) = Inr x) \<Longrightarrow> works (sysc f)"
  by (simp add: yields_def run_sysc)

lemma calm_mount: "t \<noteq> [] \<Longrightarrow> yields (\<lambda>b. b = False) (IsMountPoint calmHost t)"
  by (auto simp: yields_def IsMountPoint_def run_sysc calm_Run calmOut_def row_is_def trimSpace_ascii)

lemma calm_tools:
  "works (SetCapacity calmHost d)" "works (Resize2fs calmHost d)" "works (doMount calmHost d t fs os)"
  "works (BindMount calmHost a t ro)" "yields (\<lambda>l. l = []) (loFind calmHost P)" "works (loDetach calmHost d)" "works (Fsck calmHost d)"
  "works (loAttach calmHost p n)"
  by (simp_all add: SetCapacity_def Resize2fs_def doMount_def BindMount_def loFind_def loList_def loDetach_def Fsck_def loAttach_def
      yields_def run_onErr calm_RunE calm_Run calmOut_def trimSpace_ascii isSpace_def hasPrefix_def)

lemma calm_flush: "works (flushLocked calmHost p)"
  unfolding flushLocked_def Let_def by (intro yields_rules yields_bind calm_sysc; simp)


lemma calm_put: "works (statePut calmHost p m)" "works (stateDelete calmHost p v)"
  unfolding statePut_def stateDelete_def by (intro yields_bind calm_flush)+

lemma calm_record: "works (recordStage v ks e)"
  unfolding recordStage_def by (intro yields_bind yields_ret) simp

lemma calm_stageOn: "works (stageOn calmHost N req p dev False ks f)"
  unfolding stageOn_def openTarget_def mountTarget_def persistStage_def Let_def
  by (auto intro!: yields_rules calm_tools calm_put calm_record calm_sysc)

lemma calm_blocks: "works (FSBlockSize calmHost p)"
  by (auto simp: FSBlockSize_def yields_def run_onErr run_sysc run_ignore)

lemma calm_stageFresh: "works (stageFresh calmHost N req p n [] False ks f)"
  unfolding stageFresh_def refuseBusy_def refuseOpen_def detachLoops_def attachLoop_def loopSectorSize_def
  by (auto intro!: yields_rules calm_tools calm_stageOn calm_blocks)

lemma calm_get: "works (regGet calmHost simReg simLocal)"
proof -
  have m: "mounterFor calmHost simReg (Type simLocal) = Inr (localMount calmHost)"
    by (simp add: mounterFor_def simReg_def simLocal_def emptyConfig_def TypeLocal_def TypeNFS_def)
  have l: "works (localMount calmHost t simLocal)" for t
    using calm_tools(4) by (simp add: localMount_def simLocal_def emptyConfig_def)
  have "NFSSubDir simLocal = []" by (simp add: simLocal_def emptyConfig_def)
  then show ?thesis
    unfolding regGet_def regMount_def regMountNew_def regStore_def m Let_def
    by (auto intro!: yields_rules l calm_sysc yields_bind split: option.split)
qed

lemma calm_stageLocked:
  assumes "stageParse req = Inr (simLocal, False, ks, f)" "validateCapability (srCap req) = None" "nRegistry N = simReg" "srPath req \<noteq> []"
  shows "works (stageLocked calmHost N req)"
proof -
  have m: "works (newManager calmHost p)" for p by (simp add: newManager_def yields_def run_onErr run_sysc)
  have "works (stageImage calmHost N req p False False ks f)" for p
    unfolding stageImage_def FindBacking_def Let_def
    by (auto intro!: m yields_rules calm_sysc calm_stageFresh yields_onErr [OF calm_tools(5)] yields_bind' [where m = "sysc g" for g])
  then show ?thesis
    using assms(4) unfolding stageLocked_def assms(1,2,3)
    by (auto intro!: yields_rules yields_bind calm_get yields_onErr [OF calm_mount] split: option.split)
qed

lemma calm_pop: "path \<noteq> [] \<Longrightarrow> works (popStageMounts calmHost path)"
  unfolding popStageMounts_def by (subst popLoop.simps) (auto intro!: yields_onErr [OF calm_mount] yields_ret)



section \<open>The node service\<close>

definition simNode :: nodeServer where
  "simNode = NewNodeServer ''n'' ''/state'' simReg"

definition simStageReq :: stageRequest where
  "simStageReq = \<lparr>srVolumeID = ''v'', srPath = ''/s'', srContext = [(ParamType, TypeLocal), (ParamLocalPath, ''/p'')], srSecrets = [],
     srCap = Some \<lparr>AccessType = MountVolume [] [''noatime''], AccessMode = SINGLE_NODE_WRITER\<rparr>\<rparr>"

definition simEntry :: staged where
  "simEntry = stagedEntry simStageReq ''/m/v.img'' ''/dev/loop0'' []"

definition noKeys :: keys where
  "noKeys = \<lparr>Current = [], Previous = []\<rparr>"

definition noFormat :: format where
  "noFormat = \<lparr>Cipher = [], KeySize = 0\<rparr>"

text \<open>The volume is staged, and it may be marked as failed.\<close>

definition simPlugin :: "(string, int) gomap \<Rightarrow> sim mon_st" where
  "simPlugin fs = \<lparr>world = \<lparr>sFiles = [], sMounts = [], sFds = []\<rparr>, calls = [], mounted = [], stores = [], configs = [], storeMu = [], checks = [],
     lstate = [(''v'', simEntry)], requests = [], failed = fs, held = [], volMutex = [], nkeys = [],
     offLogged = [], eventSent = [], skipEvented = []\<rparr>"

theorem stage_all_or_nothing_witness:
  "\<exists>s'. run_state (stageOn calmHost simNode simStageReq ''/m/v.img'' ''/dev/loop0'' False noKeys noFormat) (simPlugin [(''v'', 7)]) = (Inr (), s')
     \<and> gm_get (lstate s') ''v'' = Some simEntry \<and> gm_get (failed s') ''v'' = None"
proof -
  obtain s' where r: "run_state (stageOn calmHost simNode simStageReq ''/m/v.img'' ''/dev/loop0'' False noKeys noFormat) (simPlugin [(''v'', 7)]) = (Inr (), s')"
    using yields_run [OF calm_stageOn] by (metis (full_types) old.unit.exhaust)
  from stage_all_or_nothing [OF r] have "gm_get (lstate s') ''v'' = Some simEntry \<and> gm_get (failed s') ''v'' = None"
    by (simp add: simStageReq_def simEntry_def)
  with r show ?thesis by blast
qed


lemma calm_crypt: "works (cryptClose calmHost n)"
  by (auto simp: cryptClose_def closeCmd_def cryptsetup_def yields_def RunCmdE_def run_RunCmd asErr_def osRunCmd_def closeAll_def feedSecrets_def calmHost_def simHost_def)

lemma calm_unstage: "works (NodeUnstageVolume calmHost N ''v'' ''/s'')"
proof -
  have "works (unstageClose calmHost ''v'' m)" "works (forgetVolume calmHost N ''v'' m)" for m
    unfolding unstageClose_def forgetVolume_def
    by (auto intro!: yields_rules yields_bind calm_crypt split: option.split)
  then show ?thesis
    unfolding NodeUnstageVolume_def detachLoops_def
    by (auto intro!: yields_rules yields_bind calm_pop yields_onErr [OF calm_tools(5)])
qed

theorem unstage_forgets_witness:
  "\<exists>s'. run_state (NodeUnstageVolume calmHost simNode ''v'' ''/s'') (simPlugin [(''v'', 7)]) = (Inr (), s')
     \<and> gm_get (lstate s') ''v'' = None \<and> gm_get (failed s') ''v'' = None"
proof -
  obtain s' where r: "run_state (NodeUnstageVolume calmHost simNode ''v'' ''/s'') (simPlugin [(''v'', 7)]) = (Inr (), s')"
    using yields_run [OF calm_unstage] by (metis (full_types) old.unit.exhaust)
  from unstage_forgets [OF r] have "gm_get (lstate s') ''v'' = None \<and> gm_get (failed s') ''v'' = None" by simp
  with r show ?thesis by blast
qed

lemma simStage_parse: "stageParse simStageReq = Inr (simLocal, False, noKeys, noFormat)"
  using simLocal_params
  by (simp add: stageParse_def simStageReq_def ConfigFromVolumeContext_def sget_def ParamEncrypted_def param_defs noKeys_def noFormat_def)

lemma simEntry_ok: "table_ok [(''v'', simEntry)]" "gm_get [(''v'', simEntry)] ''v'' = Some simEntry"
  by (simp_all add: table_ok_def gm_wf_def staged_utf8_def ctx_wf_def simEntry_def stagedEntry_def simStageReq_def param_defs
      mountOptionsFromCap_def TypeLocal_def)

theorem restage_repeats_stage_witness:
  "StageContext simEntry = Some (srContext simStageReq)
   \<and> stageLocked calmHost simNode (restageRequest ''v'' simEntry (srContext simStageReq) [])
       = (stageLocked calmHost simNode simStageReq :: (sim node_st, goerr + unit) state)
   \<and> (\<exists>d m ctx. parseState (stateText [(''v'', simEntry)]) = Some d \<and> gm_get d ''v'' = Some m \<and> StageContext m = Some ctx
        \<and> stageLocked calmHost simNode (restageRequest ''v'' m ctx [])
            = (stageLocked calmHost simNode (simStageReq\<lparr>srContext := ctx\<rparr>) :: (sim node_st, goerr + unit) state))"
proof -
  have s: "validateCapability (srCap simStageReq) = None" "srVolumeID simStageReq = ''v''"
    by (simp_all add: simStageReq_def validateCapability_def validateCap_def)
  from restage_repeats_stage [where E = calmHost and N = simNode and 'm = unit, OF simStage_parse s(1) simEntry_def] simEntry_ok
  show ?thesis unfolding s(2) if_False by blast
qed

definition simPublishReq :: publishRequest where
  "simPublishReq = \<lparr>prVolumeID = ''v'', prStage = ''/s'', prTarget = ''/pod'',
     prCap = Some \<lparr>AccessType = MountVolume [] [], AccessMode = SINGLE_NODE_WRITER\<rparr>, prReadonly = False, prContext = []\<rparr>"

lemma simPublishReq_sel: "prVolumeID simPublishReq = ''v''" "prStage simPublishReq = ''/s''" "prTarget simPublishReq = ''/pod''" "prReadonly simPublishReq = False"
    "validateCapability (prCap simPublishReq) = None"
  by (simp_all add: simPublishReq_def validateCapability_def validateCap_def)

lemma simEntry_sel: "StageContext simEntry = Some (srContext simStageReq)" "StagePath simEntry = ''/s''" "LoopDev simEntry = ''/dev/loop0''" "CryptDev simEntry = []"
  by (simp_all add: simEntry_def stagedEntry_def simStageReq_def)

lemma calm_restage: "works (restageEntry calmHost simNode simPublishReq simEntry :: (sim mon_st, goerr + unit) state)"
proof -
  let ?rq = "restageRequest ''v'' simEntry (srContext simStageReq) []"
  have e: "sget (srContext simStageReq) ParamEncrypted \<noteq> ''true''" by (simp add: simStageReq_def sget_def ParamEncrypted_def param_defs)
  have "stageParse ?rq = Inr (simLocal, False, noKeys, noFormat)"
    using simLocal_params
    by (simp add: stageParse_def simStageReq_def ConfigFromVolumeContext_def sget_def ParamEncrypted_def param_defs noKeys_def noFormat_def simEntry_sel)
  moreover have "validateCapability (srCap ?rq) = None" "srPath ?rq \<noteq> []" "nRegistry simNode = simReg"
    by (simp_all add: restageRequest_def simEntry_sel validateCapability_def validateCap_def simNode_def NewNodeServer_def)
  ultimately have "works (stageLocked calmHost simNode ?rq :: (sim mon_st, goerr + unit) state)" by (intro calm_stageLocked)
  moreover have "works (tearDown calmHost simNode simEntry :: (sim mon_st, goerr + unit) state)"
    unfolding tearDown_def simEntry_sel by (auto intro!: yields_rules calm_pop calm_tools calm_put)
  moreover have "yields (\<lambda>sec. sec = []) (restageKeys calmHost simNode simPublishReq (srContext simStageReq) :: (sim mon_st, goerr + smap) state)"
    using e by (simp add: restageKeys_def yields_ret)
  ultimately show ?thesis
    unfolding restageEntry_def simEntry_sel option.case simPublishReq_sel by (auto intro!: yields_rules elim!: yields_onErr)
qed


lemma works_not_isl: "works m \<Longrightarrow> \<not> isl (fst (run_state m s))"
  by (auto simp: yields_def isl_def) (metis Inl_Inr_False)

lemma calm_bindTarget: "works (onErr (sysc (h_mkdirAll calmHost t)) h (\<lambda>_. do { m \<leftarrow> IsMountPoint calmHost t;
      if m = Inr True then ret (Inr ()) else onErr (BindMount calmHost a t ro) k (\<lambda>_. ret (Inr ())) }))"
  by (auto intro!: yields_rules yields_bind calm_sysc calm_tools)

lemma calm_publish: "\<exists>s'. run_state (NodePublishVolume calmHost simNode simPublishReq) (simPlugin [(''v'', 7)]) = (Inr (), s')"
proof -
  have m: "run_state (ReadMountInfo calmHost p) s = (Inr [], s)" for p and s :: "sim mon_st"
    by (simp add: ReadMountInfo_def run_onErr run_sysc ParseMountInfo_def scanLines_def)
  obtain s1 where "run_state (lockVolume ''v'') (simPlugin [(''v'', 7)]) = ((), s1)" by (metis (full_types) old.unit.exhaust prod.exhaust)
  then have s1: "run_state (lockVolume ''v'') (simPlugin [(''v'', 7)]) = ((), s1)" "gm_get (failed s1) ''v'' = Some 7" "gm_get (lstate s1) ''v'' = Some simEntry"
    by (auto simp: lockVolume_def simPlugin_def)
  obtain s2 where "run_state (restageEntry calmHost simNode simPublishReq simEntry) s1 = (Inr (), s2)"
    using yields_run [OF calm_restage] by (metis (full_types) old.unit.exhaust)
  then have "run_state (restageFailed calmHost simNode simPublishReq) (simPlugin [(''v'', 7)]) = (Inr (), s2)"
    using s1 by (simp add: restageFailed_def failGet_def stateGet_def run_onErr m stillPublished_def LastAt_def simPublishReq_sel)
  then have "\<not> isl (fst (run_state (NodePublishVolume calmHost simNode simPublishReq) (simPlugin [(''v'', 7)])))"
    unfolding NodePublishVolume_def simPublishReq_sel run_state_bind
    by (simp add: failGet_def run_onErr [where m = "restageFailed E N r" for E N r] works_not_isl [OF calm_bindTarget]) (simp add: simPlugin_def)
  then show ?thesis using run_Inr by (metis (full_types) old.unit.exhaust)
qed

theorem publish_rebuilds_failed_witness:
  "\<exists>s'. run_state (NodePublishVolume calmHost simNode simPublishReq) (simPlugin [(''v'', 7)]) = (Inr (), s')
     \<and> gm_get (failed s') ''v'' = None"
proof -
  obtain s' where r: "run_state (NodePublishVolume calmHost simNode simPublishReq) (simPlugin [(''v'', 7)]) = (Inr (), s')"
    using calm_publish by blast
  have "\<not> stagedAlready calmHost simNode (restageRequest ''v'' m ctx sec) t" if "StagePath m = ''/s''" for m ctx sec and t :: "sim mon_st"
  proof -
    have "fst (run_state (IsMountPoint calmHost ''/s'') u) = Inr False" for u :: "sim mon_st"
      using calm_mount [of "''/s''"] by (auto simp: yields_def)
    then have "run_state (IsMountPoint calmHost ''/s'') u \<noteq> (Inr True, u')" for u u' :: "sim mon_st"
      by (metis Inr_inject fst_conv)
    then show ?thesis using that by (simp add: stagedAlready_def)
  qed
  moreover have v: "prVolumeID simPublishReq = ''v''" "gm_get (lstate (simPlugin [(''v'', 7)])) ''v'' = Some simEntry" "gm_get (failed (simPlugin [(''v'', 7)])) (prVolumeID simPublishReq) = Some 7"
    by (simp_all add: simPlugin_def simPublishReq_def)
  obtain m ctx sec and t :: "sim mon_st" where "gm_get (lstate (simPlugin [(''v'', 7)])) ''v'' = Some m"
      "gm_get (failed s') ''v'' = None \<or> stagedAlready calmHost simNode (restageRequest ''v'' m ctx sec) t"
    using publish_rebuilds_failed [OF v(3) r] unfolding v(1) by blast
  ultimately have "gm_get (failed s') ''v'' = None" using v(2) simEntry_sel(2) by fastforce
  with r show ?thesis by blast
qed


lemma sim_umount_law: "umount_law simHost simMounted"
proof -
  have "filter P (remove1 t xs) = remove1 t (filter P xs)" if "P t" for P t and xs :: "string list"
    using that by (induction xs) auto
  then show ?thesis by (auto simp: umount_law_def sim_exec simWait_def simMounted_def)
qed

definition simStacked :: "nat \<Rightarrow> sim sys" where
  "simStacked n = \<lparr>world = \<lparr>sFiles = [(''/s'', \<lparr>fi_size = 0, fi_dir = True\<rparr>)], sMounts = replicate n ''/s'', sFds = []\<rparr>, calls = []\<rparr>"

text \<open>The machine on which every \<^verbatim>\<open>umount\<close> fails.\<close>

definition busyHost :: "sim host" where
  "busyHost = simHost\<lparr>h_wait := (\<lambda>c w. if cName c = ''umount'' then (([], Some (32, Msg ''target is busy'')), w) else simWait c w)\<rparr>"

lemma busy_exec: "exec busyHost n as w = (if n = ''umount'' then (([], Some (ExecError n as 32 [] (Some (Msg ''target is busy'')))), w) else exec simHost n as w)"
  by (simp add: osRunCmd_def closeAll_def feedSecrets_def busyHost_def simHost_def)

lemma busy_laws: "findmnt_law busyHost simMounted" "umount_law busyHost simMounted" "stat_plain busyHost ''/s''"
proof -
  have stat: "h_stat busyHost = simStat" by (simp add: busyHost_def simHost_def)
  have "h_stat simHost = simStat" by (simp add: simHost_def)
  then show "findmnt_law busyHost simMounted"
    using sim_findmnt_law unfolding findmnt_law_def busy_exec stat by simp
  show "umount_law busyHost simMounted" by (simp add: umount_law_def busy_exec)
  show "stat_plain busyHost ''/s''" by (auto simp: stat_plain_def stat simStat_def split: option.splits)
qed

theorem popStageMounts_bounded_witness:
  "fst (run_state (popStageMounts simHost ''/s'') (simStacked 3)) = Inr ()
   \<and> fst (run_state (popStageMounts simHost ''/s'') (simStacked 9)) \<noteq> Inr ()
   \<and> count_list (simMounted (world (snd (run_state (popStageMounts simHost ''/s'') (simStacked 9))))) ''/s'' = 1
   \<and> umounts (newcalls (simStacked 2) (snd (run_state (popStageMounts busyHost ''/s'') (simStacked 2)))) \<le> 8"
proof -
  have "stat_plain simHost ''/s''" by (auto simp: stat_plain_def sim_stat simStat_def split: option.splits)
  note b = popStageMounts_bounded [OF sim_findmnt_law sim_umount_law this prod.collapse [symmetric]]
  have "never_busy simHost simMounted ''/s''"
    by (simp add: never_busy_def sim_exec simWait_def)
  moreover have "row_is ''/s'' ''/s''" by (simp add: row_is_def trimSpace_ascii isSpace_def)
  then have "count_list (simMounted (world (simStacked n))) ''/s'' = n" for n
    by (induction n) (simp_all add: simStacked_def simMounted_def)
  ultimately show ?thesis
    using b [of "simStacked 3"] b [of "simStacked 9"] popStageMounts_bounded [OF busy_laws prod.collapse [symmetric], of "simStacked 2"] by simp
qed

section \<open>The plugin and its monitor\<close>

text \<open>A machine whose mount table shows the stage forced read-only and one pod publishing it.\<close>

definition podUID :: string where
  "podUID = ''00000000-0000-0000-0000-000000000000''"

definition podTarget :: string where
  "podTarget = ''/pods/'' @ podUID @ ''/volumes/kubernetes.io~csi/pv/mount''"

definition badRow :: "string \<Rightarrow> mountinfo" where
  "badRow p = \<lparr>MajorMinor = ''7:0'', MountPoint = p, MountOptions = [''rw''], FSType = ''ext4'', MSource = ''/dev/loop0'', SuperOptions = [''ro'']\<rparr>"

definition badTable :: string where
  "badTable = mi_text [(''1'', ''0'', ''/'', [], badRow ''/s''), (''2'', ''0'', ''/'', [], badRow podTarget)]"

definition podJson :: json where
  "podJson = JObj [(''items'', JArr [JObj [
     (''metadata'', JObj [(''name'', JStr ''p''), (''namespace'', JStr ''ns''), (''uid'', JStr podUID),
        (''ownerReferences'', JArr [JObj [(''kind'', JStr ''ReplicaSet''), (''controller'', JBool True)]])]),
     (''status'', JObj [(''startTime'', JStr ''2024-01-01T00:00:00Z'')])]])]"

definition simPod :: pod where
  "simPod = \<lparr>pName = ''p'', pNamespace = ''ns'', pUID = podUID, DeletionTimestamp = None,
     OwnerReferences = [\<lparr>APIVersion = [], oKind = ''ReplicaSet'', oName = [], oController = Some True\<rparr>], NodeName = [],
     StartTime = parseTime ''2024-01-01T00:00:00Z''\<rparr>"

definition badHost :: "sim host" where
  "badHost = simHost\<lparr>
     h_readFile := (\<lambda>p w. (Inr (if p = ''/t'' then ''tok'' else badTable), w)),
     h_now := (\<lambda>w. (2000000000000000000, w)),
     h_http := (\<lambda>rq w. (Inr (200, json_print podJson), w))\<rparr>"

definition simMonitor :: monitor where
  "simMonitor = \<lparr>mNode = ''n'', mKube = Some diskKube, AutoDelete = True, mMountInfo = ''/mi''\<rparr>"

lemma podJson_parse: "json_parse (json_print podJson) = Some podJson"
  unfolding json_print_def podJson_def by (rule json_parse_utf8) (simp_all add: podUID_def ascii_valid)

lemma simPod_start: "StartTime simPod = Some 1704067200000000000"
proof -
  have "parseTime ''2024-01-01T00:00:00Z'' = Some 1704067200000000000" by code_simp
  then show ?thesis by (simp add: simPod_def)
qed

lemma podJson_pods: "jpods (json_print podJson) = Some [simPod]"
  unfolding jpods_def podJson_parse by code_simp

lemma podJson_short: "take (4 * 2 ^ 20) (json_print podJson) = json_print podJson"
proof -
  have "length (json_print podJson) \<le> 4 * 2 ^ 20"
    by (simp add: podJson_def podUID_def json_print_def newline_def colon_def jquote_def jescape_def)
  then show ?thesis by simp
qed

lemma badTable_parse: "ParseMountInfo badTable = Inr [badRow ''/s'', badRow podTarget]"
proof -
  have "list_all line_ok [(''1'', ''0'', ''/'', [], badRow ''/s''), (''2'', ''0'', ''/'', [], badRow podTarget)]"
    by (simp add: line_ok_def mi_words_def mi_head_def badRow_def podTarget_def podUID_def word_ok_def opts_ok_def kernelEscape_def escaped_def ascii_spaceLen isSpace_def maxToken_def)
  from ParseMountInfo_rows [OF this] show ?thesis by (simp add: badTable_def)
qed

lemma podTarget_uid: "podVolumePath podTarget = Some podUID"
  by (simp add: podTarget_def podMatchAt_def cutPrefix_def hasPrefix_def hasSuffix_def podUID_def uidChar_def)


text \<open>The facts about that machine the two properties of a monitor pass need.\<close>

lemma bad_api: "api_up badHost diskKube ''n'' [simPod]"
  unfolding api_up_def
proof
  show "\<forall>w. \<exists>tok. fst (h_readFile badHost (tokenPath diskKube) w) = Inr tok" by (simp add: badHost_def)
  show "\<exists>body. jpods (take (4 * 2 ^ 20) body) = Some [simPod]
      \<and> (\<forall>tok w. fst (h_http badHost (apiRequest diskKube tok ''GET'' (podsPath ''n'') None) w) = Inr (200, body))"
  proof (intro exI conjI allI)
    show "jpods (take (4 * 2 ^ 20) (json_print podJson)) = Some [simPod]" by (simp only: podJson_short podJson_pods)
  qed (simp add: badHost_def)
qed

lemma bad_table: "run_state (ReadMountInfo badHost ''/mi'') s = (Inr [badRow ''/s'', badRow podTarget], s)"
  by (simp add: ReadMountInfo_def run_onErr run_sysc) (simp add: badHost_def badTable_parse)

lemma bad_stage: "LastAt [badRow ''/s'', badRow podTarget] ''/s'' = Some (badRow ''/s'')" "ForcedReadOnly (badRow ''/s'')"
    "\<lparr>PodUID = podUID, Path = podTarget\<rparr> \<in> set (PublishTargets [badRow ''/s'', badRow podTarget] (MajorMinor (badRow ''/s'')))"
proof -
  have "podTarget \<noteq> ''/s''" by (simp add: podTarget_def)
  then show "LastAt [badRow ''/s'', badRow podTarget] ''/s'' = Some (badRow ''/s'')" by (simp add: LastAt_def badRow_def)
  show "ForcedReadOnly (badRow ''/s'')" by (simp add: ForcedReadOnly_def badRow_def)
  show "\<lparr>PodUID = podUID, Path = podTarget\<rparr> \<in> set (PublishTargets [badRow ''/s'', badRow podTarget] (MajorMinor (badRow ''/s'')))"
    using podTarget_uid by (auto simp: badRow_def split: option.split)
qed

lemma simPlugin_inv: "lstate_inv (simPlugin fs)" "node_inv (simPlugin [])"
  by (auto simp: lstate_inv_def node_inv_def simPlugin_def simEntry_def stagedEntry_def simStageReq_def gm_wf_def split: if_splits)

lemma simPod_sel: "ControllerOwner simPod \<noteq> None" "DeletionTimestamp simPod = None" "pUID simPod = podUID"
  by (simp_all add: simPod_def ControllerOwner_def)

lemma bad_now: "fst (h_now badHost w) = 2000000000000000000"
  by (simp add: badHost_def)

lemma bad_clock:
  "\<forall>w. heldOf (simPlugin []) ''v'' \<le> fst (h_now badHost w) \<and> 1704067200000000000 < fst (h_now badHost w)"
  "\<forall>since. gm_get (failed (simPlugin [])) ''v'' = Some since \<longrightarrow> 1704067200000000000 < since"
  by (simp_all add: bad_now heldOf_def simPlugin_def zeroTime_def nsPerSecond_def)

lemma simMonitor_sel: "mKube simMonitor = Some diskKube" "AutoDelete simMonitor" "mNode simMonitor = ''n''" "mMountInfo simMonitor = ''/mi''"
  by (simp_all add: simMonitor_def)

lemma simPlugin_entry: "gm_get (lstate (simPlugin fs)) ''v'' = Some simEntry"
  by (simp add: simPlugin_def)

abbreviation badTick :: "sim mon_st" where
  "badTick \<equiv> snd (run_state (Tick badHost simMonitor) (simPlugin []))"

lemma bad_pass:
  "api_up badHost diskKube (mNode simMonitor) [simPod]" "distinct (map pUID [simPod])" "simPod \<in> set [simPod]"
  "LastAt [badRow ''/s'', badRow podTarget] (StagePath simEntry) = Some (badRow ''/s'')"
  "PodUID \<lparr>PodUID = podUID, Path = podTarget\<rparr> = pUID simPod"
  "run_state (ReadMountInfo badHost (mMountInfo simMonitor)) (simPlugin []) = (Inr [badRow ''/s'', badRow podTarget], simPlugin [])"
  "run_state (Tick badHost simMonitor) (simPlugin []) = ((), badTick)"
  unfolding simMonitor_sel simEntry_sel simPod_sel by (rule bad_api bad_stage bad_table | simp add: prod_eq_iff)+

lemmas bad_assms = simPlugin_inv(2) simMonitor_sel(1,2) bad_pass(1,2) simPlugin_entry bad_pass(4) bad_stage(2,3)
  bad_pass(3,5) simPod_sel(1,2) simPod_start bad_clock bad_pass(6,7)

theorem Tick_remedies_witness:
  "gm_get (failed badTick) ''v'' \<noteq> None \<and> (\<exists>rq \<in> set (newreqs (simPlugin []) badTick). deletionOf diskKube simPod rq)"
  by (rule Tick_remedies [OF bad_assms])

theorem Tick_deletes_only_witness:
  "\<exists>rq \<in> set (newreqs (simPlugin []) badTick). rq_method rq = ''DELETE'' \<and> AutoDelete simMonitor
     \<and> (\<exists>vol p k. gm_get (lstate (simPlugin [])) (sVolumeID vol) = Some vol \<and> ControllerOwner p \<noteq> None \<and> deletionOf k p rq)"
proof -
  obtain rq where rq: "rq \<in> set (newreqs (simPlugin []) badTick)" "deletionOf diskKube simPod rq"
    using tick_sends [OF bad_assms] by blast
  then have d: "rq_method rq = ''DELETE''" by (auto simp: deletionOf_def apiRequest_def)
  from Tick_deletes_only [OF simPlugin_inv(2) bad_pass(7) rq(1) d] show ?thesis
    by (elim conjE exE) (intro bexI [OF _ rq(1)] conjI exI d; assumption)
qed

theorem plugin_invariant_witness:
  "(let s = snd (run_state (NodePublishVolume calmHost simNode simPublishReq) (snd (run_state initNode (simPlugin []))))
    in \<forall>v m. gm_get (lstate s) v = Some m \<longrightarrow> sVolumeID m = v)"
  unfolding Let_def
  using plugin_invariant [OF plug_publish [OF plug_start [OF simPlugin_inv(1)]]] by blast

section \<open>Starting\<close>

definition simFlags :: nodeFlags where
  "simFlags = \<lparr>fEndpoint = ''/csi.sock'', fNodeID = ''n'', fStateDir = ''/d'', fStoresRoot = ''/m'', fAutoDelete = True\<rparr>"

definition simEnv :: "string \<Rightarrow> string" where
  "simEnv v = ''1''"

lemma calm_do: "yields (\<lambda>b. b = take (4 * 2 ^ 20) policyText) (kubeDo calmHost c ''GET'' p None)"
  by (simp add: yields_def kubeDo_def sendRequest_def run_onErr run_sysc Let_def)

lemma calm_policy: "yields (\<lambda>b. b) (PolicyEnforced calmHost c p)"
  unfolding PolicyEnforced_def
proof (rule yields_bind' [OF calm_do], simp only: sum.case, rule yields_bind' [OF calm_do])
  fix x y assume "y = take (4 * 2 ^ 20) policyText"
  then show "yields (\<lambda>b. b) (ret (case Inr y of Inl e \<Rightarrow> if isNotFound e then Inr False else Inl e
      | Inr data \<Rightarrow> (case validationActions data of None \<Rightarrow> Inl (Msg ''json'') | Some as \<Rightarrow> Inr (''Deny'' \<in> set as))))"
    by (simp only: sum.case policyText_deny option.case) (rule yields_ret, simp)
qed

lemma calm_may: "\<exists>s'. run_state (mayAutoDelete calmHost (Some k) True) s = (True, s')"
  using yields_run [OF calm_policy [of k PodDeletePolicyName], of s] by (auto simp: mayAutoDelete_def)

lemma calm_cluster: "run_state (InCluster calmHost simEnv (\<lambda>_. True)) s = (Inr (NewHTTPClient (''https://'' @ joinHostPort ''1'' ''1'') (saDir @ ''/token'')), s)"
  by (simp add: InCluster_def simEnv_def run_onErr run_sysc Let_def)

lemma calm_serving: "yields (\<lambda>(N, M). AutoDelete M) (startServing calmHost simEnv (\<lambda>_. True) simFlags p)"
  unfolding yields_def
proof
  fix s :: "(sim, 'm) mon_st_scheme"
  let ?s = "s\<lparr>failed := [], held := [], volMutex := [], nkeys := [], offLogged := [], eventSent := [], skipEvented := []\<rparr>"
  obtain s' where "run_state (mayAutoDelete calmHost (Some (NewHTTPClient (''https://'' @ joinHostPort ''1'' ''1'') (saDir @ ''/token''))) True) ?s = (True, s')"
    using calm_may by blast
  then show "\<exists>x. fst (run_state (startServing calmHost simEnv (\<lambda>_. True) simFlags p) s) = Inr x \<and> (case x of (N, M) \<Rightarrow> AutoDelete M)"
    by (simp add: startServing_def initNode_def newFailures_def calm_cluster simFlags_def Let_def)
qed

lemma calm_start: "yields (\<lambda>(N, M). AutoDelete M) (startNode calmHost simEnv (\<lambda>_. True) simFlags)"
proof -
  have "works (LoadState calmHost p)" for p
    unfolding LoadState_def by (auto simp: yields_def run_onErr run_sysc)
  then show ?thesis
    unfolding startNode_def Let_def
    by (auto simp: simFlags_def intro!: yields_onErr [where P = "\<lambda>_. True"] yields_bind calm_sysc calm_serving [unfolded simFlags_def])
qed

theorem startNode_guarded_witness:
  "\<exists>N M s'. run_state (startNode calmHost simEnv (\<lambda>_. True) simFlags) (simPlugin []) = (Inr (N, M), s')
     \<and> (\<exists>k t. mKube M = Some k \<and> run_state (PolicyEnforced calmHost k PodDeletePolicyName) t = (Inr True, s'))"
proof -
  obtain N M s' where r: "run_state (startNode calmHost simEnv (\<lambda>_. True) simFlags) (simPlugin []) = (Inr (N, M), s')" "AutoDelete M"
    using yields_run [OF calm_start] by (metis (no_types, lifting) case_prod_conv old.prod.exhaust)
  with startNode_guarded [OF r(1)] show ?thesis by blast
qed

end
