(* ===== verification/Spec2Isabelle.thy ===== *)
theory Spec2Isabelle
  imports Witnesses_Node
begin

text \<open>
  A verification library for the fileblock CSI driver (\<^verbatim>\<open>src/\<close>): volumes are ext4 images kept as sparse
  files on a backing store (an NFS export or a local directory), which a node plugin attaches as
  loop devices, optionally opens as LUKS2, and mounts into pods.

  \<^bold>\<open>Parts and how they interact.\<close> The controller service creates, lists, grows and deletes images. The node
  service stages a volume (loop device, LUKS mapping, file system check, mount), publishes it into pods and
  undoes both. Both find a volume's store through the registry, which mounts stores on
  demand. The node keeps a state file of what it staged, reconciles it with the kernel when it starts, and runs a
  monitor that marks volumes whose ext4 was forced read-only and deletes the pods that use them, so that the next
  publish stages them again.

  \<^bold>\<open>How the code is modelled.\<close> A Go function is a HOL function; one with effects is a term of the state monad. Errors
  are values: a result is \<open>goerr + 'a\<close>, and every early return is a branch (\<open>onErr\<close>, and \<open>onFail\<close> with its
  clean-up). The operating system is the parameter \<^typ>\<open>'w host\<close>, a record of functions on an abstract world: what a command
  prints, what a system call returns, the clock, the answers of the API server. What a property needs of
  it is a named hypothesis (\<open>fs_law\<close>, \<open>findmnt_law\<close>, \<open>live_law\<close>, \<open>umount_law\<close>, \<open>header_law\<close>, \<open>pipe_law\<close>, \<open>disk_law\<close>, \<open>api_up\<close> and
  others), and each of them is shown to hold of a concrete machine in \<^verbatim>\<open>Sim\<close>, \<^verbatim>\<open>Sim_Luks\<close>, \<^verbatim>\<open>Sim_Disk\<close> or \<^verbatim>\<open>Witnesses_Node\<close>.
  The state is a record that each component extends: \<open>sys\<close> (the world and the commands run), \<open>reg_st\<close>
  (registry), \<open>loop_st\<close> (table of staged volumes), \<open>kube_st\<close> (requests sent), \<open>fail_st\<close> (marks and hold-offs), \<open>node_st\<close>
  (locks and cached keys), \<open>mon_st\<close> (the memory of the monitor).

  \<^bold>\<open>Theories and sources.\<close>
  \<^item> \<^verbatim>\<open>Fb_Prelude\<close>: monad vocabulary, weakest preconditions (\<open>wp\<close>, collection \<open>wps\<close>), invariants (\<open>keeps\<close>, \<open>kept\<close>), Go maps, the
    locale \<open>keyed_store\<close>. \<^verbatim>\<open>Go_Lib\<close>, \<^verbatim>\<open>Json\<close>, \<^verbatim>\<open>Json_Roundtrip\<close>, \<^verbatim>\<open>Go_Net\<close>, \<^verbatim>\<open>Sha256\<close>: the parts of Go's library the
    driver uses (strings with Unicode white space, UTF-8, paths, JSON both ways, escaping and times, SHA-256). \<^verbatim>\<open>Host\<close>: errors and the system.
  \<^item> \<^verbatim>\<open>Exec\<close>: pkg/exec and its fake runner; locale \<open>runner\<close>. \<^verbatim>\<open>Mount\<close>, \<^verbatim>\<open>Mountinfo\<close>: pkg/mount. \<^verbatim>\<open>Image\<close>: pkg/image; locale
    \<open>image_manager\<close>, the abstract map from volume identifiers to capacities the manager refines.
  \<^item> \<^verbatim>\<open>Store\<close>, \<^verbatim>\<open>Registry\<close>: pkg/store (configurations, identifiers, mounters, the registry); locales \<open>live_checker\<close>, \<open>mount_checker\<close>, \<open>mounter\<close>.
  \<^item> \<^verbatim>\<open>Crypt\<close>: pkg/crypt. \<^verbatim>\<open>Loop\<close>, \<^verbatim>\<open>State_File\<close>: pkg/loop (losetup, the state file, reconciliation). \<^verbatim>\<open>Kube\<close>: pkg/kube;
    locale \<open>pod_api\<close>.
  \<^item> \<^verbatim>\<open>Encryption\<close>, \<^verbatim>\<open>Csi\<close>, \<^verbatim>\<open>Controller\<close>, \<^verbatim>\<open>Failures\<close>, \<^verbatim>\<open>Node\<close>, \<^verbatim>\<open>Monitor\<close>, \<^verbatim>\<open>Server\<close>: pkg/driver, the last with cmd/node and
    cmd/controller. \<^verbatim>\<open>Csi_Call\<close>: hack/csi-call. \<^verbatim>\<open>Node_Props\<close>, \<^verbatim>\<open>Monitor_Props\<close>: the proofs about \<^verbatim>\<open>Node\<close> and \<^verbatim>\<open>Monitor\<close>.
  \<^item> \<^verbatim>\<open>Witnesses\<close>, \<^verbatim>\<open>Witnesses_Driver\<close>, \<^verbatim>\<open>Witnesses_Node\<close>: the properties applied to concrete inputs.

  \<^bold>\<open>What the lemmas show.\<close>
  \<^item> Commands: no descriptor leaks, unmounting only what is mounted, mountinfo parsed as the kernel
    prints it (names without white space the kernel does not escape).
  \<^item> Images: Create and Delete are idempotent and refine the abstract map, Resize never shrinks, and how a failed
    Create blocks its own retry.
  \<^item> Stores: sub-directories cannot escape, identifiers are well formed, the maps of the registry agree in every reachable state and
    a live mount is never mounted over, though the check of it may fail (\<open>live_law\<close> says what it must not do).
  \<^item> Encryption: only blank devices are formatted, keys stay off command lines, rotation
    never locks a volume out, a volume is formatted once, and its file system is made on the mapping.
  \<^item> Loop: the largest usable sector size, an atomic state file whose UTF-8 contents survive a restart, a reconciliation
    that touches only the driver's untracked devices.
  \<^item> Controller: identifiers round-trip, sizes stay in range, created volumes exist and retries return them.
  \<^item> Node: a stage completes or is undone, unmounting ends also when \<^verbatim>\<open>umount\<close> fails, unstaging forgets the volume and its devices, a re-stage
    repeats the stage, and a failed volume is never published without one.
  \<^item> Monitor and start: the tables stay consistent under every sequence of calls and passes (\<open>plug_reach\<close>), only pods that can
    recover are deleted, those are deleted while the API server answers, and only under the admission policy.
  \<^item> This theory: what the controller creates is what the node stages.

  \<^bold>\<open>Bounds and fuel.\<close> The JSON reader has fuel from the length of the text, which the round trip shows to be enough. The
  blank check reads at most 16 MiB in its blocks, the unmount loop has the code's bound of
  eight, the sector loop halves down to 512. The monitor's endless loop is a number of passes. Go's int64 wraps in \<open>AlignUp\<close> as it does in
  the code; other sums of sizes and times stay integers, far below that width.

  \<^bold>\<open>Not modelled.\<close> Goroutines and locks: calls follow one another, as the per-volume and per-store locks make them
  for one volume, and a monitor pass runs between calls; whether the registry's check answers in time is a
  parameter. Log lines, contexts and their deadlines (a deadline is one way for a command to fail), flag parsing, signals. gRPC, \<^verbatim>\<open>url.Parse\<close>,
  the listener, the environment and the certificate pool are parameters. Status messages are cut to
  their fixed words; the codes are kept. The end-to-end test helpers (test/e2e), shell scripts (hack), manifests (deploy) and
  documents are not part of the driver's code.
\<close>

section \<open>Controller and node\<close>

text \<open>
  C6: The node finds what the controller made. For a volume CreateVolume returned, a stage request with its
  identifier and context (and, if it is encrypted, a usable key) parses to the configuration, the encryption and the
  format the controller had accepted; the image is there, and a node whose stores are mounted
  below the same root looks for it at the same path.
\<close>

theorem created_volume_stages:
  assumes ctl: "ctl_reach E R s" "cleanDir (r_root R)" "fs_law E files" "run_state (CreateVolume E R req) s = (Inr vol, s')"
    and rq: "srVolumeID rq = VolumeId vol" "srContext rq = VolumeContext vol" "srPath rq \<noteq> []"
    and ks: "\<forall>cfg. createParams req = Inr (cfg, True) \<longrightarrow> keysFromSecrets (srSecrets rq) = Inr ks"
  shows "\<exists>cfg encrypted f. createParams req = Inr (cfg, encrypted)
     \<and> stageParse rq = Inr (cfg, encrypted, if encrypted then ks else \<lparr>Current = [], Previous = []\<rparr>, f)
     \<and> (encrypted \<longrightarrow> formatFromParams (cvParameters req) True = Inr f)
     \<and> files (world s') (ImagePath (storePath (r_root R) cfg) (VolumeId vol)) \<noteq> None
     \<and> (\<forall>E' N t t' p. r_root (nRegistry N) = r_root R \<and> reg_inv (nRegistry N) t \<and> run_state (regGet E' (nRegistry N) cfg) t = (Inr p, t')
          \<longrightarrow> ImagePath p (srVolumeID rq) = ImagePath (storePath (r_root R) cfg) (VolumeId vol))"
proof -
  obtain cfg enc p s1 s2 cap v m where st: "createParams req = Inr (cfg, enc)" "run_state (regGet E R cfg) s = (Inr p, s1)"
    "run_state (newManager E p) s1 = (Inr p, s2)" "volumeIDFromName cfg (cvName req) = Inr v"
    "run_state (imgCreate E p v cap enc) s2 = (Inr m, s')" "VolumeId vol = VolumeID m" "VolumeContext vol = createContext cfg enc (cvParameters req)"
    by (rule CreateVolume_steps [OF ctl(4)]) simp
  have cfg: "ConfigFromParams (cvParameters req) = Inr cfg" using createParams_config [OF st(1)] by simp
  have ok: "cfg_ok cfg" by (rule cfg_ok_parsed [OF cfg])
  have p: "p = storePath (r_root R) cfg"
    using wp_run [OF regGet_inv [OF ctl_reach_inv [OF ctl(1,2)] ctl(2) ok] st(2)] by auto
  have m: "VolumeID m = v" "volumes files p s' v = Some (CapacityBytes m)" using im.create_stores [OF ctl(3) st(5)] by auto
  obtain f where f: "enc \<longrightarrow> formatFromParams (cvParameters req) True = Inr f"
    using createParams_config [OF st(1)] by (cases enc; cases "formatFromParams (cvParameters req) True") auto
  have k: "enc \<longrightarrow> keysFromSecrets (srSecrets rq) = Inr ks" using ks st(1) by auto
  have "v \<noteq> []" using volumeID_parse(3) [OF st(4)] by simp
  then have "\<exists>f. stageParse rq = Inr (cfg, enc, if enc then ks else \<lparr>Current = [], Previous = []\<rparr>, f) \<and> (enc \<longrightarrow> formatFromParams (cvParameters req) True = Inr f)"
    using f createContext_config [OF cfg, of enc] createContext_encryption [where cfg = cfg and enc = enc and params = "cvParameters req"] rq k st(6,7) m(1)
    by (auto simp: stageParse_def)
  moreover have "files (world s') (ImagePath (storePath (r_root R) cfg) (VolumeId vol)) \<noteq> None"
    using m st(6) p by (auto simp: volumes_def split: if_splits option.splits)
  moreover have "p' = storePath (r_root R) cfg"
    if "r_root (nRegistry N) = r_root R" "reg_inv (nRegistry N) t" "run_state (regGet E' (nRegistry N) cfg) t = (Inr p', t')" for E' N t t' p'
    using wp_run [OF regGet_inv [OF that(2) _ ok] that(3)] ctl(2) that(1) by auto
  ultimately show ?thesis using st(1) rq(1) by metis
qed

definition simStageOf :: "csiVolume \<Rightarrow> stageRequest" where
  "simStageOf vol = \<lparr>srVolumeID = VolumeId vol, srPath = ''/s'', srContext = VolumeContext vol,
     srSecrets = [], srCap = None\<rparr>"

theorem created_volume_stages_witness:
  "\<exists>vol s' cfg f. run_state (CreateVolume simHost simReg (simCreate 8192)) (simAt []) = (Inr vol, s')
     \<and> stageParse (simStageOf vol) = Inr (cfg, False, \<lparr>Current = [], Previous = []\<rparr>, f)
     \<and> simFs (world s') (ImagePath (storePath ''/m'' cfg) (VolumeId vol)) \<noteq> None"
proof -
  obtain vol s' where c: "run_state (CreateVolume simHost simReg (simCreate 8192)) (simAt []) = (Inr vol, s')" by (rule sim_created)
  have k: "\<forall>cfg. createParams (simCreate 8192) = Inr (cfg, True) \<longrightarrow> keysFromSecrets (srSecrets (simStageOf vol)) = Inr noKeys"
    by (simp add: simCreate_params)
  have s: "srVolumeID (simStageOf vol) = VolumeId vol" "srContext (simStageOf vol) = VolumeContext vol" "srPath (simStageOf vol) \<noteq> []" "r_root simReg = ''/m''"
    by (simp_all add: simStageOf_def simReg_def)
  from created_volume_stages [OF simAt_reach simReg_root sim_fs_law c s(1,2,3) k] simCreate_params [of 8192]
  obtain f where "stageParse (simStageOf vol) = Inr (simLocal, False, \<lparr>Current = [], Previous = []\<rparr>, f)"
      "simFs (world s') (ImagePath (storePath ''/m'' simLocal) (VolumeId vol)) \<noteq> None"
    unfolding s(4) by auto
  with c show ?thesis by blast
qed

end
